(* ===== verification/Prelude.thy ===== *)
theory Prelude
  imports Complex_Main "HOL-Library.Word" "HOL-Library.Product_Lexorder"
begin

text \<open>
  Shared vocabulary of the development: Python strings and their stripping, UUIDs and their
  canonical text, instants, the exceptions the application raises, programs that read and write a
  state and may raise (\<open>prog\<close>) with a weakest-precondition calculus for them, the bounded
  retry loop the services use, and generic lemmas on lists used by the table models.
\<close>

named_theorems wp_rules \<open>weakest preconditions of the program combinators\<close>
named_theorems table_simps \<open>facts on rows found in, added to and replaced in a table\<close>

section \<open>Basic types\<close>

text \<open>An instant is the number of microseconds since the epoch, UTC: what an aware
  \<^verbatim>\<open>datetime\<close> denotes. Aware values are compared and subtracted as instants.\<close>

type_synonym instant = int
type_synonym uuid = "128 word"

abbreviation microseconds_per_day :: int where
  "microseconds_per_day \<equiv> 86400 * 1000000"

abbreviation microseconds_per_hour :: int where
  "microseconds_per_hour \<equiv> 3600 * 1000000"

text \<open>A Python \<^verbatim>\<open>datetime\<close> with or without a usable UTC offset.\<close>

datatype py_datetime = Aware instant | Naive int

text \<open>A Python \<^verbatim>\<open>float\<close>: a rational, or one of the non-finite values. The rounding and the
  overflow of double arithmetic are not modelled.\<close>

datatype py_float = Finite rat | Not_finite

fun isfinite :: "py_float \<Rightarrow> bool" where
  "isfinite (Finite _) \<longleftrightarrow> True"
| "isfinite Not_finite \<longleftrightarrow> False"

fun fval :: "py_float \<Rightarrow> rat" where
  "fval (Finite x) = x"
| "fval Not_finite = 0"

section \<open>Exceptions\<close>

text \<open>The exception classes the modelled code raises or catches. A message is kept where the
  source gives a literal one. \<^verbatim>\<open>DatabaseError\<close> stands for the errors of the driver and of the
  connection pool, with the violated constraint if it is a unique violation.\<close>

datatype exn =
    ValueError string
  | ValidationError string
  | PyRuntimeError string
  | AssertionError
  | ForbiddenError string
  | UnauthenticatedError string
  | DirectoryInfrastructureUnavailableError
  | AssignmentTargetUnavailableError
  | StaleOrderVersionError
  | OrderNotAccessibleError
  | InvalidOperationStatusTransition
  | OperationNotFoundError
  | ActiveOrderOperationConflictError
  | DuplicateOperationIdempotencyError
  | DuplicateOperationSourceMessageError
  | ConcurrentOperationUpdateError
  | OperationPersistenceError
  | InvalidCaseStatusTransition
  | CaseNotFoundError
  | ActiveCaseConflictError
  | DuplicateIdempotencyKeyError
  | DuplicateSourceMessageError
  | ConcurrentCaseUpdateError
  | CasePersistenceError
  | DatabaseError "string option"
  | IntegrationPersistenceError
  | InboxEventConflictError
  | LeaseConflictError
  | OverflowError
  | OutboxAttemptsExhaustedError
  | InboxAttemptsExhaustedError
  | WebhookAuthenticationError
  | WebhookPayloadError
  | ProviderOperationsNotFoundError
  | ProviderOperationsConflictError
  | ProviderOperationsPersistenceError
  | DuplicateRefundError
  | RefundPersistenceError
  | HTTPStatusError int "py_float option"
  | ProviderConnectionError
  | ProviderTimeoutError
  | ProviderRejectionError
  | ProviderConnectionNotFoundError

text \<open>The exceptions that are a \<^verbatim>\<open>ValueError\<close>.\<close>

fun is_value_error :: "exn \<Rightarrow> bool" where
  "is_value_error (ValueError _) \<longleftrightarrow> True"
| "is_value_error (ValidationError _) \<longleftrightarrow> True"
| "is_value_error InvalidOperationStatusTransition \<longleftrightarrow> True"
| "is_value_error InvalidCaseStatusTransition \<longleftrightarrow> True"
| "is_value_error WebhookAuthenticationError \<longleftrightarrow> True"
| "is_value_error WebhookPayloadError \<longleftrightarrow> True"
| "is_value_error _ \<longleftrightarrow> False"

section \<open>Strings\<close>

text \<open>\<^verbatim>\<open>str.strip()\<close>: the white space of Python's \<^verbatim>\<open>str.isspace\<close> among
  the first 256 code points. The model's \<^verbatim>\<open>str_strip_whitespace\<close> trims the
  Unicode White\_Space characters, which leave out the four separators 28 to 31.\<close>

definition is_space :: "char \<Rightarrow> bool" where
  "is_space c \<longleftrightarrow> (let n = (of_char c :: nat) in
     (9 \<le> n \<and> n \<le> 13) \<or> (28 \<le> n \<and> n \<le> 32) \<or> n = 133 \<or> n = 160)"

definition is_white_space :: "char \<Rightarrow> bool" where
  "is_white_space c \<longleftrightarrow> (let n = (of_char c :: nat) in
     (9 \<le> n \<and> n \<le> 13) \<or> n = 32 \<or> n = 133 \<or> n = 160)"

definition strip_by :: "('a \<Rightarrow> bool) \<Rightarrow> 'a list \<Rightarrow> 'a list" where
  "strip_by P s = rev (dropWhile P (rev (dropWhile P s)))"

definition strip :: "string \<Rightarrow> string" where
  "strip s = strip_by is_space s"

definition trim :: "string \<Rightarrow> string" where
  "trim s = strip_by is_white_space s"

text \<open>For evaluation: white space as a list of characters, lengths as binary integers.\<close>

definition white_chars :: "char list" where
  "white_chars = [CHR 0x20, CHR 0x0A, CHR 0x09, CHR 0x0B, CHR 0x0C, CHR 0x0D, CHR 0x85, CHR 0xA0]"

lemma of_char_eq: "n < 256 \<Longrightarrow> (of_char c :: nat) = n \<longleftrightarrow> c = char_of n"
  by (metis char_of_char of_char_of mod_less)

lemma char_of_white:
  "char_of (9::nat) = CHR 0x09" "char_of (10::nat) = CHR 0x0A" "char_of (11::nat) = CHR 0x0B"
  "char_of (12::nat) = CHR 0x0C" "char_of (13::nat) = CHR 0x0D" "char_of (28::nat) = CHR 0x1C"
  "char_of (29::nat) = CHR 0x1D" "char_of (30::nat) = CHR 0x1E" "char_of (31::nat) = CHR 0x1F"
  "char_of (32::nat) = CHR 0x20" "char_of (133::nat) = CHR 0x85" "char_of (160::nat) = CHR 0xA0"
  by code_simp+

lemma is_white_space_code [code]: "is_white_space c \<longleftrightarrow> list_ex (\<lambda>d. d = c) white_chars"
proof -
  have "is_white_space c \<longleftrightarrow> (of_char c :: nat) \<in> {9, 10, 11, 12, 13, 32, 133, 160}"
    unfolding is_white_space_def Let_def by (simp, arith)
  also have "\<dots> \<longleftrightarrow> list_ex (\<lambda>d. d = c) white_chars"
    by (auto simp: of_char_eq char_of_white white_chars_def)
  finally show ?thesis .
qed

lemma is_space_code [code]:
  "is_space c \<longleftrightarrow> list_ex (\<lambda>d. d = c) (white_chars @ [CHR 0x1C, CHR 0x1D, CHR 0x1E, CHR 0x1F])"
proof -
  have "is_space c \<longleftrightarrow> (of_char c :: nat) \<in> {9, 10, 11, 12, 13, 28, 29, 30, 31, 32, 133, 160}"
    unfolding is_space_def Let_def by (simp, arith)
  also have "\<dots> \<longleftrightarrow> list_ex (\<lambda>d. d = c) (white_chars @ [CHR 0x1C, CHR 0x1D, CHR 0x1E, CHR 0x1F])"
    by (auto simp: of_char_eq char_of_white white_chars_def)
  finally show ?thesis .
qed

fun size_int :: "'a list \<Rightarrow> int" where
  "size_int [] = 0"
| "size_int (x # xs) = size_int xs + 1"

lemma size_int: "size_int xs = int (length xs)"
  by (induction xs) simp_all

lemma length_le_code [code_unfold]: "length xs \<le> numeral k \<longleftrightarrow> size_int xs \<le> numeral k"
  by (simp add: size_int)

text \<open>SQL's \<^verbatim>\<open>btrim\<close> removes blanks only.\<close>

definition btrim :: "string \<Rightarrow> string" where
  "btrim s = strip_by (\<lambda>c. c = CHR '' '') s"

text \<open>The trimmed shape: empty, or with no removable character at either end.\<close>

definition stripped_by :: "('a \<Rightarrow> bool) \<Rightarrow> 'a list \<Rightarrow> bool" where
  "stripped_by P s \<longleftrightarrow> s = [] \<or> (\<not> P (hd s) \<and> \<not> P (last s))"

lemma strip_by_id:
  assumes "stripped_by P s"
  shows "strip_by P s = s"
proof -
  have "dropWhile P s = s" "dropWhile P (rev s) = rev s"
    using assms by (auto simp: stripped_by_def dropWhile_eq_self_iff hd_rev)
  then show ?thesis by (simp add: strip_by_def)
qed

lemma last_dropWhile: "dropWhile P s \<noteq> [] \<Longrightarrow> last (dropWhile P s) = last s"
  by (induction s) (auto split: if_splits)

lemma stripped_by_strip_by: "stripped_by P (strip_by P s)"
proof (cases "strip_by P s = []")
  case True
  then show ?thesis by (simp add: stripped_by_def)
next
  case False
  define t where "t = dropWhile P s"
  have ne: "dropWhile P (rev t) \<noteq> []" using False by (simp add: strip_by_def t_def)
  then have "t \<noteq> []" by auto
  have lst: "\<not> P (last (strip_by P s))"
    using ne hd_dropWhile[OF ne] by (simp add: strip_by_def t_def last_rev)
  have "hd (strip_by P s) = last (dropWhile P (rev t))"
    using ne by (simp add: strip_by_def t_def hd_rev)
  also have "\<dots> = hd t" using ne \<open>t \<noteq> []\<close> by (simp add: last_dropWhile last_rev)
  finally have "\<not> P (hd (strip_by P s))"
    using hd_dropWhile[of P s] \<open>t \<noteq> []\<close> by (simp add: t_def)
  with lst show ?thesis by (simp add: stripped_by_def)
qed

lemma strip_by_idem [simp]: "strip_by P (strip_by P s) = strip_by P s"
  by (rule strip_by_id[OF stripped_by_strip_by])

lemma strip_idem [simp]: "strip (strip s) = strip s"
  by (simp add: strip_def)

lemma trim_idem [simp]: "trim (trim s) = trim s"
  by (simp add: trim_def)

lemma strip_Nil [simp]: "strip [] = []" and trim_Nil [simp]: "trim [] = []"
  by (simp_all add: strip_def trim_def strip_by_def)

lemma set_strip_by_subset: "set (strip_by P s) \<subseteq> set s"
  unfolding strip_by_def by (auto dest!: set_dropWhileD)

lemma strip_by_eq_Nil: "strip_by P s = [] \<longleftrightarrow> (\<forall>c\<in>set s. P c)"
proof -
  have "strip_by P s = [] \<longleftrightarrow> (\<forall>c\<in>set (dropWhile P s). P c)"
    by (simp add: strip_by_def dropWhile_eq_Nil_conv)
  also have "\<dots> \<longleftrightarrow> (\<forall>c\<in>set s. P c)"
    by (induction s) auto
  finally show ?thesis .
qed

lemma strip_trim_Nil: "trim s = [] \<Longrightarrow> strip s = []"
  by (auto simp: trim_def strip_def strip_by_eq_Nil is_white_space_def is_space_def Let_def)

text \<open>Python's \<^verbatim>\<open>a or b\<close> on optional strings: an empty string is false.\<close>

fun py_or :: "string option \<Rightarrow> string option \<Rightarrow> string option" where
  "py_or (Some (c # cs)) b = Some (c # cs)"
| "py_or _ b = b"

subsection \<open>UUID text\<close>

text \<open>\<^verbatim>\<open>str(uuid)\<close>: 32 lower-case hexadecimal digits grouped 8-4-4-4-12.\<close>

definition hex_digit :: "nat \<Rightarrow> char" where
  "hex_digit d = (if d < 10 then char_of (48 + d) else char_of (87 + d))"

fun hex_digits :: "nat \<Rightarrow> nat \<Rightarrow> string" where
  "hex_digits 0 n = []"
| "hex_digits (Suc k) n = hex_digits k (n div 16) @ [hex_digit (n mod 16)]"

definition uuid_str :: "uuid \<Rightarrow> string" where
  "uuid_str u = (let h = hex_digits 32 (unat u) in
     take 8 h @ ''-'' @ take 4 (drop 8 h) @ ''-'' @ take 4 (drop 12 h) @ ''-''
       @ take 4 (drop 16 h) @ ''-'' @ drop 20 h)"

lemma length_hex_digits [simp]: "length (hex_digits k n) = k"
  by (induction k arbitrary: n) auto

lemma length_uuid_str [simp]: "length (uuid_str u) = 36"
  by (simp add: uuid_str_def Let_def)

lemma hex_digit_inj: "a < 16 \<Longrightarrow> b < 16 \<Longrightarrow> hex_digit a = hex_digit b \<Longrightarrow> a = b"
  unfolding hex_digit_def
  by (auto split: if_splits dest!: arg_cong[where f = "of_char :: char \<Rightarrow> nat"])

lemma hex_digits_inj:
  "m < 16 ^ k \<Longrightarrow> n < 16 ^ k \<Longrightarrow> hex_digits k m = hex_digits k n \<Longrightarrow> m = n"
proof (induction k arbitrary: m n)
  case 0
  then show ?case by simp
next
  case (Suc k)
  from Suc.prems(3) have h: "hex_digits k (m div 16) = hex_digits k (n div 16)"
    and d: "hex_digit (m mod 16) = hex_digit (n mod 16)" by simp_all
  have "m div 16 < 16 ^ k" "n div 16 < 16 ^ k"
    using Suc.prems(1,2) by (simp_all add: less_mult_imp_div_less mult.commute)
  with h have "m div 16 = n div 16" by (rule Suc.IH[rotated 2])
  moreover have "m mod 16 = n mod 16" using d by (intro hex_digit_inj) simp_all
  ultimately show ?case by (metis div_mult_mod_eq)
qed

lemma uuid_str_inj: "uuid_str a = uuid_str b \<Longrightarrow> a = b"
proof -
  assume eq: "uuid_str a = uuid_str b"
  define h where "h = hex_digits 32 (unat a)"
  define g where "g = hex_digits 32 (unat b)"
  have len: "length h = 32" "length g = 32" by (simp_all add: h_def g_def)
  have parts: "take 8 h = take 8 g" "take 4 (drop 8 h) = take 4 (drop 8 g)"
    "take 4 (drop 12 h) = take 4 (drop 12 g)" "take 4 (drop 16 h) = take 4 (drop 16 g)"
    "drop 20 h = drop 20 g"
    using eq len unfolding uuid_str_def Let_def h_def[symmetric] g_def[symmetric]
    by simp_all
  have split: "x = take 8 x @ take 4 (drop 8 x) @ take 4 (drop 12 x) @ take 4 (drop 16 x) @ drop 20 x"
    for x :: string
  proof -
    have "drop 16 x = take 4 (drop 16 x) @ drop 20 x"
      using append_take_drop_id[of 4 "drop 16 x"] by (simp add: add.commute)
    moreover have "drop 12 x = take 4 (drop 12 x) @ drop 16 x"
      using append_take_drop_id[of 4 "drop 12 x"] by simp
    moreover have "drop 8 x = take 4 (drop 8 x) @ drop 12 x"
      using append_take_drop_id[of 4 "drop 8 x"] by simp
    ultimately show ?thesis by (metis append_take_drop_id)
  qed
  have "h = g" using split[of h] split[of g] parts by metis
  moreover have "unat a < 16 ^ 32" "unat b < 16 ^ 32"
    using unsigned_less[of a, where ?'a = nat] unsigned_less[of b, where ?'a = nat] by simp_all
  ultimately have "unat a = unat b"
    unfolding h_def g_def by (rule hex_digits_inj[rotated 2])
  then show "a = b" by (simp add: word_unat_eq_iff)
qed

lemma uuid_key_inj:
  "p @ uuid_str a @ s = p @ uuid_str b @ t \<longleftrightarrow> a = b \<and> s = t"
  by (auto dest: uuid_str_inj)

subsection \<open>Text of unbounded naturals\<close>

fun nat_str :: "nat \<Rightarrow> string" where
  "nat_str n = (if n < 10 then [char_of (48 + n)] else nat_str (n div 10) @ [char_of (48 + n mod 10)])"

declare nat_str.simps [simp del]

section \<open>Programs with state and exceptions\<close>

text \<open>
  A coroutine of the source is a state transformer that returns a value or raises. What it wrote
  before raising stays written.
\<close>

type_synonym ('s, 'a) prog = "'s \<Rightarrow> (exn + 'a) \<times> 's"

definition ret :: "'a \<Rightarrow> ('s, 'a) prog" where
  "ret x = (\<lambda>s. (Inr x, s))"

definition throw :: "exn \<Rightarrow> ('s, 'a) prog" where
  "throw e = (\<lambda>s. (Inl e, s))"

definition bnd :: "('s, 'a) prog \<Rightarrow> ('a \<Rightarrow> ('s, 'b) prog) \<Rightarrow> ('s, 'b) prog" where
  "bnd m k = (\<lambda>s. case m s of (Inl e, s') \<Rightarrow> (Inl e, s') | (Inr x, s') \<Rightarrow> k x s')"

text \<open>\<^verbatim>\<open>try: m except e: h e\<close>.\<close>

definition try_except :: "('s, 'a) prog \<Rightarrow> (exn \<Rightarrow> ('s, 'a) prog) \<Rightarrow> ('s, 'a) prog" where
  "try_except m h = (\<lambda>s. case m s of (Inl e, s') \<Rightarrow> h e s' | (Inr x, s') \<Rightarrow> (Inr x, s'))"

text \<open>Raise unless the guard holds; a pure computation that may raise.\<close>

definition require :: "bool \<Rightarrow> exn \<Rightarrow> ('s, unit) prog" where
  "require b e = (if b then ret () else throw e)"

definition lift :: "exn + 'a \<Rightarrow> ('s, 'a) prog" where
  "lift r = (\<lambda>s. (r, s))"

text \<open>\<^verbatim>\<open>for _attempt in range(n)\<close> around a body that returns from the enclosing
  function (\<^const>\<open>Some\<close>) or continues (\<^const>\<open>None\<close>); \<open>after\<close> runs when the
  range is exhausted.\<close>

fun attempts :: "nat \<Rightarrow> ('s, 'a option) prog \<Rightarrow> ('s, 'a) prog \<Rightarrow> ('s, 'a) prog" where
  "attempts 0 body after = after"
| "attempts (Suc n) body after =
     bnd body (\<lambda>r. case r of Some x \<Rightarrow> ret x | None \<Rightarrow> attempts n body after)"

subsection \<open>Weakest preconditions\<close>

definition wp :: "('s, 'a) prog \<Rightarrow> ('a \<Rightarrow> 's \<Rightarrow> bool) \<Rightarrow> (exn \<Rightarrow> 's \<Rightarrow> bool) \<Rightarrow> 's \<Rightarrow> bool" where
  "wp m Q E s = (case m s of (Inl e, s') \<Rightarrow> E e s' | (Inr x, s') \<Rightarrow> Q x s')"

lemma wp_ret [wp_rules]: "wp (ret x) Q E s = Q x s"
  by (simp add: wp_def ret_def)

lemma wp_throw [wp_rules]: "wp (throw e) Q E s = E e s"
  by (simp add: wp_def throw_def)

lemma wp_bnd [wp_rules]: "wp (bnd m k) Q E s = wp m (\<lambda>x. wp (k x) Q E) E s"
  by (simp add: wp_def bnd_def split: prod.split sum.split)

lemma wp_try_except [wp_rules]: "wp (try_except m h) Q E s = wp m Q (\<lambda>e. wp (h e) Q E) s"
  by (simp add: wp_def try_except_def split: prod.split sum.split)

lemma wp_require [wp_rules]: "wp (require b e) Q E s = (if b then Q () s else E e s)"
  by (simp add: require_def wp_rules)

lemma wp_lift [wp_rules]: "wp (lift r) Q E s = (case r of Inl e \<Rightarrow> E e s | Inr x \<Rightarrow> Q x s)"
  by (simp add: wp_def lift_def split: sum.split)

lemma wp_if [wp_rules]: "wp (if b then m else n) Q E s = (if b then wp m Q E s else wp n Q E s)"
  by simp

lemma wp_option [wp_rules]:
  "wp (case x of None \<Rightarrow> m | Some y \<Rightarrow> n y) Q E s =
   (case x of None \<Rightarrow> wp m Q E s | Some y \<Rightarrow> wp (n y) Q E s)"
  by (simp split: option.split)

lemma wp_prod [wp_rules]:
  "wp (case x of (a, b) \<Rightarrow> m a b) Q E s = (case x of (a, b) \<Rightarrow> wp (m a b) Q E s)"
  by (simp split: prod.split)

lemma wp_mono:
  assumes "wp m Q E s" and "\<And>x s. Q x s \<Longrightarrow> Q' x s" and "\<And>e s. E e s \<Longrightarrow> E' e s"
  shows "wp m Q' E' s"
  using assms by (auto simp: wp_def split: prod.splits sum.splits)

text \<open>The loop rule: an invariant that the body keeps whether it continues or not.\<close>

lemma wp_attempts:
  assumes I: "I s"
    and body: "\<And>s. I s \<Longrightarrow> wp body (\<lambda>r s'. case r of Some x \<Rightarrow> Q x s' | None \<Rightarrow> I s') E s"
    and after: "\<And>s. I s \<Longrightarrow> wp after Q E s"
  shows "wp (attempts n body after) Q E s"
  using I
proof (induction n arbitrary: s)
  case 0
  then show ?case by (simp add: after)
next
  case (Suc n)
  show ?case unfolding attempts.simps wp_bnd
    by (rule wp_mono[OF body[OF Suc.prems]]) (auto simp: wp_rules Suc.IH split: option.splits)
qed

text \<open>How a result of a program is reached from its weakest precondition.\<close>

lemma wp_resultD:
  assumes "wp m Q E s" and "m s = (r, s')"
  shows "case r of Inl e \<Rightarrow> E e s' | Inr x \<Rightarrow> Q x s'"
  using assms by (auto simp: wp_def split: sum.splits)

lemma wp_resultI:
  "(\<And>r s'. m s = (r, s') \<Longrightarrow> case r of Inl e \<Rightarrow> E e s' | Inr x \<Rightarrow> Q x s') \<Longrightarrow> wp m Q E s"
  by (cases "m s") (auto simp: wp_def split: sum.splits)

section \<open>Rows of a table\<close>

text \<open>A table is the list of its rows. A unique index on key \<open>f\<close> over the rows that satisfy
  \<open>P\<close> (a partial index when \<open>P\<close> is not everything).\<close>

definition unique_on :: "('r \<Rightarrow> bool) \<Rightarrow> ('r \<Rightarrow> 'k) \<Rightarrow> 'r list \<Rightarrow> bool" where
  "unique_on P f rows \<longleftrightarrow> distinct (map f (filter P rows))"

definition key_taken :: "('r \<Rightarrow> bool) \<Rightarrow> ('r \<Rightarrow> 'k) \<Rightarrow> 'r list \<Rightarrow> 'r \<Rightarrow> bool" where
  "key_taken P f rows r \<longleftrightarrow> P r \<and> list_ex (\<lambda>x. P x \<and> f x = f r) rows"

definition update_rows :: "('r \<Rightarrow> bool) \<Rightarrow> ('r \<Rightarrow> 'r) \<Rightarrow> 'r list \<Rightarrow> 'r list" where
  "update_rows sel upd rows = map (\<lambda>x. if sel x then upd x else x) rows"

lemma unique_on_Nil [simp]: "unique_on P f []"
  by (simp add: unique_on_def)

lemma unique_on_snoc:
  "unique_on P f rows \<Longrightarrow> \<not> key_taken P f rows r \<Longrightarrow> unique_on P f (rows @ [r])"
  by (auto simp: unique_on_def key_taken_def list_ex_iff)

lemma unique_on_eqD:
  "unique_on P f rows \<Longrightarrow> a \<in> set rows \<Longrightarrow> b \<in> set rows \<Longrightarrow> P a \<Longrightarrow> P b \<Longrightarrow> f a = f b \<Longrightarrow> a = b"
  by (auto simp: unique_on_def distinct_map inj_on_def)

lemma map_update_rows_id:
  "(\<And>x. x \<in> set rows \<Longrightarrow> sel x \<Longrightarrow> f (upd x) = f x) \<Longrightarrow> map f (update_rows sel upd rows) = map f rows"
  by (auto simp: update_rows_def)

lemma update_rows_none:
  "(\<And>x. x \<in> set rows \<Longrightarrow> \<not> sel x) \<Longrightarrow> update_rows sel upd rows = rows"
  unfolding update_rows_def by (rule map_idI) simp

lemma unique_on_update:
  assumes "unique_on P f rows" and "distinct (map k rows)"
    and "\<And>x y. x \<in> set rows \<Longrightarrow> y \<in> set rows \<Longrightarrow> sel x \<Longrightarrow> sel y \<Longrightarrow> k x = k y"
    and "\<And>x. x \<in> set rows \<Longrightarrow> sel x \<Longrightarrow> \<not> key_taken P f (filter (\<lambda>y. \<not> sel y) rows) (upd x)"
  shows "unique_on P f (update_rows sel upd rows)"
  using assms
proof (induction rows)
  case Nil
  then show ?case by (simp add: update_rows_def)
next
  case (Cons a rows)
  have sub: "unique_on P f (update_rows sel upd rows)"
  proof (rule Cons.IH)
    show "unique_on P f rows" using Cons.prems(1) by (simp add: unique_on_def split: if_splits)
    show "distinct (map k rows)" using Cons.prems(2) by simp
    show "k x = k y" if "x \<in> set rows" "y \<in> set rows" "sel x" "sel y" for x y
      using Cons.prems(3)[of x y] that by simp
    show "\<not> key_taken P f (filter (\<lambda>y. \<not> sel y) rows) (upd x)" if "x \<in> set rows" "sel x" for x
      using Cons.prems(4)[of x] that by (auto simp: key_taken_def split: if_splits)
  qed
  show ?case
  proof (cases "sel a")
    case True
    have none: "\<not> sel x" if "x \<in> set rows" for x
      using Cons.prems(2) Cons.prems(3)[of a x] True that by force
    then have id: "update_rows sel upd rows = rows" by (rule update_rows_none)
    have "\<not> key_taken P f rows (upd a)"
      using Cons.prems(4)[of a] True none by (auto simp: key_taken_def list_ex_iff)
    then show ?thesis
      using sub True id by (auto simp: unique_on_def key_taken_def list_ex_iff update_rows_def)
  next
    case False
    have "f (if sel x then upd x else x) \<noteq> f a"
      if "P a" "x \<in> set rows" "P (if sel x then upd x else x)" for x
    proof (cases "sel x")
      case True
      with Cons.prems(4)[of x] False that show ?thesis
        by (auto simp: key_taken_def)
    next
      case False
      with Cons.prems(1) that show ?thesis by (auto simp: unique_on_def image_iff)
    qed
    then show ?thesis
      using sub False by (force simp: unique_on_def update_rows_def)
  qed
qed

lemma find_SomeD: "find P xs = Some x \<Longrightarrow> x \<in> set xs \<and> P x"
  by (induction xs) (auto split: if_splits)

lemma find_NoneD: "find P xs = None \<Longrightarrow> x \<in> set xs \<Longrightarrow> \<not> P x"
  by (induction xs) (auto split: if_splits)

lemma find_unique:
  assumes "distinct (map k rows)" and "x \<in> set rows" and "P x"
    and "\<And>y. y \<in> set rows \<Longrightarrow> P y \<Longrightarrow> k y = k x"
  shows "find P rows = Some x"
proof (cases "find P rows")
  case None
  then show ?thesis using find_NoneD[OF None assms(2)] assms(3) by simp
next
  case (Some y)
  then have "y \<in> set rows" "P y" by (simp_all add: find_SomeD)
  moreover from this have "k y = k x" by (rule assms(4))
  ultimately have "y = x" using assms(1,2) by (metis distinct_map inj_onD)
  then show ?thesis using Some by simp
qed

text \<open>\<^verbatim>\<open>ORDER BY key LIMIT 1\<close>.\<close>

definition first_by :: "('r \<Rightarrow> 'k::linorder) \<Rightarrow> 'r list \<Rightarrow> 'r option" where
  "first_by key rows = (case sort_key key rows of [] \<Rightarrow> None | x # _ \<Rightarrow> Some x)"

lemma first_by_SomeD: "first_by key rows = Some x \<Longrightarrow> x \<in> set rows"
proof -
  assume "first_by key rows = Some x"
  then obtain ys where "sort_key key rows = x # ys" by (auto simp: first_by_def split: list.splits)
  then have "x \<in> set (sort_key key rows)" by (simp only: list.set) simp
  then show ?thesis by simp
qed

lemma first_by_NoneD: "first_by key rows = None \<Longrightarrow> rows = []"
proof -
  assume "first_by key rows = None"
  then have "sort_key key rows = []" by (auto simp: first_by_def split: list.splits)
  then have "set (sort_key key rows) = {}" by (simp only: list.set)
  then show ?thesis by simp
qed

lemma first_by_least:
  assumes "first_by key rows = Some x" and "y \<in> set rows"
  shows "key x \<le> key y"
proof -
  obtain ys where ys: "sort_key key rows = x # ys"
    using assms(1) by (auto simp: first_by_def split: list.splits)
  have "y \<in> set (x # ys)" using assms(2) ys by (metis set_sort)
  moreover have "sorted (map key (x # ys))" using sorted_sort_key[of key rows] ys by simp
  ultimately show ?thesis by auto
qed

section \<open>Order-preserving removal of duplicates\<close>

text \<open>Both the loop of \<^verbatim>\<open>_deduplicate_reasons\<close> and
  \<^verbatim>\<open>dict.fromkeys\<close> keep the first occurrence of each value.\<close>

fun dedup_from :: "'a list \<Rightarrow> 'a list \<Rightarrow> 'a list" where
  "dedup_from seen [] = []"
| "dedup_from seen (x # xs) =
     (if x \<in> set seen then dedup_from seen xs else x # dedup_from (x # seen) xs)"

abbreviation dedup :: "'a list \<Rightarrow> 'a list" where
  "dedup xs \<equiv> dedup_from [] xs"

lemma set_dedup_from [simp]: "set (dedup_from seen xs) = set xs - set seen"
  by (induction seen xs rule: dedup_from.induct) auto

lemma distinct_dedup_from [simp]: "distinct (dedup_from seen xs)"
  by (induction seen xs rule: dedup_from.induct) auto

lemma dedup_from_id: "distinct xs \<Longrightarrow> set seen \<inter> set xs = {} \<Longrightarrow> dedup_from seen xs = xs"
  by (induction seen xs rule: dedup_from.induct) auto

lemma dedup_distinct [simp]: "distinct xs \<Longrightarrow> dedup xs = xs"
  by (simp add: dedup_from_id)

lemma dedup_from_cong: "set a = set b \<Longrightarrow> dedup_from a xs = dedup_from b xs"
proof (induction xs arbitrary: a b)
  case Nil
  then show ?case by simp
next
  case (Cons x xs)
  then have "dedup_from (x # a) xs = dedup_from (x # b) xs" by (intro Cons.IH) simp
  moreover have "dedup_from a xs = dedup_from b xs" by (rule Cons.IH[OF Cons.prems])
  ultimately show ?case by (simp only: dedup_from.simps Cons.prems)
qed

lemma dedup_from_append:
  "dedup_from seen (xs @ ys) = dedup_from seen xs @ dedup_from (xs @ seen) ys"
proof (induction seen xs rule: dedup_from.induct)
  case (1 seen)
  then show ?case by simp
next
  case (2 seen x xs)
  have "x \<in> set seen \<Longrightarrow> dedup_from (x # xs @ seen) ys = dedup_from (xs @ seen) ys"
    and "dedup_from (xs @ x # seen) ys = dedup_from (x # xs @ seen) ys"
    by (auto intro: dedup_from_cong)
  with 2 show ?case by auto
qed

lemma dedup_append: "dedup (xs @ ys) = dedup xs @ dedup_from xs ys"
  using dedup_from_append[of "[]" xs ys] by simp

end
