(* ===== verification/Operation_Models.thy ===== *)
theory Operation_Models
  imports Prelude
begin

text \<open>
  The typed contracts of order operations, \<^verbatim>\<open>src/agent/operations/models.py\<close>. A model class is
  a record; constructing it is a function \<open>mk_\<dots>\<close> that trims the string fields (where the class
  sets \<^verbatim>\<open>str_strip_whitespace\<close>), checks the declared field constraints and then runs the
  class's validator, whose \<^verbatim>\<open>raise\<close>s appear in source order. \<^verbatim>\<open>model_copy\<close> is a
  record update: it runs no validator.
\<close>

section \<open>Vocabularies\<close>

datatype order_status = Pending_payment | Confirmed | Cancelled | Order_completed

datatype payment_status = Unpaid | Paid | Refund_pending | Partially_refunded | Refunded

datatype fulfillment_status = Unfulfilled | Fulfilment_processing | Shipped | Delivered

datatype operation_type = Cancellation | Return | Exchange

text \<open>\<^verbatim>\<open>OperationStatus\<close>: the statuses an order system reports.\<close>

datatype operation_status = Ext_submitted | Ext_processing | Ext_manual_review | Ext_completed | Ext_rejected

text \<open>\<^verbatim>\<open>OperationRecordStatus\<close>: the statuses of a persisted operation.\<close>

datatype operation_record_status =
    Pending_confirmation
  | Queued
  | Submitted
  | Processing
  | Manual_review
  | Completed
  | Rejected
  | Cancelled_by_customer

datatype operation_event_type =
    Operation_created
  | Confirmation_recorded
  | Status_changed
  | Support_case_attached

datatype operation_service_action =
    Act_created
  | Act_duplicate_ignored
  | Act_confirmed
  | Act_queued
  | Act_submitted
  | Act_cancelled
  | Act_status_changed
  | Act_status_unchanged
  | Act_support_case_attached

datatype existing_operation_type = Ex_refund | Ex_cancellation | Ex_return | Ex_exchange

datatype delivery_issue_type =
    Delayed
  | Tracking_stalled
  | Delivery_failed
  | Marked_delivered_not_received
  | Package_damaged
  | Wrong_item_or_missing_parts
  | Other_delivery_issue

text \<open>The union of the cancellation and the return/exchange reasons; \<^verbatim>\<open>other\<close> is in both.\<close>

datatype operation_reason =
    Ordered_by_mistake
  | No_longer_needed
  | Incorrect_item_or_quantity
  | Delivery_too_slow
  | Payment_issue
  | Changed_mind
  | Wrong_item_received
  | Damaged_item
  | Defective_item
  | Missing_parts
  | Not_as_described
  | Size_or_variant_issue
  | Other_reason

datatype operation_outcome =
    Eligible
  | Outcome_manual_review
  | Outcome_rejected
  | Outcome_existing_operation
  | Already_completed

datatype delivery_outcome = Self_service | Delivery_manual_review | Offer_return_exchange

datatype recommended_case_type = Rec_order_operation_review | Rec_delivery_investigation

datatype case_priority = P0 | P1 | P2 | P3

definition cancellation_reasons :: "operation_reason list" where
  "cancellation_reasons =
     [Ordered_by_mistake, No_longer_needed, Incorrect_item_or_quantity, Delivery_too_slow,
      Payment_issue, Other_reason]"

fun operation_type_str :: "operation_type \<Rightarrow> string" where
  "operation_type_str Cancellation = ''cancellation''"
| "operation_type_str Return = ''return''"
| "operation_type_str Exchange = ''exchange''"

text \<open>\<^verbatim>\<open>str.title()\<close> of an operation type.\<close>

fun operation_type_title :: "operation_type \<Rightarrow> string" where
  "operation_type_title Cancellation = ''Cancellation''"
| "operation_type_title Return = ''Return''"
| "operation_type_title Exchange = ''Exchange''"

section \<open>Field constraints\<close>

definition is_digit :: "char \<Rightarrow> bool" where
  "is_digit c \<longleftrightarrow> (let n = (of_char c :: nat) in 48 \<le> n \<and> n \<le> 57)"

definition is_upper :: "char \<Rightarrow> bool" where
  "is_upper c \<longleftrightarrow> (let n = (of_char c :: nat) in 65 \<le> n \<and> n \<le> 90)"

text \<open>\<^verbatim>\<open>^ORD-\d{5}$\<close> and \<^verbatim>\<open>^[A-Z]{3}$\<close>.\<close>

definition is_order_id :: "string \<Rightarrow> bool" where
  "is_order_id s \<longleftrightarrow> length s = 9 \<and> take 4 s = ''ORD-'' \<and> list_all is_digit (drop 4 s)"

definition is_currency :: "string \<Rightarrow> bool" where
  "is_currency s \<longleftrightarrow> length s = 3 \<and> list_all is_upper s"

text \<open>\<^verbatim>\<open>Decimal\<close> with \<^verbatim>\<open>ge=0, max_digits=12, decimal_places=2\<close>: a non-negative
  number of hundredths with at most ten digits before the point.\<close>

definition is_amount :: "rat \<Rightarrow> bool" where
  "is_amount a \<longleftrightarrow> 0 \<le> a \<and> snd (quotient_of (100 * a)) = 1 \<and> a < 10 ^ 10"

abbreviation non_empty_option :: "string option \<Rightarrow> bool" where
  "non_empty_option x \<equiv> (case x of None \<Rightarrow> True | Some s \<Rightarrow> s \<noteq> [])"

section \<open>Orders and requests\<close>

record existing_operation =
  eo_operation_id :: string
  eo_operation_type :: existing_operation_type
  eo_status :: operation_status
  eo_provider_reference :: "string option"

record order_snapshot =
  os_order_id :: string
  os_version :: int
  os_amount :: rat
  os_currency :: string
  os_order_status :: order_status
  os_payment_status :: payment_status
  os_fulfillment_status :: fulfillment_status
  os_created_at :: instant
  os_shipped_at :: "instant option"
  os_delivered_at :: "instant option"
  os_promised_delivery_at :: "instant option"
  os_last_tracking_event_at :: "instant option"
  os_return_eligible :: "bool option"
  os_exchange_eligible :: "bool option"
  os_existing_operations :: "existing_operation list"
  os_customer_id :: "string option"
  os_tenant_id :: "string option"

definition valid_order_snapshot :: "order_snapshot \<Rightarrow> bool" where
  "valid_order_snapshot s \<longleftrightarrow>
     is_order_id (os_order_id s) \<and> 1 \<le> os_version s \<and> is_amount (os_amount s)
     \<and> is_currency (os_currency s)"

record order_operation_request =
  rq_thread_id :: string
  rq_source_message_id :: string
  rq_order_id :: string
  rq_operation_type :: operation_type
  rq_reason :: operation_reason
  rq_replacement_variant_id :: "string option"
  rq_customer_id :: string
  rq_tenant_id :: string

definition validate_operation_specific_fields :: "order_operation_request \<Rightarrow> exn + unit" where
  "validate_operation_specific_fields r =
     (if rq_operation_type r = Cancellation
      then (if rq_reason r \<notin> set cancellation_reasons
            then Inl (ValueError ''a cancellation must use a cancellation reason'')
            else if rq_replacement_variant_id r \<noteq> None
            then Inl (ValueError ''only an exchange may include replacement_variant_id'')
            else Inr ())
      else if rq_reason r \<in> set cancellation_reasons - {Other_reason}
      then Inl (ValueError ''a return or exchange must use a return/exchange reason'')
      else if rq_operation_type r = Exchange \<and> rq_replacement_variant_id r = None
      then Inl (ValueError ''an exchange requires replacement_variant_id'')
      else if rq_operation_type r = Return \<and> rq_replacement_variant_id r \<noteq> None
      then Inl (ValueError ''only an exchange may include replacement_variant_id'')
      else Inr ())"

definition valid_order_operation_request :: "order_operation_request \<Rightarrow> bool" where
  "valid_order_operation_request r \<longleftrightarrow>
     rq_thread_id r \<noteq> [] \<and> rq_source_message_id r \<noteq> [] \<and> is_order_id (rq_order_id r)
     \<and> non_empty_option (rq_replacement_variant_id r)
     \<and> rq_customer_id r \<noteq> [] \<and> rq_tenant_id r \<noteq> []
     \<and> validate_operation_specific_fields r = Inr ()"

definition mk_order_operation_request :: "order_operation_request \<Rightarrow> exn + order_operation_request" where
  "mk_order_operation_request r =
     (let r' = r\<lparr>rq_thread_id := trim (rq_thread_id r),
                 rq_source_message_id := trim (rq_source_message_id r),
                 rq_order_id := trim (rq_order_id r),
                 rq_replacement_variant_id := map_option trim (rq_replacement_variant_id r),
                 rq_customer_id := trim (rq_customer_id r),
                 rq_tenant_id := trim (rq_tenant_id r)\<rparr>
      in if valid_order_operation_request r' then Inr r'
         else Inl (ValidationError ''OrderOperationRequest''))"

record delivery_issue_request =
  dr_thread_id :: string
  dr_source_message_id :: string
  dr_order_id :: string
  dr_issue_type :: delivery_issue_type
  dr_investigation_requested :: bool

section \<open>Decisions\<close>

record case_recommendation =
  cr_case_type :: recommended_case_type
  cr_priority :: case_priority
  cr_reason_codes :: "string list"

record operation_decision =
  od_outcome :: operation_outcome
  od_operation_type :: operation_type
  od_requires_confirmation :: bool
  od_reason_codes :: "string list"
  od_display_reason :: string
  od_existing_operation :: "existing_operation option"
  od_case_recommendation :: "case_recommendation option"

definition validate_outcome_fields :: "operation_decision \<Rightarrow> exn + unit" where
  "validate_outcome_fields d =
     (if od_outcome d = Outcome_existing_operation
      then (if od_existing_operation d = None
            then Inl (ValueError ''existing_operation outcome requires an operation'')
            else if od_requires_confirmation d \<or> od_case_recommendation d \<noteq> None
            then Inl (ValueError ''an existing operation cannot request confirmation or a case'')
            else Inr ())
      else if od_existing_operation d \<noteq> None
      then Inl (ValueError ''only existing_operation may contain an existing operation'')
      else if od_outcome d \<in> {Eligible, Outcome_manual_review} \<and> \<not> od_requires_confirmation d
      then Inl (ValueError ''requires confirmation'')
      else if od_outcome d \<in> {Outcome_rejected, Already_completed} \<and> od_requires_confirmation d
      then Inl (ValueError ''cannot require confirmation'')
      else if od_outcome d = Outcome_manual_review \<and> od_case_recommendation d = None
      then Inl (ValueError ''manual_review requires a case recommendation'')
      else if od_outcome d \<noteq> Outcome_manual_review \<and> od_case_recommendation d \<noteq> None
      then Inl (ValueError ''only manual_review may contain a case recommendation'')
      else Inr ())"

definition valid_case_recommendation :: "case_recommendation \<Rightarrow> bool" where
  "valid_case_recommendation c \<longleftrightarrow> cr_reason_codes c \<noteq> []"

definition valid_operation_decision :: "operation_decision \<Rightarrow> bool" where
  "valid_operation_decision d \<longleftrightarrow>
     od_reason_codes d \<noteq> [] \<and> od_display_reason d \<noteq> []
     \<and> (case od_case_recommendation d of None \<Rightarrow> True | Some c \<Rightarrow> valid_case_recommendation c)
     \<and> validate_outcome_fields d = Inr ()"

definition mk_operation_decision :: "operation_decision \<Rightarrow> exn + operation_decision" where
  "mk_operation_decision d =
     (if valid_operation_decision d then Inr d else Inl (ValidationError ''OperationDecision''))"

record delivery_decision =
  dd_outcome :: delivery_outcome
  dd_issue_type :: delivery_issue_type
  dd_reason_codes :: "string list"
  dd_display_reason :: string
  dd_case_recommendation :: "case_recommendation option"

definition valid_delivery_decision :: "delivery_decision \<Rightarrow> bool" where
  "valid_delivery_decision d \<longleftrightarrow>
     dd_reason_codes d \<noteq> [] \<and> dd_display_reason d \<noteq> []
     \<and> (case dd_case_recommendation d of None \<Rightarrow> True | Some c \<Rightarrow> valid_case_recommendation c)
     \<and> (dd_outcome d = Delivery_manual_review \<longleftrightarrow> dd_case_recommendation d \<noteq> None)"

definition mk_delivery_decision :: "delivery_decision \<Rightarrow> exn + delivery_decision" where
  "mk_delivery_decision d =
     (if valid_delivery_decision d then Inr d else Inl (ValidationError ''DeliveryDecision''))"

section \<open>Persisted operations and their events\<close>

record order_operation =
  op_operation_id :: uuid
  op_idempotency_key :: string
  op_thread_id :: string
  op_source_message_id :: string
  op_order_id :: string
  op_operation_type :: operation_type
  op_request_reason_code :: operation_reason
  op_policy_reason_codes :: "string list"
  op_display_reason :: string
  op_replacement_variant_id :: "string option"
  op_request_excerpt :: string
  op_order_version :: int
  op_amount :: rat
  op_currency :: string
  op_requires_manual_review :: bool
  op_review_case_type :: "recommended_case_type option"
  op_review_priority :: "case_priority option"
  op_support_case_id :: "uuid option"
  op_provider_reference :: "string option"
  op_status :: operation_record_status
  op_created_at :: instant
  op_updated_at :: instant
  op_version :: int
  op_customer_id :: string
  op_tenant_id :: string
  op_created_by :: string

text \<open>The request an operation was created from, rebuilt by the validator and by submission.\<close>

definition request_of_operation :: "order_operation \<Rightarrow> order_operation_request" where
  "request_of_operation x =
     \<lparr>rq_thread_id = op_thread_id x, rq_source_message_id = op_source_message_id x,
      rq_order_id = op_order_id x, rq_operation_type = op_operation_type x,
      rq_reason = op_request_reason_code x,
      rq_replacement_variant_id = op_replacement_variant_id x,
      rq_customer_id = op_customer_id x, rq_tenant_id = op_tenant_id x\<rparr>"

definition validate_persisted_operation :: "order_operation \<Rightarrow> exn + unit" where
  "validate_persisted_operation x =
     (case mk_order_operation_request (request_of_operation x) of
        Inl e \<Rightarrow> Inl e
      | Inr _ \<Rightarrow>
         if op_requires_manual_review x
            \<and> (op_review_case_type x \<noteq> Some Rec_order_operation_review
               \<or> op_review_priority x \<notin> {Some P1, Some P2})
         then Inl (ValueError ''manual review requires its approved case metadata'')
         else if \<not> op_requires_manual_review x
                 \<and> (op_review_case_type x \<noteq> None \<or> op_review_priority x \<noteq> None)
         then Inl (ValueError ''only manual review may contain review case metadata'')
         else if op_support_case_id x \<noteq> None \<and> \<not> op_requires_manual_review x
         then Inl (ValueError ''only manual review may link a support case'')
         else if op_updated_at x < op_created_at x
         then Inl (ValueError ''updated_at must not be earlier than created_at'')
         else Inr ())"

definition trim_order_operation :: "order_operation \<Rightarrow> order_operation" where
  "trim_order_operation x =
     x\<lparr>op_idempotency_key := trim (op_idempotency_key x),
       op_thread_id := trim (op_thread_id x),
       op_source_message_id := trim (op_source_message_id x),
       op_order_id := trim (op_order_id x),
       op_policy_reason_codes := map trim (op_policy_reason_codes x),
       op_display_reason := trim (op_display_reason x),
       op_replacement_variant_id := map_option trim (op_replacement_variant_id x),
       op_request_excerpt := trim (op_request_excerpt x),
       op_currency := trim (op_currency x),
       op_provider_reference := map_option trim (op_provider_reference x),
       op_customer_id := trim (op_customer_id x),
       op_tenant_id := trim (op_tenant_id x),
       op_created_by := trim (op_created_by x)\<rparr>"

definition valid_order_operation :: "order_operation \<Rightarrow> bool" where
  "valid_order_operation x \<longleftrightarrow>
     op_idempotency_key x \<noteq> [] \<and> op_thread_id x \<noteq> [] \<and> op_source_message_id x \<noteq> []
     \<and> is_order_id (op_order_id x) \<and> op_policy_reason_codes x \<noteq> [] \<and> op_display_reason x \<noteq> []
     \<and> non_empty_option (op_replacement_variant_id x)
     \<and> op_request_excerpt x \<noteq> [] \<and> length (op_request_excerpt x) \<le> 500
     \<and> 1 \<le> op_order_version x \<and> is_amount (op_amount x) \<and> is_currency (op_currency x)
     \<and> non_empty_option (op_provider_reference x) \<and> 1 \<le> op_version x
     \<and> op_customer_id x \<noteq> [] \<and> op_tenant_id x \<noteq> [] \<and> op_created_by x \<noteq> []
     \<and> validate_persisted_operation x = Inr ()"

definition mk_order_operation :: "order_operation \<Rightarrow> exn + order_operation" where
  "mk_order_operation x =
     (let x' = trim_order_operation x in
      if valid_order_operation x' then Inr x' else Inl (ValidationError ''OrderOperation''))"

record order_operation_event =
  oe_event_id :: uuid
  oe_idempotency_key :: string
  oe_operation_id :: uuid
  oe_event_type :: operation_event_type
  oe_previous_status :: "operation_record_status option"
  oe_current_status :: "operation_record_status option"
  oe_provider_reference :: "string option"
  oe_support_case_id :: "uuid option"
  oe_actor :: string
  oe_customer_id :: string
  oe_tenant_id :: string
  oe_created_at :: instant

definition validate_event_shape :: "order_operation_event \<Rightarrow> exn + unit" where
  "validate_event_shape e =
     (let has_statuses = (oe_previous_status e \<noteq> None \<and> oe_current_status e \<noteq> None) in
      if oe_event_type e = Status_changed \<and> \<not> has_statuses
      then Inl (ValueError ''status_changed requires previous and current status'')
      else if oe_event_type e \<noteq> Status_changed
              \<and> (oe_previous_status e \<noteq> None \<or> oe_current_status e \<noteq> None)
      then Inl (ValueError ''only status_changed may contain status fields'')
      else if oe_event_type e = Support_case_attached \<and> oe_support_case_id e = None
      then Inl (ValueError ''support_case_attached requires support_case_id'')
      else Inr ())"

definition trim_order_operation_event :: "order_operation_event \<Rightarrow> order_operation_event" where
  "trim_order_operation_event e =
     e\<lparr>oe_idempotency_key := trim (oe_idempotency_key e),
       oe_provider_reference := map_option trim (oe_provider_reference e),
       oe_actor := trim (oe_actor e),
       oe_customer_id := trim (oe_customer_id e),
       oe_tenant_id := trim (oe_tenant_id e)\<rparr>"

definition valid_order_operation_event :: "order_operation_event \<Rightarrow> bool" where
  "valid_order_operation_event e \<longleftrightarrow>
     oe_idempotency_key e \<noteq> [] \<and> non_empty_option (oe_provider_reference e) \<and> oe_actor e \<noteq> []
     \<and> oe_customer_id e \<noteq> [] \<and> oe_tenant_id e \<noteq> [] \<and> validate_event_shape e = Inr ()"

definition mk_order_operation_event :: "order_operation_event \<Rightarrow> exn + order_operation_event" where
  "mk_order_operation_event e =
     (let e' = trim_order_operation_event e in
      if valid_order_operation_event e' then Inr e'
      else Inl (ValidationError ''OrderOperationEvent''))"

record operation_service_result =
  sr_action :: operation_service_action
  sr_operation :: order_operation
  sr_events :: "order_operation_event list"

fun is_aware :: "py_datetime \<Rightarrow> bool" where
  "is_aware (Aware _) = True"
| "is_aware (Naive _) = False"

section \<open>Lemmas\<close>

text \<open>Trimming twice is trimming once, so a constructed value is rebuilt unchanged.\<close>

lemma trim_order_operation_idem [simp]:
  "trim_order_operation (trim_order_operation x) = trim_order_operation x"
  by (simp add: trim_order_operation_def comp_def option.map_comp)

lemma mk_order_operation_Inr:
  "mk_order_operation x = Inr p \<longleftrightarrow> p = trim_order_operation x \<and> valid_order_operation p"
  by (auto simp: mk_order_operation_def Let_def)

lemma mk_order_operation_fixpoint:
  "mk_order_operation x = Inr p \<Longrightarrow> mk_order_operation p = Inr p"
  by (auto simp: mk_order_operation_Inr)

lemma trim_order_operation_event_idem [simp]:
  "trim_order_operation_event (trim_order_operation_event e) = trim_order_operation_event e"
  by (simp add: trim_order_operation_event_def comp_def option.map_comp)

lemma mk_order_operation_event_Inr:
  "mk_order_operation_event e = Inr f \<longleftrightarrow>
     f = trim_order_operation_event e \<and> valid_order_operation_event f"
  by (auto simp: mk_order_operation_event_def Let_def)

lemma trim_order_operation_sel [simp]:
  "op_operation_id (trim_order_operation x) = op_operation_id x"
  "op_status (trim_order_operation x) = op_status x"
  "op_version (trim_order_operation x) = op_version x"
  "op_operation_type (trim_order_operation x) = op_operation_type x"
  "op_requires_manual_review (trim_order_operation x) = op_requires_manual_review x"
  "op_created_at (trim_order_operation x) = op_created_at x"
  "op_updated_at (trim_order_operation x) = op_updated_at x"
  "op_order_version (trim_order_operation x) = op_order_version x"
  "op_tenant_id (trim_order_operation x) = trim (op_tenant_id x)"
  "op_customer_id (trim_order_operation x) = trim (op_customer_id x)"
  "op_order_id (trim_order_operation x) = trim (op_order_id x)"
  "op_thread_id (trim_order_operation x) = trim (op_thread_id x)"
  "op_source_message_id (trim_order_operation x) = trim (op_source_message_id x)"
  "op_idempotency_key (trim_order_operation x) = trim (op_idempotency_key x)"
  "op_support_case_id (trim_order_operation x) = op_support_case_id x"
  by (simp_all add: trim_order_operation_def)

lemma trim_order_operation_event_sel [simp]:
  "oe_event_id (trim_order_operation_event e) = oe_event_id e"
  "oe_operation_id (trim_order_operation_event e) = oe_operation_id e"
  "oe_event_type (trim_order_operation_event e) = oe_event_type e"
  "oe_previous_status (trim_order_operation_event e) = oe_previous_status e"
  "oe_current_status (trim_order_operation_event e) = oe_current_status e"
  "oe_support_case_id (trim_order_operation_event e) = oe_support_case_id e"
  "oe_created_at (trim_order_operation_event e) = oe_created_at e"
  "oe_tenant_id (trim_order_operation_event e) = trim (oe_tenant_id e)"
  "oe_customer_id (trim_order_operation_event e) = trim (oe_customer_id e)"
  "oe_idempotency_key (trim_order_operation_event e) = trim (oe_idempotency_key e)"
  by (simp_all add: trim_order_operation_event_def)

end
