(* ===== verification/Provider_Status.thy ===== *)
theory Provider_Status
  imports Operation_Models
begin

text \<open>
  The status vocabularies of provider messaging and their transition tables
  (\<^verbatim>\<open>src/agent/integrations/models.py\<close>, first part), and the mapping of a provider's command
  status to the status of the local operation.
\<close>

datatype provider_capability = Order_query | Inventory_query | Order_operation_capability

datatype provider_aggregate_type = Agg_order_operation | Agg_support_case

datatype provider_command_type = Cancel_order | Return_order | Exchange_order | Delivery_investigation_command

datatype provider_command_acceptance_status = Acc_accepted | Acc_rejected

datatype provider_command_execution_status =
    Exec_accepted
  | Exec_processing
  | Exec_completed
  | Exec_rejected

datatype outbox_delivery_status =
    Out_pending
  | Out_processing
  | Out_retry_scheduled
  | Out_published
  | Out_dead

datatype inbox_processing_status = In_received | In_processing | In_processed | In_failed

datatype provider_failure_kind =
    Network_error
  | Timeout
  | Http_retryable
  | Http_client_error
  | Provider_rejection
  | Validation_failure

definition retryable_failure_kinds :: "provider_failure_kind set" where
  "retryable_failure_kinds = {Network_error, Timeout, Http_retryable}"

fun outbox_delivery_transitions :: "outbox_delivery_status \<Rightarrow> outbox_delivery_status set" where
  "outbox_delivery_transitions Out_pending = {Out_processing, Out_dead}"
| "outbox_delivery_transitions Out_processing = {Out_published, Out_retry_scheduled, Out_dead}"
| "outbox_delivery_transitions Out_retry_scheduled = {Out_processing, Out_dead}"
| "outbox_delivery_transitions Out_published = {}"
| "outbox_delivery_transitions Out_dead = {}"

fun inbox_processing_transitions :: "inbox_processing_status \<Rightarrow> inbox_processing_status set" where
  "inbox_processing_transitions In_received = {In_processing, In_failed}"
| "inbox_processing_transitions In_processing = {In_received, In_processed, In_failed}"
| "inbox_processing_transitions In_processed = {}"
| "inbox_processing_transitions In_failed = {}"

fun map_provider_command_status :: "provider_command_execution_status \<Rightarrow> operation_record_status" where
  "map_provider_command_status Exec_accepted = Submitted"
| "map_provider_command_status Exec_processing = Processing"
| "map_provider_command_status Exec_completed = Completed"
| "map_provider_command_status Exec_rejected = Rejected"

end
