(* ===== verification/Case_Models.thy ===== *)
theory Case_Models
  imports Provider_Status
begin

text \<open>
  Support cases, their immutable events and the handoff decision
  (\<^verbatim>\<open>src/agent/cases/models.py\<close>, with the risk vocabulary of \<^verbatim>\<open>src/agent/schemas.py\<close>).
  A handoff reason whose text is composed of a source, a level and a category is a constructor
  with those parts as arguments; \<open>handoff_reason_str\<close> gives the literal of the source.
\<close>

section \<open>Vocabularies\<close>

datatype semantic_risk_level = Risk_none | Risk_low | Risk_medium | Risk_high | Risk_critical

datatype semantic_risk_category =
    Self_harm
  | Violence
  | Legal
  | Regulatory
  | Reputation
  | Other_risk

datatype staff_complaint_severity = Staff_critical | Staff_high | Staff_medium | Staff_low

datatype case_type =
    Safety_review
  | Business_escalation
  | Refund_review
  | General_support
  | Staff_conduct_complaint
  | Other_complaint
  | Order_operation_review
  | Delivery_investigation

datatype case_status = Open | In_progress | On_hold | Resolved

datatype case_event_type =
    Case_created
  | Trigger_appended
  | Case_status_changed
  | Case_assigned
  | Provider_update
  | Provider_redrive

datatype provider_redrive_reason_code =
    Dependency_or_configuration_restored
  | Transient_incident_resolved
  | Manual_retry_approved

datatype case_service_action =
    Case_not_created
  | Case_act_created
  | Case_event_appended
  | Case_duplicate_ignored
  | Case_act_status_changed
  | Case_status_unchanged
  | Case_act_assigned

datatype on_hold_reason =
    Waiting_customer
  | Waiting_external_system
  | Waiting_internal_team
  | System_unavailable
  | Force_majeure
  | Other_hold

text \<open>\<^verbatim>\<open>CaseCreatingRiskLevel\<close>.\<close>

datatype case_creating_risk_level = Lvl_medium | Lvl_high | Lvl_critical

datatype handoff_reason =
    Hard_critical semantic_risk_category
  | Semantic case_creating_risk_level semantic_risk_category
  | Refund_manual_review
  | Confirmed_human_request
  | Staff_conduct staff_complaint_severity
  | Explicit_other_complaint
  | Order_state_invalid
  | Cancellation_fulfillment_processing
  | Cancellation_state_invalid
  | Operation_delivery_date_invalid
  | Return_eligibility_unknown
  | Exchange_eligibility_unknown
  | Currency_threshold_unconfigured
  | Return_manual_amount_review
  | Exchange_inventory_unknown
  | Delivery_data_invalid
  | Delivery_tracking_stalled
  | Delivery_overdue_investigation
  | Delivery_failed_reason
  | Delivery_marked_received_dispute
  | Delivery_damage_claim
  | Delivery_other_issue
  | Provider_delivery_failed

definition RESERVED_AGENT_IDS :: "string list" where
  "RESERVED_AGENT_IDS = [''system'', ''legacy'']"

fun risk_category_str :: "semantic_risk_category \<Rightarrow> string" where
  "risk_category_str Self_harm = ''self_harm''"
| "risk_category_str Violence = ''violence''"
| "risk_category_str Legal = ''legal''"
| "risk_category_str Regulatory = ''regulatory''"
| "risk_category_str Reputation = ''reputation''"
| "risk_category_str Other_risk = ''other''"

fun staff_severity_str :: "staff_complaint_severity \<Rightarrow> string" where
  "staff_severity_str Staff_critical = ''critical''"
| "staff_severity_str Staff_high = ''high''"
| "staff_severity_str Staff_medium = ''medium''"
| "staff_severity_str Staff_low = ''low''"

fun creating_level_str :: "case_creating_risk_level \<Rightarrow> string" where
  "creating_level_str Lvl_medium = ''medium''"
| "creating_level_str Lvl_high = ''high''"
| "creating_level_str Lvl_critical = ''critical''"

fun handoff_reason_str :: "handoff_reason \<Rightarrow> string" where
  "handoff_reason_str (Hard_critical c) = ''hard_critical_'' @ risk_category_str c"
| "handoff_reason_str (Semantic l c) =
     ''semantic_'' @ creating_level_str l @ ''_'' @ risk_category_str c"
| "handoff_reason_str Refund_manual_review = ''refund_manual_review''"
| "handoff_reason_str Confirmed_human_request = ''confirmed_human_request''"
| "handoff_reason_str (Staff_conduct s) = ''staff_conduct_'' @ staff_severity_str s"
| "handoff_reason_str Explicit_other_complaint = ''explicit_other_complaint''"
| "handoff_reason_str Order_state_invalid = ''order_state_invalid''"
| "handoff_reason_str Cancellation_fulfillment_processing = ''cancellation_fulfillment_processing''"
| "handoff_reason_str Cancellation_state_invalid = ''cancellation_state_invalid''"
| "handoff_reason_str Operation_delivery_date_invalid = ''operation_delivery_date_invalid''"
| "handoff_reason_str Return_eligibility_unknown = ''return_eligibility_unknown''"
| "handoff_reason_str Exchange_eligibility_unknown = ''exchange_eligibility_unknown''"
| "handoff_reason_str Currency_threshold_unconfigured = ''currency_threshold_unconfigured''"
| "handoff_reason_str Return_manual_amount_review = ''return_manual_amount_review''"
| "handoff_reason_str Exchange_inventory_unknown = ''exchange_inventory_unknown''"
| "handoff_reason_str Delivery_data_invalid = ''delivery_data_invalid''"
| "handoff_reason_str Delivery_tracking_stalled = ''delivery_tracking_stalled''"
| "handoff_reason_str Delivery_overdue_investigation = ''delivery_overdue_investigation''"
| "handoff_reason_str Delivery_failed_reason = ''delivery_failed''"
| "handoff_reason_str Delivery_marked_received_dispute = ''delivery_marked_received_dispute''"
| "handoff_reason_str Delivery_damage_claim = ''delivery_damage_claim''"
| "handoff_reason_str Delivery_other_issue = ''delivery_other_issue''"
| "handoff_reason_str Provider_delivery_failed = ''provider_delivery_failed''"

section \<open>Policy input and decision\<close>

record handoff_policy_input =
  hi_hard_critical_categories :: "semantic_risk_category list"
  hi_semantic_risk_level :: "semantic_risk_level option"
  hi_semantic_risk_categories :: "semantic_risk_category list"
  hi_refund_requires_manual_review :: bool
  hi_human_handoff_confirmed :: bool
  hi_staff_complaint_severity :: "staff_complaint_severity option"
  hi_explicit_other_complaint :: bool
  hi_domain_case_reason_codes :: "handoff_reason list"

definition validate_semantic_risk :: "handoff_policy_input \<Rightarrow> exn + unit" where
  "validate_semantic_risk i =
     (let level = hi_semantic_risk_level i; categories = hi_semantic_risk_categories i in
      if level \<in> {None, Some Risk_none} \<and> categories \<noteq> []
      then Inl (ValueError ''semantic_risk_categories must be empty when semantic_risk_level is None or none'')
      else if level \<notin> {None, Some Risk_none} \<and> categories = []
      then Inl (ValueError ''semantic_risk_categories must not be empty for a non-none semantic_risk_level'')
      else Inr ())"

definition mk_handoff_policy_input :: "handoff_policy_input \<Rightarrow> exn + handoff_policy_input" where
  "mk_handoff_policy_input i =
     (case validate_semantic_risk i of
        Inl _ \<Rightarrow> Inl (ValidationError ''HandoffPolicyInput'') | Inr _ \<Rightarrow> Inr i)"

record handoff_decision =
  hd_should_create_case :: bool
  hd_case_type :: "case_type option"
  hd_priority :: "case_priority option"
  hd_reason_codes :: "handoff_reason list"
  hd_display_reason :: string

definition validate_decision :: "handoff_decision \<Rightarrow> exn + unit" where
  "validate_decision d =
     (if hd_should_create_case d
      then (if hd_case_type d = None \<or> hd_priority d = None
            then Inl (ValueError ''case_type and priority are required when creating a case'')
            else if hd_reason_codes d = [] \<or> hd_display_reason d = []
            then Inl (ValueError ''reason_codes and display_reason are required when creating a case'')
            else Inr ())
      else if hd_case_type d \<noteq> None \<or> hd_priority d \<noteq> None \<or> hd_reason_codes d \<noteq> []
              \<or> hd_display_reason d \<noteq> []
      then Inl (ValueError ''a no-case decision must not contain case details or reasons'')
      else Inr ())"

definition mk_handoff_decision :: "handoff_decision \<Rightarrow> exn + handoff_decision" where
  "mk_handoff_decision d =
     (case validate_decision d of
        Inl _ \<Rightarrow> Inl (ValidationError ''HandoffDecision'') | Inr _ \<Rightarrow> Inr d)"

record case_trigger =
  tr_thread_id :: string
  tr_source_message_id :: string
  tr_order_id :: "string option"
  tr_risk_level :: "semantic_risk_level option"
  tr_risk_categories :: "semantic_risk_category list"
  tr_triggering_message_excerpt :: string

definition mk_case_trigger :: "case_trigger \<Rightarrow> exn + case_trigger" where
  "mk_case_trigger t =
     (let t' = t\<lparr>tr_thread_id := trim (tr_thread_id t),
                 tr_source_message_id := trim (tr_source_message_id t),
                 tr_order_id := map_option trim (tr_order_id t),
                 tr_triggering_message_excerpt := trim (tr_triggering_message_excerpt t)\<rparr>
      in if tr_thread_id t' \<noteq> [] \<and> tr_source_message_id t' \<noteq> []
            \<and> tr_triggering_message_excerpt t' \<noteq> [] \<and> length (tr_triggering_message_excerpt t') \<le> 500
         then Inr t' else Inl (ValidationError ''CaseTrigger''))"

section \<open>Cases and events\<close>

record support_case =
  cs_case_id :: uuid
  cs_thread_id :: string
  cs_source_message_id :: string
  cs_order_id :: "string option"
  cs_case_type :: case_type
  cs_priority :: case_priority
  cs_status :: case_status
  cs_risk_level :: "semantic_risk_level option"
  cs_risk_categories :: "semantic_risk_category list"
  cs_reason_codes :: "handoff_reason list"
  cs_display_reason :: string
  cs_triggering_message_excerpt :: string
  cs_on_hold_reason :: "on_hold_reason option"
  cs_created_at :: instant
  cs_updated_at :: instant
  cs_version :: int
  cs_customer_id :: string
  cs_tenant_id :: string
  cs_created_by :: string
  cs_assigned_agent_id :: "string option"

definition validate_lifecycle_fields :: "support_case \<Rightarrow> exn + unit" where
  "validate_lifecycle_fields c =
     (if cs_updated_at c < cs_created_at c
      then Inl (ValueError ''updated_at must not be earlier than created_at'')
      else if cs_status c = On_hold \<and> cs_on_hold_reason c = None
      then Inl (ValueError ''on_hold_reason is required when status is on_hold'')
      else if cs_status c \<noteq> On_hold \<and> cs_on_hold_reason c \<noteq> None
      then Inl (ValueError ''on_hold_reason is only allowed when status is on_hold'')
      else if cs_case_type c = Delivery_investigation \<and> cs_order_id c = None
      then Inl (ValueError ''delivery_investigation cases require an order_id'')
      else Inr ())"

definition trim_support_case :: "support_case \<Rightarrow> support_case" where
  "trim_support_case c =
     c\<lparr>cs_thread_id := trim (cs_thread_id c),
       cs_source_message_id := trim (cs_source_message_id c),
       cs_order_id := map_option trim (cs_order_id c),
       cs_display_reason := trim (cs_display_reason c),
       cs_triggering_message_excerpt := trim (cs_triggering_message_excerpt c),
       cs_customer_id := trim (cs_customer_id c),
       cs_tenant_id := trim (cs_tenant_id c),
       cs_created_by := trim (cs_created_by c),
       cs_assigned_agent_id := map_option trim (cs_assigned_agent_id c)\<rparr>"

definition valid_support_case :: "support_case \<Rightarrow> bool" where
  "valid_support_case c \<longleftrightarrow>
     cs_thread_id c \<noteq> [] \<and> cs_source_message_id c \<noteq> [] \<and> cs_reason_codes c \<noteq> []
     \<and> cs_display_reason c \<noteq> [] \<and> cs_triggering_message_excerpt c \<noteq> []
     \<and> length (cs_triggering_message_excerpt c) \<le> 500 \<and> 1 \<le> cs_version c
     \<and> cs_customer_id c \<noteq> [] \<and> cs_tenant_id c \<noteq> [] \<and> cs_created_by c \<noteq> []
     \<and> non_empty_option (cs_assigned_agent_id c) \<and> validate_lifecycle_fields c = Inr ()"

definition mk_support_case :: "support_case \<Rightarrow> exn + support_case" where
  "mk_support_case c =
     (let c' = trim_support_case c in
      if valid_support_case c' then Inr c' else Inl (ValidationError ''SupportCase''))"

record support_case_event =
  ce_event_id :: uuid
  ce_idempotency_key :: string
  ce_case_id :: uuid
  ce_event_type :: case_event_type
  ce_source_message_id :: "string option"
  ce_order_id :: "string option"
  ce_risk_level :: "semantic_risk_level option"
  ce_risk_categories :: "semantic_risk_category list"
  ce_reason_codes :: "handoff_reason list"
  ce_triggering_message_excerpt :: string
  ce_previous_priority :: "case_priority option"
  ce_current_priority :: "case_priority option"
  ce_previous_status :: "case_status option"
  ce_current_status :: "case_status option"
  ce_on_hold_reason :: "on_hold_reason option"
  ce_previous_assigned_agent_id :: "string option"
  ce_current_assigned_agent_id :: "string option"
  ce_provider_command_id :: "uuid option"
  ce_provider_command_status :: "provider_command_execution_status option"
  ce_provider_reference :: "string option"
  ce_provider_redrive_reason_code :: "provider_redrive_reason_code option"
  ce_actor :: "string option"
  ce_customer_id :: string
  ce_tenant_id :: string
  ce_created_at :: instant

abbreviation no_actor :: "support_case_event \<Rightarrow> bool" where
  "no_actor e \<equiv> ce_actor e = None \<or> ce_actor e = Some []"

definition validate_case_event_fields :: "support_case_event \<Rightarrow> exn + unit" where
  "validate_case_event_fields e =
     (if ce_event_type e \<noteq> Provider_redrive \<and> ce_provider_redrive_reason_code e \<noteq> None
      then Inl (ValueError ''only provider_redrive events may carry a redrive reason'')
      else case ce_event_type e of
        Case_assigned \<Rightarrow>
          (if ce_current_assigned_agent_id e = None
           then Inl (ValueError ''current_assigned_agent_id is required for assigned events'')
           else if no_actor e then Inl (ValueError ''actor is required for assigned events'')
           else Inr ())
      | Provider_update \<Rightarrow>
          (if ce_provider_command_id e = None
           then Inl (ValueError ''provider_command_id is required for provider_update events'')
           else if ce_provider_command_status e = None
           then Inl (ValueError ''provider_command_status is required for provider_update events'')
           else if no_actor e then Inl (ValueError ''actor is required for provider_update events'')
           else if ce_previous_status e \<noteq> None \<or> ce_current_status e \<noteq> None
           then Inl (ValueError ''provider_update events must not carry case status fields'')
           else Inr ())
      | Provider_redrive \<Rightarrow>
          (if ce_provider_command_id e = None
           then Inl (ValueError ''provider_command_id is required for provider_redrive events'')
           else if ce_provider_redrive_reason_code e = None
           then Inl (ValueError ''provider_redrive_reason_code is required for provider_redrive events'')
           else if ce_provider_command_status e \<noteq> None \<or> ce_provider_reference e \<noteq> None
           then Inl (ValueError ''provider_redrive events must not carry provider result fields'')
           else if ce_previous_status e \<noteq> None \<or> ce_current_status e \<noteq> None
           then Inl (ValueError ''provider_redrive events must not carry case status fields'')
           else if no_actor e then Inl (ValueError ''actor is required for provider_redrive events'')
           else Inr ())
      | Case_status_changed \<Rightarrow>
          (if ce_previous_status e = None \<or> ce_current_status e = None
           then Inl (ValueError ''previous_status and current_status are required for status events'')
           else if no_actor e then Inl (ValueError ''actor is required for status events'')
           else if ce_current_status e = Some On_hold \<and> ce_on_hold_reason e = None
           then Inl (ValueError ''on_hold_reason is required for an on-hold status event'')
           else if ce_current_status e \<noteq> Some On_hold \<and> ce_on_hold_reason e \<noteq> None
           then Inl (ValueError ''on_hold_reason is only allowed for an on-hold status event'')
           else Inr ())
      | _ \<Rightarrow>
          (if ce_source_message_id e = None
           then Inl (ValueError ''source_message_id is required for trigger events'')
           else if ce_reason_codes e = [] \<or> ce_triggering_message_excerpt e = []
           then Inl (ValueError ''reason_codes and triggering_message_excerpt are required for trigger events'')
           else if ce_current_priority e = None \<or> ce_current_status e = None
           then Inl (ValueError ''current_priority and current_status are required for trigger events'')
           else Inr ()))"

definition trim_support_case_event :: "support_case_event \<Rightarrow> support_case_event" where
  "trim_support_case_event e =
     e\<lparr>ce_idempotency_key := trim (ce_idempotency_key e),
       ce_source_message_id := map_option trim (ce_source_message_id e),
       ce_order_id := map_option trim (ce_order_id e),
       ce_triggering_message_excerpt := trim (ce_triggering_message_excerpt e),
       ce_previous_assigned_agent_id := map_option trim (ce_previous_assigned_agent_id e),
       ce_current_assigned_agent_id := map_option trim (ce_current_assigned_agent_id e),
       ce_provider_reference := map_option trim (ce_provider_reference e),
       ce_actor := map_option trim (ce_actor e),
       ce_customer_id := trim (ce_customer_id e),
       ce_tenant_id := trim (ce_tenant_id e)\<rparr>"

definition valid_support_case_event :: "support_case_event \<Rightarrow> bool" where
  "valid_support_case_event e \<longleftrightarrow>
     ce_idempotency_key e \<noteq> [] \<and> length (ce_triggering_message_excerpt e) \<le> 500
     \<and> non_empty_option (ce_previous_assigned_agent_id e)
     \<and> non_empty_option (ce_current_assigned_agent_id e)
     \<and> non_empty_option (ce_provider_reference e)
     \<and> ce_customer_id e \<noteq> [] \<and> ce_tenant_id e \<noteq> [] \<and> validate_case_event_fields e = Inr ()"

definition mk_support_case_event :: "support_case_event \<Rightarrow> exn + support_case_event" where
  "mk_support_case_event e =
     (let e' = trim_support_case_event e in
      if valid_support_case_event e' then Inr e' else Inl (ValidationError ''SupportCaseEvent''))"

record case_service_result =
  cv_action :: case_service_action
  cv_case :: "support_case option"
  cv_event :: "support_case_event option"

definition validate_result :: "case_service_result \<Rightarrow> exn + unit" where
  "validate_result r =
     (if cv_action r = Case_not_created
      then (if cv_case r \<noteq> None \<or> cv_event r \<noteq> None
            then Inl (ValueError ''not_created must not contain a case or event'') else Inr ())
      else if cv_case r = None then Inl (ValueError ''must contain a case'')
      else
        (let writes_event = cv_action r \<in>
           {Case_act_created, Case_event_appended, Case_act_status_changed, Case_act_assigned} in
         if writes_event \<and> cv_event r = None then Inl (ValueError ''must contain an event'')
         else if \<not> writes_event \<and> cv_event r \<noteq> None then Inl (ValueError ''must not contain an event'')
         else Inr ()))"

definition mk_case_service_result :: "case_service_result \<Rightarrow> exn + case_service_result" where
  "mk_case_service_result r =
     (case validate_result r of
        Inl _ \<Rightarrow> Inl (ValidationError ''CaseServiceResult'') | Inr _ \<Rightarrow> Inr r)"

section \<open>Lemmas\<close>

lemma trim_support_case_idem [simp]: "trim_support_case (trim_support_case c) = trim_support_case c"
  by (simp add: trim_support_case_def comp_def option.map_comp)

lemma mk_support_case_Inr:
  "mk_support_case c = Inr d \<longleftrightarrow> d = trim_support_case c \<and> valid_support_case d"
  by (auto simp: mk_support_case_def Let_def)

lemma trim_support_case_event_idem [simp]:
  "trim_support_case_event (trim_support_case_event e) = trim_support_case_event e"
  by (simp add: trim_support_case_event_def comp_def option.map_comp)

lemma mk_support_case_event_Inr:
  "mk_support_case_event e = Inr f \<longleftrightarrow> f = trim_support_case_event e \<and> valid_support_case_event f"
  by (auto simp: mk_support_case_event_def Let_def)

end
