(* ===== verification/Provider_Command.thy ===== *)
theory Provider_Command
  imports Case_Models
begin

text \<open>
  The canonical provider command envelope (\<^verbatim>\<open>src/agent/integrations/models.py\<close>, second part):
  its payloads, the two builders that derive it from a persisted operation or a delivery
  investigation, and the validator that ties command type, aggregate, payload and idempotency key
  together.
\<close>

section \<open>Definitions\<close>

datatype provider_command_payload =
    Order_operation_payload (pl_order_id: string) (pl_operation_type: operation_type)
      (pl_reason: operation_reason) (pl_replacement_variant_id: "string option")
  | Delivery_payload (pl_order_id: string) (pl_issue_type: delivery_issue_type)

record provider_command_envelope =
  pc_command_id :: uuid
  pc_idempotency_key :: string
  pc_source_message_id :: string
  pc_aggregate_type :: provider_aggregate_type
  pc_aggregate_id :: uuid
  pc_expected_order_version :: "int option"
  pc_tenant_id :: string
  pc_customer_id :: string
  pc_connection_id :: string
  pc_command_type :: provider_command_type
  pc_payload :: provider_command_payload
  pc_created_at :: instant

fun command_type_by_operation :: "operation_type \<Rightarrow> provider_command_type" where
  "command_type_by_operation Cancellation = Cancel_order"
| "command_type_by_operation Return = Return_order"
| "command_type_by_operation Exchange = Exchange_order"

fun operation_type_by_command :: "provider_command_type \<Rightarrow> operation_type option" where
  "operation_type_by_command Cancel_order = Some Cancellation"
| "operation_type_by_command Return_order = Some Return"
| "operation_type_by_command Exchange_order = Some Exchange"
| "operation_type_by_command Delivery_investigation_command = None"

fun is_delivery_payload :: "provider_command_payload \<Rightarrow> bool" where
  "is_delivery_payload (Delivery_payload _ _) = True"
| "is_delivery_payload _ = False"

definition operation_command_key :: "uuid \<Rightarrow> string" where
  "operation_command_key u = ''order-operation:'' @ uuid_str u"

definition delivery_command_key :: "uuid \<Rightarrow> string" where
  "delivery_command_key u = ''delivery-investigation:'' @ uuid_str u"

definition validate_payload_type :: "provider_command_envelope \<Rightarrow> exn + unit" where
  "validate_payload_type c =
     (case operation_type_by_command (pc_command_type c) of
        None \<Rightarrow>
          if pc_aggregate_type c \<noteq> Agg_support_case
          then Inl (ValueError ''delivery_investigation requires aggregate_type support_case'')
          else if pc_expected_order_version c \<noteq> None
          then Inl (ValueError ''delivery_investigation must not carry expected_order_version'')
          else if \<not> is_delivery_payload (pc_payload c)
          then Inl (ValueError ''delivery_investigation requires a delivery payload'')
          else if pc_idempotency_key c \<noteq> delivery_command_key (pc_aggregate_id c)
          then Inl (ValueError ''delivery_investigation idempotency_key mismatch'')
          else Inr ()
      | Some expected_type \<Rightarrow>
          if pc_aggregate_type c \<noteq> Agg_order_operation
          then Inl (ValueError ''requires aggregate_type order_operation'')
          else if pc_expected_order_version c = None
          then Inl (ValueError ''requires expected_order_version'')
          else if is_delivery_payload (pc_payload c)
          then Inl (ValueError ''requires an order-operation payload'')
          else if pl_operation_type (pc_payload c) \<noteq> expected_type
          then Inl (ValueError ''command_type requires another operation_type'')
          else if pc_idempotency_key c \<noteq> operation_command_key (pc_aggregate_id c)
          then Inl (ValueError ''idempotency_key mismatch'')
          else Inr ())"

fun trim_payload :: "provider_command_payload \<Rightarrow> provider_command_payload" where
  "trim_payload (Order_operation_payload ord ty rs v) =
     Order_operation_payload (trim ord) ty rs (map_option trim v)"
| "trim_payload (Delivery_payload ord ty) = Delivery_payload (trim ord) ty"

fun valid_payload :: "provider_command_payload \<Rightarrow> bool" where
  "valid_payload (Order_operation_payload ord ty rs v) \<longleftrightarrow> is_order_id ord \<and> non_empty_option v"
| "valid_payload (Delivery_payload ord ty) \<longleftrightarrow> is_order_id ord"

definition mk_payload :: "provider_command_payload \<Rightarrow> exn + provider_command_payload" where
  "mk_payload p =
     (if valid_payload (trim_payload p) then Inr (trim_payload p)
      else Inl (ValidationError ''ProviderCommandPayload''))"

definition trim_command :: "provider_command_envelope \<Rightarrow> provider_command_envelope" where
  "trim_command c =
     c\<lparr>pc_idempotency_key := trim (pc_idempotency_key c),
       pc_source_message_id := trim (pc_source_message_id c),
       pc_tenant_id := trim (pc_tenant_id c),
       pc_customer_id := trim (pc_customer_id c),
       pc_connection_id := trim (pc_connection_id c),
       pc_payload := trim_payload (pc_payload c)\<rparr>"

definition valid_command :: "provider_command_envelope \<Rightarrow> bool" where
  "valid_command c \<longleftrightarrow>
     pc_idempotency_key c \<noteq> [] \<and> pc_source_message_id c \<noteq> []
     \<and> (case pc_expected_order_version c of None \<Rightarrow> True | Some v \<Rightarrow> 1 \<le> v)
     \<and> pc_tenant_id c \<noteq> [] \<and> pc_customer_id c \<noteq> [] \<and> pc_connection_id c \<noteq> []
     \<and> valid_payload (pc_payload c) \<and> validate_payload_type c = Inr ()"

text \<open>The constructor. Re-validating the serialized form of an envelope is the same function.\<close>

definition mk_command :: "provider_command_envelope \<Rightarrow> exn + provider_command_envelope" where
  "mk_command c =
     (if valid_command (trim_command c) then Inr (trim_command c)
      else Inl (ValidationError ''ProviderCommandEnvelope''))"

definition for_order_operation ::
  "order_operation \<Rightarrow> string \<Rightarrow> uuid \<Rightarrow> instant \<Rightarrow> exn + provider_command_envelope" where
  "for_order_operation x connection_id command_id created_at =
     (case mk_payload (Order_operation_payload (op_order_id x) (op_operation_type x)
             (op_request_reason_code x) (op_replacement_variant_id x)) of
        Inl e \<Rightarrow> Inl e
      | Inr payload \<Rightarrow> mk_command
          \<lparr>pc_command_id = command_id,
           pc_idempotency_key = operation_command_key (op_operation_id x),
           pc_source_message_id = op_source_message_id x,
           pc_aggregate_type = Agg_order_operation,
           pc_aggregate_id = op_operation_id x,
           pc_expected_order_version = Some (op_order_version x),
           pc_tenant_id = op_tenant_id x,
           pc_customer_id = op_customer_id x,
           pc_connection_id = connection_id,
           pc_command_type = command_type_by_operation (op_operation_type x),
           pc_payload = payload,
           pc_created_at = created_at\<rparr>)"

definition for_delivery_investigation ::
  "support_case \<Rightarrow> delivery_issue_type \<Rightarrow> string \<Rightarrow> uuid \<Rightarrow> instant \<Rightarrow> exn + provider_command_envelope" where
  "for_delivery_investigation c issue_type connection_id command_id created_at =
     (if cs_case_type c \<noteq> Delivery_investigation
      then Inl (ValueError ''for_delivery_investigation requires a delivery_investigation case'')
      else case cs_order_id c of
        None \<Rightarrow> Inl (ValueError ''a delivery_investigation case must carry an order_id'')
      | Some order_id \<Rightarrow>
         (case mk_payload (Delivery_payload order_id issue_type) of
            Inl e \<Rightarrow> Inl e
          | Inr payload \<Rightarrow> mk_command
              \<lparr>pc_command_id = command_id,
               pc_idempotency_key = delivery_command_key (cs_case_id c),
               pc_source_message_id = cs_source_message_id c,
               pc_aggregate_type = Agg_support_case,
               pc_aggregate_id = cs_case_id c,
               pc_expected_order_version = None,
               pc_tenant_id = cs_tenant_id c,
               pc_customer_id = cs_customer_id c,
               pc_connection_id = connection_id,
               pc_command_type = Delivery_investigation_command,
               pc_payload = payload,
               pc_created_at = created_at\<rparr>))"

section \<open>Lemmas\<close>

lemma trim_payload_idem [simp]: "trim_payload (trim_payload p) = trim_payload p"
  by (cases p) (simp_all add: option.map_comp comp_def)

lemma trim_command_idem [simp]: "trim_command (trim_command c) = trim_command c"
  by (simp add: trim_command_def)

lemma mk_command_Inr: "mk_command c = Inr d \<longleftrightarrow> d = trim_command c \<and> valid_command d"
  by (auto simp: mk_command_def)

lemma mk_payload_Inr: "mk_payload p = Inr q \<longleftrightarrow> q = trim_payload p \<and> valid_payload q"
  by (auto simp: mk_payload_def)

lemma mk_command_fixpoint: "mk_command c = Inr d \<Longrightarrow> mk_command d = Inr d"
  by (auto simp: mk_command_Inr)

lemma operation_type_by_command_inverse:
  "operation_type_by_command (command_type_by_operation ty) = Some ty"
  by (cases ty) simp_all

text \<open>A valid envelope names its aggregate in its idempotency key, so within the unique index on
  (tenant, key) there is at most one command per aggregate.\<close>

lemma valid_command_key:
  "valid_command c \<Longrightarrow> pc_idempotency_key c =
     (case pc_aggregate_type c of
        Agg_order_operation \<Rightarrow> operation_command_key (pc_aggregate_id c)
      | Agg_support_case \<Rightarrow> delivery_command_key (pc_aggregate_id c))"
  by (auto simp: valid_command_def validate_payload_type_def
      split: option.splits if_splits provider_aggregate_type.splits)

lemma for_order_operation_valid: "for_order_operation x conn u t = Inr c \<Longrightarrow> valid_command c"
  by (auto simp: for_order_operation_def mk_command_Inr split: sum.splits)

lemma for_delivery_investigation_valid:
  "for_delivery_investigation x ty conn u t = Inr c \<Longrightarrow> valid_command c"
  by (auto simp: for_delivery_investigation_def mk_command_Inr split: sum.splits if_splits option.splits)

lemma command_key_inj:
  "operation_command_key a = operation_command_key b \<longleftrightarrow> a = b"
  "delivery_command_key a = delivery_command_key b \<longleftrightarrow> a = b"
  "operation_command_key a \<noteq> delivery_command_key b"
  by (auto simp: operation_command_key_def delivery_command_key_def dest: uuid_str_inj)

end
