(* ===== verification/Database.thy ===== *)
theory Database
  imports Provider_Command
begin

text \<open>
  The PostgreSQL tables the services write (\<^verbatim>\<open>src/agent/sql/migrations\<close>, state after migration
  0008), as lists of rows, and the effect of the statements the repositories execute: the check
  constraints, the unique indexes in the order PostgreSQL tests them, the foreign keys. A statement
  that fails leaves the tables alone, and so does a transaction one of whose statements fails,
  because the error value carries no tables.
\<close>

section \<open>Tables\<close>

record outbox_message =
  ob_command_id :: uuid
  ob_idempotency_key :: string
  ob_tenant_id :: string
  ob_customer_id :: string
  ob_source_message_id :: string
  ob_provider_connection_id :: string
  ob_provider_capability :: provider_capability
  ob_command_type :: provider_command_type
  ob_aggregate_type :: provider_aggregate_type
  ob_aggregate_id :: uuid
  ob_expected_order_version :: "int option"
  ob_payload :: provider_command_payload
  ob_status :: outbox_delivery_status
  ob_delivery_cycle :: int
  ob_attempts_in_cycle :: int
  ob_available_at :: instant
  ob_lease_id :: "uuid option"
  ob_lease_owner :: "string option"
  ob_lease_expires_at :: "instant option"
  ob_last_failure_kind :: "provider_failure_kind option"
  ob_last_error_code :: "string option"
  ob_last_error_message :: "string option"
  ob_created_at :: instant
  ob_updated_at :: instant
  ob_published_at :: "instant option"
  ob_dead_at :: "instant option"

record db =
  order_operations :: "order_operation list"
  order_operation_events :: "order_operation_event list"
  support_cases :: "support_case list"
  support_case_events :: "support_case_event list"
  outbox_messages :: "outbox_message list"

definition empty_db :: db where
  "empty_db = \<lparr>order_operations = [], order_operation_events = [], support_cases = [],
     support_case_events = [], outbox_messages = []\<rparr>"

datatype sql_error = Unique_violation string | Check_violation | Foreign_key_violation

section \<open>Column constraints\<close>

definition not_blank :: "string \<Rightarrow> bool" where
  "not_blank s \<longleftrightarrow> btrim s \<noteq> []"

definition int4 :: "int \<Rightarrow> bool" where
  "int4 v \<longleftrightarrow> - (2 ^ 31) \<le> v \<and> v < 2 ^ 31"

definition active_statuses :: "operation_record_status list" where
  "active_statuses = [Pending_confirmation, Queued, Submitted, Processing, Manual_review]"

definition operation_active :: "order_operation \<Rightarrow> bool" where
  "operation_active x \<longleftrightarrow> op_status x \<in> set active_statuses"

definition operation_row_ok :: "order_operation \<Rightarrow> bool" where
  "operation_row_ok x \<longleftrightarrow>
     not_blank (op_idempotency_key x) \<and> not_blank (op_thread_id x)
     \<and> not_blank (op_source_message_id x) \<and> not_blank (op_order_id x) \<and> length (op_order_id x) \<le> 50
     \<and> op_policy_reason_codes x \<noteq> [] \<and> not_blank (op_display_reason x)
     \<and> not_blank (op_request_excerpt x) \<and> length (op_request_excerpt x) \<le> 500
     \<and> 1 \<le> op_order_version x \<and> int4 (op_order_version x)
     \<and> 0 \<le> op_amount x \<and> is_currency (op_currency x)
     \<and> 1 \<le> op_version x \<and> int4 (op_version x)
     \<and> (op_operation_type x = Exchange \<longleftrightarrow> op_replacement_variant_id x \<noteq> None)
     \<and> (if op_requires_manual_review x
        then op_review_case_type x = Some Rec_order_operation_review
             \<and> op_review_priority x \<in> {Some P1, Some P2}
        else op_review_case_type x = None \<and> op_review_priority x = None)
     \<and> (op_support_case_id x = None \<or> op_requires_manual_review x)
     \<and> op_created_at x \<le> op_updated_at x
     \<and> not_blank (op_customer_id x) \<and> not_blank (op_tenant_id x) \<and> not_blank (op_created_by x)"

definition operation_event_row_ok :: "order_operation_event \<Rightarrow> bool" where
  "operation_event_row_ok e \<longleftrightarrow>
     not_blank (oe_idempotency_key e) \<and> not_blank (oe_actor e)
     \<and> (if oe_event_type e = Status_changed
        then oe_previous_status e \<noteq> None \<and> oe_current_status e \<noteq> None
        else oe_previous_status e = None \<and> oe_current_status e = None)
     \<and> not_blank (oe_customer_id e) \<and> not_blank (oe_tenant_id e)"

definition not_blank_option :: "string option \<Rightarrow> bool" where
  "not_blank_option x \<longleftrightarrow> (case x of None \<Rightarrow> True | Some s \<Rightarrow> not_blank s)"

definition varchar500 :: "string option \<Rightarrow> bool" where
  "varchar500 x \<longleftrightarrow> (case x of None \<Rightarrow> True | Some s \<Rightarrow> length s \<le> 500)"

definition outbox_row_ok :: "outbox_message \<Rightarrow> bool" where
  "outbox_row_ok m \<longleftrightarrow>
     not_blank (ob_idempotency_key m) \<and> not_blank (ob_tenant_id m) \<and> not_blank (ob_customer_id m)
     \<and> not_blank (ob_source_message_id m) \<and> not_blank (ob_provider_connection_id m)
     \<and> (case ob_expected_order_version m of None \<Rightarrow> True | Some v \<Rightarrow> 1 \<le> v \<and> int4 v)
     \<and> 1 \<le> ob_delivery_cycle m \<and> int4 (ob_delivery_cycle m)
     \<and> 0 \<le> ob_attempts_in_cycle m \<and> ob_attempts_in_cycle m \<le> 8
     \<and> not_blank_option (ob_lease_owner m) \<and> not_blank_option (ob_last_error_code m)
     \<and> not_blank_option (ob_last_error_message m)
     \<and> varchar500 (ob_last_error_code m) \<and> varchar500 (ob_last_error_message m)
     \<and> ob_created_at m \<le> ob_updated_at m
     \<and> (if ob_status m = Out_processing
        then ob_lease_id m \<noteq> None \<and> ob_lease_owner m \<noteq> None \<and> ob_lease_expires_at m \<noteq> None
        else ob_lease_id m = None \<and> ob_lease_owner m = None \<and> ob_lease_expires_at m = None)
     \<and> (ob_status m = Out_published \<longleftrightarrow> ob_published_at m \<noteq> None)
     \<and> (ob_status m = Out_dead \<longleftrightarrow> ob_dead_at m \<noteq> None)
     \<and> (ob_aggregate_type m = Agg_order_operation \<longleftrightarrow> ob_expected_order_version m \<noteq> None)
     \<and> (ob_command_type m = Delivery_investigation_command \<longleftrightarrow> ob_aggregate_type m = Agg_support_case)"

definition case_active :: "support_case \<Rightarrow> bool" where
  "case_active c \<longleftrightarrow> cs_status c \<in> {Open, In_progress, On_hold}"

definition case_row_ok :: "support_case \<Rightarrow> bool" where
  "case_row_ok c \<longleftrightarrow>
     not_blank (cs_thread_id c) \<and> not_blank (cs_source_message_id c)
     \<and> (case cs_order_id c of None \<Rightarrow> True | Some ord \<Rightarrow> length ord \<le> 50)
     \<and> cs_reason_codes c \<noteq> [] \<and> not_blank (cs_display_reason c)
     \<and> not_blank (cs_triggering_message_excerpt c) \<and> length (cs_triggering_message_excerpt c) \<le> 500
     \<and> 1 \<le> cs_version c \<and> int4 (cs_version c)
     \<and> (cs_status c = On_hold \<longleftrightarrow> cs_on_hold_reason c \<noteq> None)
     \<and> cs_created_at c \<le> cs_updated_at c
     \<and> (cs_case_type c = Delivery_investigation \<longrightarrow>
          (case cs_order_id c of None \<Rightarrow> False | Some ord \<Rightarrow> not_blank ord))
     \<and> not_blank (cs_customer_id c) \<and> not_blank (cs_tenant_id c) \<and> not_blank (cs_created_by c)"

definition has_actor :: "support_case_event \<Rightarrow> bool" where
  "has_actor e \<longleftrightarrow> (case ce_actor e of None \<Rightarrow> False | Some a \<Rightarrow> not_blank a)"

definition case_event_row_ok :: "support_case_event \<Rightarrow> bool" where
  "case_event_row_ok e \<longleftrightarrow>
     not_blank (ce_idempotency_key e)
     \<and> (case ce_order_id e of None \<Rightarrow> True | Some ord \<Rightarrow> length ord \<le> 50)
     \<and> length (ce_triggering_message_excerpt e) \<le> 500
     \<and> not_blank_option (ce_provider_reference e)
     \<and> (case ce_event_type e of
          Case_status_changed \<Rightarrow> ce_previous_status e \<noteq> None \<and> ce_current_status e \<noteq> None
            \<and> has_actor e \<and> ce_provider_redrive_reason_code e = None
            \<and> (ce_current_status e = Some On_hold \<longleftrightarrow> ce_on_hold_reason e \<noteq> None)
        | Case_assigned \<Rightarrow>
            (case ce_current_assigned_agent_id e of None \<Rightarrow> False | Some a \<Rightarrow> not_blank a)
            \<and> has_actor e \<and> ce_provider_redrive_reason_code e = None
        | Provider_update \<Rightarrow> ce_provider_command_id e \<noteq> None \<and> ce_provider_command_status e \<noteq> None
            \<and> has_actor e \<and> ce_provider_redrive_reason_code e = None
        | Provider_redrive \<Rightarrow> ce_provider_command_id e \<noteq> None
            \<and> ce_provider_redrive_reason_code e \<noteq> None
            \<and> ce_provider_command_status e = None \<and> ce_provider_reference e = None
            \<and> ce_previous_status e = None \<and> ce_current_status e = None \<and> has_actor e
        | _ \<Rightarrow> (case ce_source_message_id e of None \<Rightarrow> False | Some m \<Rightarrow> not_blank m)
            \<and> ce_reason_codes e \<noteq> [] \<and> not_blank (ce_triggering_message_excerpt e)
            \<and> ce_current_priority e \<noteq> None \<and> ce_current_status e \<noteq> None
            \<and> ce_provider_redrive_reason_code e = None)
     \<and> not_blank (ce_customer_id e) \<and> not_blank (ce_tenant_id e)"

section \<open>Statements\<close>

abbreviation taken :: "('r \<Rightarrow> 'k) \<Rightarrow> 'r list \<Rightarrow> 'r \<Rightarrow> bool" where
  "taken \<equiv> key_taken (\<lambda>_. True)"

definition case_exists :: "db \<Rightarrow> uuid option \<Rightarrow> bool" where
  "case_exists s ref \<longleftrightarrow>
     (case ref of None \<Rightarrow> True | Some u \<Rightarrow> list_ex (\<lambda>c. cs_case_id c = u) (support_cases s))"

definition insert_order_operation :: "order_operation \<Rightarrow> db \<Rightarrow> sql_error + db" where
  "insert_order_operation x s =
     (let rows = order_operations s in
      if \<not> operation_row_ok x then Inl Check_violation
      else if taken op_operation_id rows x then Inl (Unique_violation ''order_operations_pkey'')
      else if taken op_idempotency_key rows x
      then Inl (Unique_violation ''order_operations_idempotency_key_key'')
      else if taken (\<lambda>r. (op_thread_id r, op_source_message_id r)) rows x
      then Inl (Unique_violation ''uq_order_operations_source_message'')
      else if key_taken operation_active (\<lambda>r. (op_tenant_id r, op_order_id r)) rows x
      then Inl (Unique_violation ''uq_order_operations_active_order'')
      else if \<not> case_exists s (op_support_case_id x) then Inl Foreign_key_violation
      else Inr (s\<lparr>order_operations := rows @ [x]\<rparr>))"

text \<open>The columns set by \<^verbatim>\<open>UPDATE case_management.order_operations\<close>; the others keep their value.\<close>

definition set_operation_columns :: "order_operation \<Rightarrow> order_operation \<Rightarrow> order_operation" where
  "set_operation_columns x row =
     row\<lparr>op_policy_reason_codes := op_policy_reason_codes x,
         op_display_reason := op_display_reason x,
         op_review_case_type := op_review_case_type x,
         op_review_priority := op_review_priority x,
         op_support_case_id := op_support_case_id x,
         op_provider_reference := op_provider_reference x,
         op_status := op_status x,
         op_updated_at := op_updated_at x,
         op_version := op_version x\<rparr>"

definition update_order_operations ::
  "(order_operation \<Rightarrow> bool) \<Rightarrow> (order_operation \<Rightarrow> order_operation) \<Rightarrow> db \<Rightarrow> sql_error + nat \<times> db" where
  "update_order_operations sel upd s =
     (let rows = order_operations s; hit = map upd (filter sel rows);
          rest = filter (\<lambda>r. \<not> sel r) rows in
      if list_ex (\<lambda>r. \<not> operation_row_ok r) hit then Inl Check_violation
      else if list_ex (key_taken operation_active (\<lambda>r. (op_tenant_id r, op_order_id r)) rest) hit
      then Inl (Unique_violation ''uq_order_operations_active_order'')
      else if list_ex (\<lambda>r. \<not> case_exists s (op_support_case_id r)) hit then Inl Foreign_key_violation
      else Inr (length hit, s\<lparr>order_operations := update_rows sel upd rows\<rparr>))"

definition insert_operation_event :: "order_operation_event \<Rightarrow> db \<Rightarrow> sql_error + db" where
  "insert_operation_event e s =
     (let rows = order_operation_events s in
      if \<not> operation_event_row_ok e then Inl Check_violation
      else if taken oe_event_id rows e then Inl (Unique_violation ''order_operation_events_pkey'')
      else if taken oe_idempotency_key rows e
      then Inl (Unique_violation ''order_operation_events_idempotency_key_key'')
      else if \<not> list_ex (\<lambda>x. op_operation_id x = oe_operation_id e) (order_operations s)
      then Inl Foreign_key_violation
      else if \<not> case_exists s (oe_support_case_id e) then Inl Foreign_key_violation
      else Inr (s\<lparr>order_operation_events := rows @ [e]\<rparr>))"

fun insert_operation_events :: "order_operation_event list \<Rightarrow> db \<Rightarrow> sql_error + db" where
  "insert_operation_events [] s = Inr s"
| "insert_operation_events (e # es) s =
     (case insert_operation_event e s of Inl err \<Rightarrow> Inl err | Inr s' \<Rightarrow> insert_operation_events es s')"

text \<open>\<^verbatim>\<open>insert_outbox_message\<close> of \<^verbatim>\<open>postgres_writes.py\<close>.\<close>

definition outbox_of_command ::
  "provider_command_envelope \<Rightarrow> outbox_delivery_status \<Rightarrow> instant \<Rightarrow> instant \<Rightarrow> outbox_message" where
  "outbox_of_command c status available_at now =
     \<lparr>ob_command_id = pc_command_id c, ob_idempotency_key = pc_idempotency_key c,
      ob_tenant_id = pc_tenant_id c, ob_customer_id = pc_customer_id c,
      ob_source_message_id = pc_source_message_id c,
      ob_provider_connection_id = pc_connection_id c,
      ob_provider_capability = Order_operation_capability,
      ob_command_type = pc_command_type c, ob_aggregate_type = pc_aggregate_type c,
      ob_aggregate_id = pc_aggregate_id c,
      ob_expected_order_version = pc_expected_order_version c, ob_payload = pc_payload c,
      ob_status = status, ob_delivery_cycle = 1, ob_attempts_in_cycle = 0,
      ob_available_at = available_at, ob_lease_id = None, ob_lease_owner = None,
      ob_lease_expires_at = None, ob_last_failure_kind = None, ob_last_error_code = None,
      ob_last_error_message = None, ob_created_at = now, ob_updated_at = now,
      ob_published_at = None, ob_dead_at = None\<rparr>"

definition insert_outbox_message ::
  "provider_command_envelope \<Rightarrow> outbox_delivery_status \<Rightarrow> instant \<Rightarrow> instant \<Rightarrow> db \<Rightarrow> sql_error + db" where
  "insert_outbox_message c status available_at now s =
     (let m = outbox_of_command c status available_at now; rows = outbox_messages s in
      if \<not> outbox_row_ok m then Inl Check_violation
      else if taken ob_command_id rows m then Inl (Unique_violation ''outbox_messages_pkey'')
      else if taken (\<lambda>r. (ob_tenant_id r, ob_idempotency_key r)) rows m
      then Inl (Unique_violation ''uq_outbox_messages_tenant_idempotency'')
      else Inr (s\<lparr>outbox_messages := rows @ [m]\<rparr>))"

abbreviation case_thread_key :: "support_case \<Rightarrow> string \<times> string \<times> case_type" where
  "case_thread_key c \<equiv> (cs_tenant_id c, cs_thread_id c, cs_case_type c)"

definition thread_type_indexed :: "support_case \<Rightarrow> bool" where
  "thread_type_indexed c \<longleftrightarrow> case_active c \<and> cs_case_type c \<noteq> Delivery_investigation"

definition delivery_order_indexed :: "support_case \<Rightarrow> bool" where
  "delivery_order_indexed c \<longleftrightarrow>
     case_active c \<and> cs_case_type c = Delivery_investigation \<and> cs_order_id c \<noteq> None"

definition case_conflict :: "support_case list \<Rightarrow> support_case \<Rightarrow> sql_error option" where
  "case_conflict rows c =
     (if key_taken thread_type_indexed case_thread_key rows c
      then Some (Unique_violation ''uq_support_cases_active_thread_type'')
      else if key_taken delivery_order_indexed (\<lambda>r. (case_thread_key r, cs_order_id r)) rows c
      then Some (Unique_violation ''uq_support_cases_active_delivery_order'')
      else None)"

definition insert_support_case :: "support_case \<Rightarrow> db \<Rightarrow> sql_error + db" where
  "insert_support_case c s =
     (let rows = support_cases s in
      if \<not> case_row_ok c then Inl Check_violation
      else if taken cs_case_id rows c then Inl (Unique_violation ''support_cases_pkey'')
      else case case_conflict rows c of
        Some err \<Rightarrow> Inl err
      | None \<Rightarrow> Inr (s\<lparr>support_cases := rows @ [c]\<rparr>))"

definition set_case_columns :: "support_case \<Rightarrow> support_case \<Rightarrow> support_case" where
  "set_case_columns c row =
     row\<lparr>cs_order_id := cs_order_id c, cs_priority := cs_priority c, cs_status := cs_status c,
         cs_risk_level := cs_risk_level c, cs_risk_categories := cs_risk_categories c,
         cs_reason_codes := cs_reason_codes c, cs_display_reason := cs_display_reason c,
         cs_on_hold_reason := cs_on_hold_reason c, cs_assigned_agent_id := cs_assigned_agent_id c,
         cs_updated_at := cs_updated_at c, cs_version := cs_version c\<rparr>"

definition update_support_cases ::
  "(support_case \<Rightarrow> bool) \<Rightarrow> (support_case \<Rightarrow> support_case) \<Rightarrow> db \<Rightarrow> sql_error + nat \<times> db" where
  "update_support_cases sel upd s =
     (let rows = support_cases s; hit = map upd (filter sel rows);
          rest = filter (\<lambda>r. \<not> sel r) rows in
      if list_ex (\<lambda>r. \<not> case_row_ok r) hit then Inl Check_violation
      else case find (\<lambda>r. case_conflict rest r \<noteq> None) hit of
        Some r \<Rightarrow> Inl (the (case_conflict rest r))
      | None \<Rightarrow> Inr (length hit, s\<lparr>support_cases := update_rows sel upd rows\<rparr>))"

definition insert_case_event :: "support_case_event \<Rightarrow> db \<Rightarrow> sql_error + db" where
  "insert_case_event e s =
     (let rows = support_case_events s in
      if \<not> case_event_row_ok e then Inl Check_violation
      else if taken ce_event_id rows e then Inl (Unique_violation ''support_case_events_pkey'')
      else if taken ce_idempotency_key rows e
      then Inl (Unique_violation ''uq_support_case_events_idempotency'')
      else if \<not> list_ex (\<lambda>c. cs_case_id c = ce_case_id e) (support_cases s)
      then Inl Foreign_key_violation
      else Inr (s\<lparr>support_case_events := rows @ [e]\<rparr>))"

section \<open>Integrity of the tables\<close>

text \<open>What the schema guarantees of any committed state.\<close>

definition operations_ok :: "db \<Rightarrow> bool" where
  "operations_ok s \<longleftrightarrow>
     list_all operation_row_ok (order_operations s)
     \<and> unique_on (\<lambda>_. True) op_operation_id (order_operations s)
     \<and> unique_on (\<lambda>_. True) op_idempotency_key (order_operations s)
     \<and> unique_on (\<lambda>_. True) (\<lambda>r. (op_thread_id r, op_source_message_id r)) (order_operations s)
     \<and> unique_on operation_active (\<lambda>r. (op_tenant_id r, op_order_id r)) (order_operations s)
     \<and> list_all (\<lambda>r. case_exists s (op_support_case_id r)) (order_operations s)"

definition operation_events_ok :: "db \<Rightarrow> bool" where
  "operation_events_ok s \<longleftrightarrow>
     list_all operation_event_row_ok (order_operation_events s)
     \<and> unique_on (\<lambda>_. True) oe_event_id (order_operation_events s)
     \<and> unique_on (\<lambda>_. True) oe_idempotency_key (order_operation_events s)
     \<and> oe_operation_id ` set (order_operation_events s) \<subseteq> op_operation_id ` set (order_operations s)
     \<and> list_all (\<lambda>e. case_exists s (oe_support_case_id e)) (order_operation_events s)"

definition outbox_ok :: "db \<Rightarrow> bool" where
  "outbox_ok s \<longleftrightarrow>
     list_all outbox_row_ok (outbox_messages s)
     \<and> unique_on (\<lambda>_. True) ob_command_id (outbox_messages s)
     \<and> unique_on (\<lambda>_. True) (\<lambda>r. (ob_tenant_id r, ob_idempotency_key r)) (outbox_messages s)"

definition cases_ok :: "db \<Rightarrow> bool" where
  "cases_ok s \<longleftrightarrow>
     list_all case_row_ok (support_cases s)
     \<and> unique_on (\<lambda>_. True) cs_case_id (support_cases s)
     \<and> unique_on thread_type_indexed case_thread_key (support_cases s)
     \<and> unique_on delivery_order_indexed (\<lambda>r. (case_thread_key r, cs_order_id r)) (support_cases s)"

definition case_events_ok :: "db \<Rightarrow> bool" where
  "case_events_ok s \<longleftrightarrow>
     list_all case_event_row_ok (support_case_events s)
     \<and> unique_on (\<lambda>_. True) ce_event_id (support_case_events s)
     \<and> unique_on (\<lambda>_. True) ce_idempotency_key (support_case_events s)
     \<and> ce_case_id ` set (support_case_events s) \<subseteq> cs_case_id ` set (support_cases s)"

definition db_ok :: "db \<Rightarrow> bool" where
  "db_ok s \<longleftrightarrow>
     operations_ok s \<and> operation_events_ok s \<and> outbox_ok s \<and> cases_ok s \<and> case_events_ok s"

lemmas db_ok_defs = operations_ok_def operation_events_ok_def outbox_ok_def cases_ok_def
  case_events_ok_def

lemma db_ok_empty: "db_ok empty_db"
  by (simp add: db_ok_def db_ok_defs empty_db_def)

lemma list_ex_key: "list_ex (\<lambda>x. f x = k) rows \<longleftrightarrow> k \<in> f ` set rows"
  by (auto simp: list_ex_iff)

lemma unique_all: "unique_on (\<lambda>_. True) f rows \<longleftrightarrow> distinct (map f rows)"
  by (simp add: unique_on_def)

lemma case_exists_cong:
  "map cs_case_id (support_cases s) = map cs_case_id (support_cases t) \<Longrightarrow> case_exists s = case_exists t"
proof
  fix ref
  assume "map cs_case_id (support_cases s) = map cs_case_id (support_cases t)"
  then have "cs_case_id ` set (support_cases s) = cs_case_id ` set (support_cases t)"
    by (metis set_map)
  then show "case_exists s ref = case_exists t ref"
    by (simp add: case_exists_def list_ex_key split: option.split)
qed

lemma case_exists_update [simp]:
  "case_exists (s\<lparr>order_operations := a\<rparr>) = case_exists s"
  "case_exists (s\<lparr>order_operation_events := b\<rparr>) = case_exists s"
  "case_exists (s\<lparr>outbox_messages := c\<rparr>) = case_exists s"
  "case_exists (s\<lparr>support_case_events := d\<rparr>) = case_exists s"
  by (auto intro!: case_exists_cong)

lemma set_operation_columns_id [simp]:
  "op_operation_id (set_operation_columns x r) = op_operation_id r"
  "op_idempotency_key (set_operation_columns x r) = op_idempotency_key r"
  "op_thread_id (set_operation_columns x r) = op_thread_id r"
  "op_source_message_id (set_operation_columns x r) = op_source_message_id r"
  "op_tenant_id (set_operation_columns x r) = op_tenant_id r"
  "op_customer_id (set_operation_columns x r) = op_customer_id r"
  "op_order_id (set_operation_columns x r) = op_order_id r"
  "op_status (set_operation_columns x r) = op_status x"
  "op_version (set_operation_columns x r) = op_version x"
  "op_support_case_id (set_operation_columns x r) = op_support_case_id x"
  "op_requires_manual_review (set_operation_columns x r) = op_requires_manual_review r"
  by (simp_all add: set_operation_columns_def)

lemma insert_order_operation_Inr:
  "insert_order_operation x s = Inr t \<longleftrightarrow>
     t = s\<lparr>order_operations := order_operations s @ [x]\<rparr>
     \<and> operation_row_ok x \<and> \<not> taken op_operation_id (order_operations s) x
     \<and> \<not> taken op_idempotency_key (order_operations s) x
     \<and> \<not> taken (\<lambda>r. (op_thread_id r, op_source_message_id r)) (order_operations s) x
     \<and> \<not> key_taken operation_active (\<lambda>r. (op_tenant_id r, op_order_id r)) (order_operations s) x
     \<and> case_exists s (op_support_case_id x)"
  by (auto simp: insert_order_operation_def Let_def)

lemma insert_order_operation_ok:
  assumes "db_ok s" and "insert_order_operation x s = Inr t"
  shows "db_ok t"
  using assms
  by (simp add: insert_order_operation_Inr db_ok_def db_ok_defs unique_on_snoc subset_insertI2)

lemma update_order_operations_ok:
  assumes ok: "db_ok s"
    and upd: "update_order_operations sel f s = Inr (n, t)"
    and sel: "\<And>a b. sel a \<Longrightarrow> sel b \<Longrightarrow> op_operation_id a = op_operation_id b"
    and keys: "\<And>r. op_operation_id (f r) = op_operation_id r" "\<And>r. op_idempotency_key (f r) = op_idempotency_key r"
      "\<And>r. op_thread_id (f r) = op_thread_id r" "\<And>r. op_source_message_id (f r) = op_source_message_id r"
  shows "db_ok t"
proof -
  let ?rows = "order_operations s"
  let ?new = "update_rows sel f ?rows"
  have t: "t = s\<lparr>order_operations := ?new\<rparr>"
    and hit: "\<And>r. r \<in> set ?rows \<Longrightarrow> sel r \<Longrightarrow>
        operation_row_ok (f r) \<and> case_exists s (op_support_case_id (f r))
        \<and> \<not> key_taken operation_active (\<lambda>r. (op_tenant_id r, op_order_id r))
            (filter (\<lambda>r. \<not> sel r) ?rows) (f r)"
    using upd by (auto simp: update_order_operations_def Let_def list_ex_iff split: if_splits)
  have ids: "map op_operation_id ?new = map op_operation_id ?rows"
    and idem: "map op_idempotency_key ?new = map op_idempotency_key ?rows"
    and msg: "map (\<lambda>r. (op_thread_id r, op_source_message_id r)) ?new
              = map (\<lambda>r. (op_thread_id r, op_source_message_id r)) ?rows"
    by (rule map_update_rows_id; simp add: keys)+
  have act: "unique_on operation_active (\<lambda>r. (op_tenant_id r, op_order_id r)) ?new"
  proof (rule unique_on_update[where k = op_operation_id])
    show "unique_on operation_active (\<lambda>r. (op_tenant_id r, op_order_id r)) ?rows"
      "distinct (map op_operation_id ?rows)"
      using ok by (simp_all add: db_ok_def operations_ok_def unique_all)
  qed (use sel hit in blast)+
  have rows: "list_all operation_row_ok ?new"
    "list_all (\<lambda>r. case_exists s (op_support_case_id r)) ?new"
    using ok hit by (auto simp: db_ok_def db_ok_defs update_rows_def list_all_iff)
  have "operations_ok t"
    using ok act rows ids idem msg by (simp add: db_ok_def db_ok_defs unique_all t)
  moreover have "op_operation_id ` set ?new = op_operation_id ` set ?rows"
    by (metis ids set_map)
  then have "operation_events_ok t"
    using ok by (simp add: db_ok_def operation_events_ok_def t)
  ultimately show ?thesis
    using ok by (simp add: db_ok_def outbox_ok_def cases_ok_def case_events_ok_def t)
qed

lemma insert_operation_event_Inr:
  "insert_operation_event e s = Inr t \<longleftrightarrow>
     t = s\<lparr>order_operation_events := order_operation_events s @ [e]\<rparr>
     \<and> operation_event_row_ok e \<and> \<not> taken oe_event_id (order_operation_events s) e
     \<and> \<not> taken oe_idempotency_key (order_operation_events s) e
     \<and> oe_operation_id e \<in> op_operation_id ` set (order_operations s)
     \<and> case_exists s (oe_support_case_id e)"
  by (auto simp: insert_operation_event_def Let_def list_ex_key simp del: image_iff)

lemma insert_operation_event_ok:
  assumes "db_ok s" and "insert_operation_event e s = Inr t"
  shows "db_ok t"
  using assms by (simp add: insert_operation_event_Inr db_ok_def db_ok_defs unique_on_snoc)

lemma insert_operation_events_ok:
  "db_ok s \<Longrightarrow> insert_operation_events es s = Inr t \<Longrightarrow> db_ok t"
  by (induction es arbitrary: s) (auto split: sum.splits dest: insert_operation_event_ok)

lemma insert_outbox_message_Inr:
  "insert_outbox_message c st a n s = Inr t \<longleftrightarrow>
     t = s\<lparr>outbox_messages := outbox_messages s @ [outbox_of_command c st a n]\<rparr>
     \<and> outbox_row_ok (outbox_of_command c st a n)
     \<and> \<not> taken ob_command_id (outbox_messages s) (outbox_of_command c st a n)
     \<and> \<not> taken (\<lambda>r. (ob_tenant_id r, ob_idempotency_key r)) (outbox_messages s)
           (outbox_of_command c st a n)"
  by (auto simp: insert_outbox_message_def Let_def)

lemma insert_outbox_message_ok:
  assumes "db_ok s" and "insert_outbox_message c st a n s = Inr t"
  shows "db_ok t"
  using assms by (simp add: insert_outbox_message_Inr db_ok_def db_ok_defs unique_on_snoc)

lemma insert_support_case_ok:
  assumes "db_ok s" and "insert_support_case c s = Inr t"
  shows "db_ok t"
proof -
  have t: "t = s\<lparr>support_cases := support_cases s @ [c]\<rparr>" and "cases_ok t"
    using assms
    by (auto simp: db_ok_def cases_ok_def insert_support_case_def case_conflict_def Let_def
        unique_on_snoc split: if_splits option.splits)
  have mono: "case_exists s r \<Longrightarrow> case_exists t r" for r
    by (auto simp: case_exists_def t split: option.splits)
  have "operations_ok t" "operation_events_ok t"
    using assms(1) mono by (simp_all add: db_ok_def operations_ok_def operation_events_ok_def
        list_all_iff t)
  with \<open>cases_ok t\<close> show ?thesis
    using assms(1) by (simp add: db_ok_def outbox_ok_def case_events_ok_def t subset_insertI2)
qed

lemma set_case_columns_id [simp]:
  "cs_case_id (set_case_columns c r) = cs_case_id r"
  "cs_tenant_id (set_case_columns c r) = cs_tenant_id r"
  "cs_customer_id (set_case_columns c r) = cs_customer_id r"
  "cs_thread_id (set_case_columns c r) = cs_thread_id r"
  "cs_case_type (set_case_columns c r) = cs_case_type r"
  "cs_status (set_case_columns c r) = cs_status c"
  "cs_version (set_case_columns c r) = cs_version c"
  "cs_priority (set_case_columns c r) = cs_priority c"
  "cs_assigned_agent_id (set_case_columns c r) = cs_assigned_agent_id c"
  by (simp_all add: set_case_columns_def)

lemma update_support_cases_ok:
  assumes ok: "db_ok s"
    and upd: "update_support_cases sel f s = Inr (n, t)"
    and sel: "\<And>a b. sel a \<Longrightarrow> sel b \<Longrightarrow> cs_case_id a = cs_case_id b"
    and key: "\<And>r. cs_case_id (f r) = cs_case_id r"
  shows "db_ok t"
proof -
  let ?rows = "support_cases s"
  let ?new = "update_rows sel f ?rows"
  have t: "t = s\<lparr>support_cases := ?new\<rparr>"
    and hit: "\<And>r. r \<in> set ?rows \<Longrightarrow> sel r \<Longrightarrow>
        case_row_ok (f r)
        \<and> case_conflict (filter (\<lambda>r. \<not> sel r) ?rows) (f r) = None"
    using upd by (auto simp: update_support_cases_def Let_def list_ex_iff find_None_iff
        split: if_splits option.splits)
  have ids: "map cs_case_id ?new = map cs_case_id ?rows"
    by (rule map_update_rows_id) (simp add: key)
  have d: "distinct (map cs_case_id ?rows)"
    using ok by (simp add: db_ok_def cases_ok_def unique_all)
  have free: "\<not> key_taken thread_type_indexed case_thread_key
        (filter (\<lambda>r. \<not> sel r) ?rows) (f r)"
    "\<not> key_taken delivery_order_indexed (\<lambda>r. (case_thread_key r, cs_order_id r))
        (filter (\<lambda>r. \<not> sel r) ?rows) (f r)"
    if "r \<in> set ?rows" "sel r" for r
    using hit[OF that] by (simp_all add: case_conflict_def split: if_splits)
  have "unique_on thread_type_indexed case_thread_key ?new"
  proof (rule unique_on_update[OF _ d])
    show "unique_on thread_type_indexed case_thread_key ?rows"
      using ok by (simp add: db_ok_def cases_ok_def)
  qed (use sel free in blast)+
  moreover have "unique_on delivery_order_indexed (\<lambda>r. (case_thread_key r, cs_order_id r)) ?new"
  proof (rule unique_on_update[OF _ d])
    show "unique_on delivery_order_indexed (\<lambda>r. (case_thread_key r, cs_order_id r)) ?rows"
      using ok by (simp add: db_ok_def cases_ok_def)
  qed (use sel free in blast)+
  moreover have "list_all case_row_ok ?new"
    using ok hit by (auto simp: db_ok_def db_ok_defs update_rows_def list_all_iff)
  ultimately have "cases_ok t"
    using ok ids by (simp add: db_ok_def cases_ok_def unique_all t)
  moreover have "case_exists t = case_exists s"
    by (rule case_exists_cong) (simp add: t ids)
  then have "case_exists (s\<lparr>support_cases := ?new\<rparr>) = case_exists s" by (simp add: t)
  moreover have "cs_case_id ` set ?new = cs_case_id ` set ?rows"
    by (metis ids set_map)
  ultimately show ?thesis
    using ok by (simp add: db_ok_def operations_ok_def operation_events_ok_def outbox_ok_def
        case_events_ok_def t)
qed

lemma insert_case_event_Inr:
  "insert_case_event e s = Inr t \<longleftrightarrow>
     t = s\<lparr>support_case_events := support_case_events s @ [e]\<rparr>
     \<and> case_event_row_ok e \<and> \<not> taken ce_event_id (support_case_events s) e
     \<and> \<not> taken ce_idempotency_key (support_case_events s) e
     \<and> ce_case_id e \<in> cs_case_id ` set (support_cases s)"
  by (auto simp: insert_case_event_def Let_def list_ex_key simp del: image_iff)

lemma insert_case_event_ok:
  assumes "db_ok s" and "insert_case_event e s = Inr t"
  shows "db_ok t"
  using assms by (simp add: insert_case_event_Inr db_ok_def db_ok_defs unique_on_snoc)

end
