(* ===== verification/Auth.thy ===== *)
theory Auth
  imports Prelude
begin

text \<open>
  The trusted identity boundary, \<^verbatim>\<open>src/agent/auth\<close>: roles and permissions
  (\<^verbatim>\<open>models.py\<close>, \<^verbatim>\<open>rbac.py\<close>), the composite identity key, the access scope
  every repository enforces, the visibility predicates of the SQL statements
  (\<^verbatim>\<open>visibility.py\<close>), the payload the graph server hands to the nodes and back
  (\<^verbatim>\<open>langgraph_auth.py\<close>, \<^verbatim>\<open>context.py\<close>), and the mapping of verified token claims to an
  identity (\<^verbatim>\<open>claim_policy.py\<close>, \<^verbatim>\<open>config.py\<close>).
\<close>

section \<open>Roles, permissions, identities\<close>

datatype role = Customer | Support_agent | Supervisor

datatype permission =
    Orders_read_own
  | Orders_operate_own
  | Cases_read_own
  | Cases_read_assigned
  | Cases_read_all
  | Cases_update_assigned
  | Cases_update_all
  | Cases_assign
  | Provider_ops_read
  | Provider_ops_redrive

fun role_str :: "role \<Rightarrow> string" where
  "role_str Customer = ''customer''"
| "role_str Support_agent = ''support_agent''"
| "role_str Supervisor = ''supervisor''"

fun permission_str :: "permission \<Rightarrow> string" where
  "permission_str Orders_read_own = ''orders:read:own''"
| "permission_str Orders_operate_own = ''orders:operate:own''"
| "permission_str Cases_read_own = ''cases:read:own''"
| "permission_str Cases_read_assigned = ''cases:read:assigned''"
| "permission_str Cases_read_all = ''cases:read:all''"
| "permission_str Cases_update_assigned = ''cases:update:assigned''"
| "permission_str Cases_update_all = ''cases:update:all''"
| "permission_str Cases_assign = ''cases:assign''"
| "permission_str Provider_ops_read = ''provider_ops:read''"
| "permission_str Provider_ops_redrive = ''provider_ops:redrive''"

definition all_roles :: "role list" where
  "all_roles = [Customer, Support_agent, Supervisor]"

definition all_permissions :: "permission list" where
  "all_permissions =
     [Orders_read_own, Orders_operate_own, Cases_read_own, Cases_read_assigned, Cases_read_all,
      Cases_update_assigned, Cases_update_all, Cases_assign, Provider_ops_read,
      Provider_ops_redrive]"

text \<open>\<^verbatim>\<open>value in _VALID_ROLES\<close> and \<^verbatim>\<open>value in _VALID_PERMISSIONS\<close>.\<close>

definition role_of_str :: "string \<Rightarrow> role option" where
  "role_of_str s = find (\<lambda>r. role_str r = s) all_roles"

definition permission_of_str :: "string \<Rightarrow> permission option" where
  "permission_of_str s = find (\<lambda>p. permission_str p = s) all_permissions"

record access_scope =
  sc_tenant_id :: string
  sc_user_id :: string
  sc_role :: role
  sc_permissions :: "permission set"

record authenticated_identity =
  ai_user_id :: string
  ai_tenant_id :: string
  ai_role :: role
  ai_permissions :: "permission set"

record directory_user =
  du_user_id :: string
  du_tenant_id :: string
  du_active :: bool
  du_roles :: "role set"

section \<open>The composite identity key\<close>

definition validate_identity_part :: "string \<Rightarrow> bool \<Rightarrow> exn + unit" where
  "validate_identity_part value is_tenant =
     (if strip value = [] then Inl (ValueError ''must be a non-empty string'')
      else if CHR '':'' \<in> set value then Inl (ValueError ''must not contain the separator'')
      else if is_tenant \<and> strip value = ''legacy'' then Inl (ValueError ''is reserved'')
      else Inr ())"

definition encode_identity_key :: "string \<Rightarrow> string \<Rightarrow> exn + string" where
  "encode_identity_key tenant_id user_id =
     (case validate_identity_part tenant_id True of
        Inl e \<Rightarrow> Inl e
      | Inr _ \<Rightarrow>
          (case validate_identity_part user_id False of
             Inl e \<Rightarrow> Inl e
           | Inr _ \<Rightarrow> Inr (tenant_id @ '':'' @ user_id)))"

definition decode_identity_key :: "string \<Rightarrow> exn + string \<times> string" where
  "decode_identity_key key =
     (if count_list key (CHR '':'') \<noteq> 1
      then Inl (ValueError ''identity key must contain exactly one separator'')
      else
        (let tenant_id = takeWhile (\<lambda>c. c \<noteq> CHR '':'') key;
             user_id = tl (dropWhile (\<lambda>c. c \<noteq> CHR '':'') key)
         in case validate_identity_part tenant_id True of
              Inl e \<Rightarrow> Inl e
            | Inr _ \<Rightarrow>
                (case validate_identity_part user_id False of
                   Inl e \<Rightarrow> Inl e
                 | Inr _ \<Rightarrow> Inr (tenant_id, user_id))))"

text \<open>The model constructors trim, require non-empty fields and re-validate both parts.\<close>

definition valid_identity_parts :: "string \<Rightarrow> string \<Rightarrow> bool" where
  "valid_identity_parts tenant_id user_id \<longleftrightarrow>
     validate_identity_part tenant_id True = Inr () \<and> validate_identity_part user_id False = Inr ()"

definition mk_access_scope ::
  "string \<Rightarrow> string \<Rightarrow> role \<Rightarrow> permission set \<Rightarrow> exn + access_scope" where
  "mk_access_scope tenant_id user_id role permissions =
     (let t = trim tenant_id; u = trim user_id in
      if t \<noteq> [] \<and> u \<noteq> [] \<and> valid_identity_parts t u
      then Inr \<lparr>sc_tenant_id = t, sc_user_id = u, sc_role = role, sc_permissions = permissions\<rparr>
      else Inl (ValidationError ''AccessScope''))"

definition mk_authenticated_identity ::
  "string \<Rightarrow> string \<Rightarrow> role \<Rightarrow> permission set \<Rightarrow> exn + authenticated_identity" where
  "mk_authenticated_identity user_id tenant_id role permissions =
     (let t = trim tenant_id; u = trim user_id in
      if t \<noteq> [] \<and> u \<noteq> [] \<and> valid_identity_parts t u
      then Inr \<lparr>ai_user_id = u, ai_tenant_id = t, ai_role = role, ai_permissions = permissions\<rparr>
      else Inl (ValidationError ''AuthenticatedIdentity''))"

definition sc_identity :: "access_scope \<Rightarrow> exn + string" where
  "sc_identity s = encode_identity_key (sc_tenant_id s) (sc_user_id s)"

definition sc_customer_id :: "access_scope \<Rightarrow> string option" where
  "sc_customer_id s = (if sc_role s = Customer then Some (sc_user_id s) else None)"

definition ai_identity_key :: "authenticated_identity \<Rightarrow> exn + string" where
  "ai_identity_key i = encode_identity_key (ai_tenant_id i) (ai_user_id i)"

definition ai_scope :: "authenticated_identity \<Rightarrow> exn + access_scope" where
  "ai_scope i = mk_access_scope (ai_tenant_id i) (ai_user_id i) (ai_role i) (ai_permissions i)"

section \<open>Role-based permissions\<close>

fun role_permissions :: "role \<Rightarrow> permission set" where
  "role_permissions Customer = {Orders_read_own, Orders_operate_own, Cases_read_own}"
| "role_permissions Support_agent = {Cases_read_assigned, Cases_update_assigned}"
| "role_permissions Supervisor =
     {Cases_read_own, Cases_read_assigned, Cases_read_all, Cases_update_assigned,
      Cases_update_all, Cases_assign, Provider_ops_read, Provider_ops_redrive}"

definition has_permission :: "access_scope \<Rightarrow> permission \<Rightarrow> bool" where
  "has_permission s p \<longleftrightarrow> p \<in> sc_permissions s"

definition has_any_permission :: "access_scope \<Rightarrow> permission list \<Rightarrow> bool" where
  "has_any_permission s ps \<longleftrightarrow> list_ex (\<lambda>p. p \<in> sc_permissions s) ps"

definition has_provider_operations_permission :: "access_scope \<Rightarrow> permission \<Rightarrow> bool" where
  "has_provider_operations_permission s p \<longleftrightarrow> sc_role s = Supervisor \<and> p \<in> sc_permissions s"

definition derive_role :: "permission set \<Rightarrow> exn + role" where
  "derive_role ps =
     (case find (\<lambda>r. ps = role_permissions r) all_roles of
        Some r \<Rightarrow> Inr r
      | None \<Rightarrow> Inl (ValueError ''permission set does not exactly match a known role''))"

section \<open>Visibility of rows\<close>

text \<open>The SQL predicate a repository conjoins to its statements, and which rows it selects.\<close>

datatype visibility =
    Tenant_wide string
  | Tenant_assigned string string
  | Tenant_customer string string

fun row_visible :: "visibility \<Rightarrow> string \<Rightarrow> string \<Rightarrow> string option \<Rightarrow> bool" where
  "row_visible (Tenant_wide t) tenant_id customer_id assigned \<longleftrightarrow> tenant_id = t"
| "row_visible (Tenant_assigned t u) tenant_id customer_id assigned \<longleftrightarrow>
     tenant_id = t \<and> assigned = Some u"
| "row_visible (Tenant_customer t c) tenant_id customer_id assigned \<longleftrightarrow>
     tenant_id = t \<and> customer_id = c"

definition case_visibility :: "access_scope \<Rightarrow> exn + visibility" where
  "case_visibility s =
     (if Cases_read_all \<in> sc_permissions s then Inr (Tenant_wide (sc_tenant_id s))
      else if Cases_read_assigned \<in> sc_permissions s
      then Inr (Tenant_assigned (sc_tenant_id s) (sc_user_id s))
      else if Cases_read_own \<in> sc_permissions s
      then (case sc_customer_id s of
              None \<Rightarrow> Inl (ForbiddenError ''own-case access requires a customer identity'')
            | Some c \<Rightarrow> Inr (Tenant_customer (sc_tenant_id s) c))
      else Inl (ForbiddenError ''the caller cannot read support cases''))"

definition customer_owned_visibility :: "access_scope \<Rightarrow> exn + visibility" where
  "customer_owned_visibility s =
     (case sc_customer_id s of
        None \<Rightarrow> Inl (ForbiddenError ''only customers may access customer-owned records'')
      | Some c \<Rightarrow> Inr (Tenant_customer (sc_tenant_id s) c))"

section \<open>The authenticated-user payload\<close>

text \<open>The values a payload or a claim set may hold, as far as the code tells them apart:
  \<^verbatim>\<open>PySeq\<close> is a list or tuple, \<^verbatim>\<open>PySet\<close> a set or frozenset,
  \<^verbatim>\<open>PyUnhashable\<close> a dictionary, \<^verbatim>\<open>PyOther\<close> any other hashable value.\<close>

datatype py_value =
    PyNone
  | PyStr string
  | PySeq "py_value list"
  | PySet "py_value list"
  | PyUnhashable
  | PyOther

type_synonym py_mapping = "(string \<times> py_value) list"

definition read_value :: "py_mapping \<Rightarrow> string \<Rightarrow> py_value" where
  "read_value payload key = (case map_of payload key of None \<Rightarrow> PyNone | Some v \<Rightarrow> v)"

text \<open>The permission loop: an unhashable element makes the membership test itself raise.\<close>

fun validate_permissions :: "py_value list \<Rightarrow> exn + permission list" where
  "validate_permissions [] = Inr []"
| "validate_permissions (v # vs) =
     (case v of
        PyStr s \<Rightarrow>
          (case permission_of_str s of
             None \<Rightarrow> Inl (UnauthenticatedError ''unknown permission'')
           | Some p \<Rightarrow> map_sum id ((#) p) (validate_permissions vs))
      | PySeq _ \<Rightarrow> Inl (PyRuntimeError ''TypeError: unhashable type'')
      | PySet _ \<Rightarrow> Inl (PyRuntimeError ''TypeError: unhashable type'')
      | PyUnhashable \<Rightarrow> Inl (PyRuntimeError ''TypeError: unhashable type'')
      | _ \<Rightarrow> Inl (UnauthenticatedError ''unknown permission''))"

definition resolve_role :: "py_value \<Rightarrow> role \<Rightarrow> exn + role" where
  "resolve_role role_value derived =
     (case role_value of
        PyStr s \<Rightarrow>
          (case role_of_str s of
             Some r \<Rightarrow>
               if r \<noteq> derived then Inl (UnauthenticatedError ''role and permissions do not match'')
               else Inr r
           | None \<Rightarrow> Inr derived)
      | _ \<Rightarrow> Inr derived)"

definition permissions_of_value :: "py_value \<Rightarrow> exn + permission set" where
  "permissions_of_value v =
     (case v of
        PySeq vs \<Rightarrow> map_sum id set (validate_permissions vs)
      | PySet vs \<Rightarrow> map_sum id set (validate_permissions vs)
      | _ \<Rightarrow> Inl (UnauthenticatedError ''authenticated user has no permissions''))"

definition identity_from_user_payload :: "py_mapping option \<Rightarrow> exn + authenticated_identity" where
  "identity_from_user_payload p =
     (case p of
        None \<Rightarrow> Inl (UnauthenticatedError ''authenticated user is missing'')
      | Some payload \<Rightarrow>
         (case read_value payload ''identity'' of
            PyStr key \<Rightarrow>
              if strip key = []
              then Inl (UnauthenticatedError ''authenticated user has no identity key'')
              else
               (case decode_identity_key key of
                  Inl _ \<Rightarrow> Inl (UnauthenticatedError ''authenticated user has an invalid identity key'')
                | Inr (tenant_id, user_id) \<Rightarrow>
                   (case permissions_of_value (read_value payload ''permissions'') of
                      Inl e \<Rightarrow> Inl e
                    | Inr permissions \<Rightarrow>
                       (case derive_role permissions of
                          Inl _ \<Rightarrow> Inl (UnauthenticatedError ''permission set does not map to a known role'')
                        | Inr derived \<Rightarrow>
                           (case resolve_role (read_value payload ''role'') derived of
                              Inl e \<Rightarrow> Inl e
                            | Inr role \<Rightarrow>
                                mk_authenticated_identity user_id tenant_id role permissions))))
          | _ \<Rightarrow> Inl (UnauthenticatedError ''authenticated user has no identity key'')))"

definition require_scope :: "py_mapping option \<Rightarrow> exn + access_scope" where
  "require_scope auth_user =
     (case identity_from_user_payload auth_user of Inl e \<Rightarrow> Inl e | Inr i \<Rightarrow> ai_scope i)"

text \<open>The dictionary the authentication handler returns to the graph server.
  \<^verbatim>\<open>sorted(identity.permissions)\<close> lists the permissions by their text.\<close>

definition sorted_permissions :: "permission set \<Rightarrow> permission list" where
  "sorted_permissions ps =
     filter (\<lambda>p. p \<in> ps)
       [Cases_assign, Cases_read_all, Cases_read_assigned, Cases_read_own, Cases_update_all,
        Cases_update_assigned, Orders_operate_own, Orders_read_own, Provider_ops_read,
        Provider_ops_redrive]"

definition auth_user_payload :: "authenticated_identity \<Rightarrow> exn + py_mapping" where
  "auth_user_payload i =
     (case ai_identity_key i of
        Inl e \<Rightarrow> Inl e
      | Inr key \<Rightarrow> Inr
          [(''identity'', PyStr key),
           (''display_name'', PyStr (role_str (ai_role i) @ '':'' @ ai_user_id i)),
           (''is_authenticated'', PyOther),
           (''permissions'',
              PySeq (map (PyStr \<circ> permission_str) (sorted_permissions (ai_permissions i)))),
           (''user_id'', PyStr (ai_user_id i)),
           (''tenant_id'', PyStr (ai_tenant_id i)),
           (''role'', PyStr (role_str (ai_role i)))])"

definition owner_filter :: "authenticated_identity \<Rightarrow> (string \<times> string) list" where
  "owner_filter i = [(''owner_user_id'', ai_user_id i), (''tenant_id'', ai_tenant_id i)]"

section \<open>Verified token claims\<close>

record claim_mapping =
  cm_user_id_claim :: string
  cm_tenant_id_claim :: string
  cm_groups_claim :: string
  cm_role_groups :: "(role \<times> string list) list"

fun role_groups_ok :: "string list \<Rightarrow> (role \<times> string list) list \<Rightarrow> bool" where
  "role_groups_ok seen [] \<longleftrightarrow> True"
| "role_groups_ok seen ((r, groups) # rest) \<longleftrightarrow>
     groups \<noteq> [] \<and> list_all (\<lambda>g. strip g \<noteq> []) groups
     \<and> list_all (\<lambda>g. strip g \<notin> set seen) groups
     \<and> role_groups_ok (map strip groups @ seen) rest"

definition required_string_claim :: "py_mapping \<Rightarrow> string \<Rightarrow> exn + string" where
  "required_string_claim claims name =
     (case read_value claims name of
        PyStr s \<Rightarrow>
          if strip s = [] then Inl (UnauthenticatedError ''required identity claim is invalid'')
          else Inr (strip s)
      | _ \<Rightarrow> Inl (UnauthenticatedError ''required identity claim is invalid''))"

definition required_string_sequence_claim :: "py_mapping \<Rightarrow> string \<Rightarrow> exn + string list" where
  "required_string_sequence_claim claims name =
     (case read_value claims name of
        PySeq vs \<Rightarrow>
          if vs = [] \<or> list_ex (\<lambda>v. case v of PyStr g \<Rightarrow> strip g = [] | _ \<Rightarrow> True) vs
          then Inl (UnauthenticatedError ''required identity groups claim is invalid'')
          else Inr (map (\<lambda>v. case v of PyStr g \<Rightarrow> strip g | _ \<Rightarrow> []) vs)
      | _ \<Rightarrow> Inl (UnauthenticatedError ''required identity groups claim is invalid''))"

definition matched_roles :: "claim_mapping \<Rightarrow> string list \<Rightarrow> role set" where
  "matched_roles mapping groups =
     set (map fst (filter (\<lambda>(r, allowed). list_ex (\<lambda>g. g \<in> set allowed) groups)
       (cm_role_groups mapping)))"

definition identity_from_verified_claims ::
  "py_mapping \<Rightarrow> claim_mapping \<Rightarrow> exn + authenticated_identity" where
  "identity_from_verified_claims claims mapping =
     (if ''permissions'' \<in> fst ` set claims
      then Inl (UnauthenticatedError ''token permissions are not accepted'')
      else case required_string_claim claims (cm_user_id_claim mapping) of
        Inl e \<Rightarrow> Inl e
      | Inr user_id \<Rightarrow>
         (case required_string_claim claims (cm_tenant_id_claim mapping) of
            Inl e \<Rightarrow> Inl e
          | Inr tenant_id \<Rightarrow>
             (case required_string_sequence_claim claims (cm_groups_claim mapping) of
                Inl e \<Rightarrow> Inl e
              | Inr groups \<Rightarrow>
                 (case filter (\<lambda>r. r \<in> matched_roles mapping groups) all_roles of
                    [role] \<Rightarrow>
                      (case mk_authenticated_identity user_id tenant_id role (role_permissions role) of
                         Inl _ \<Rightarrow> Inl (UnauthenticatedError ''identity claims are invalid'')
                       | Inr i \<Rightarrow> Inr i)
                  | _ \<Rightarrow> Inl (UnauthenticatedError ''identity role mapping is invalid'')))))"

section \<open>Lemmas\<close>

lemmas auth_defs = sc_identity_def sc_customer_id_def customer_owned_visibility_def
  has_permission_def has_any_permission_def

lemma role_of_str_role_str [simp]: "role_of_str (role_str r) = Some r"
  by (cases r) (simp_all add: role_of_str_def all_roles_def)

lemma permission_of_str_permission_str [simp]: "permission_of_str (permission_str p) = Some p"
  by (cases p) (simp_all add: permission_of_str_def all_permissions_def)

lemma role_permissions_inj:
  assumes "role_permissions r = role_permissions r'"
  shows "r = r'"
proof -
  have "Orders_read_own \<in> role_permissions r \<longleftrightarrow> r = Customer"
    "Cases_assign \<in> role_permissions r \<longleftrightarrow> r = Supervisor" for r
    by (cases r; simp)+
  with assms show ?thesis by (cases r; cases r') metis+
qed

lemma derive_role_iff: "derive_role ps = Inr r \<longleftrightarrow> ps = role_permissions r"
proof
  assume "derive_role ps = Inr r"
  then have "find (\<lambda>r. ps = role_permissions r) all_roles = Some r"
    by (simp add: derive_role_def split: option.splits)
  then show "ps = role_permissions r" using find_SomeD by fastforce
next
  assume ps: "ps = role_permissions r"
  have "r \<in> set all_roles" by (cases r) (simp_all add: all_roles_def)
  then have "find (\<lambda>r. ps = role_permissions r) all_roles = Some r"
    by (rule find_unique[where k = id, rotated]) (auto simp: ps all_roles_def dest: role_permissions_inj)
  then show "derive_role ps = Inr r" by (simp add: derive_role_def)
qed

lemma validate_identity_partD:
  assumes "validate_identity_part v b = Inr ()"
  shows "CHR '':'' \<notin> set v" and "v \<noteq> []" and "b \<Longrightarrow> v \<noteq> ''legacy''"
  using assms by (auto simp: validate_identity_part_def strip_def strip_by_def is_space_def
      split: if_splits)

lemma validate_identity_part_unit: "validate_identity_part v b = Inr u \<longleftrightarrow> validate_identity_part v b = Inr ()"
  by simp

lemma encode_identity_key_eq:
  "encode_identity_key t u = Inr k \<longleftrightarrow> valid_identity_parts t u \<and> k = t @ '':'' @ u"
  by (auto simp: encode_identity_key_def valid_identity_parts_def split: sum.splits)

lemma decode_identity_key_eq:
  "decode_identity_key k = Inr (t, u) \<longleftrightarrow> valid_identity_parts t u \<and> k = t @ '':'' @ u"
proof -
  have shape: "\<exists>t u. k = t @ '':'' @ u \<and> CHR '':'' \<notin> set t \<and> CHR '':'' \<notin> set u"
    if "count_list k (CHR '':'') = 1"
  proof -
    have "CHR '':'' \<in> set k" using that count_notin by fastforce
    then obtain t u where k: "k = t @ CHR '':'' # u" "CHR '':'' \<notin> set t"
      by (meson split_list_first)
    with that have "count_list u (CHR '':'') = 0" by simp
    with k show ?thesis by (auto simp: count_list_0_iff)
  qed
  have split: "takeWhile (\<lambda>c. c \<noteq> CHR '':'') (t @ CHR '':'' # u) = t"
    "tl (dropWhile (\<lambda>c. c \<noteq> CHR '':'') (t @ CHR '':'' # u)) = u" if "CHR '':'' \<notin> set t" for t u
    using that by (induction t) auto
  have count: "count_list (t @ '':'' @ u) (CHR '':'') = 1" if "CHR '':'' \<notin> set t" "CHR '':'' \<notin> set u"
    for t u using that by simp
  show ?thesis
  proof
    assume dec: "decode_identity_key k = Inr (t, u)"
    then have "count_list k (CHR '':'') = 1" by (auto simp: decode_identity_key_def split: if_splits)
    from shape[OF this] obtain t' u' where k: "k = t' @ '':'' @ u'" "CHR '':'' \<notin> set t'" "CHR '':'' \<notin> set u'"
      by blast
    with dec show "valid_identity_parts t u \<and> k = t @ '':'' @ u"
      by (auto simp: decode_identity_key_def split Let_def valid_identity_parts_def
          split: if_splits sum.splits)
  next
    assume "valid_identity_parts t u \<and> k = t @ '':'' @ u"
    then show "decode_identity_key k = Inr (t, u)"
      using count[of t u] split[of t u] validate_identity_partD(1)
      by (auto simp: decode_identity_key_def valid_identity_parts_def Let_def)
  qed
qed

text \<open>Every identity of the payload boundary carries exactly its role's permissions.\<close>

definition canonical_identity :: "authenticated_identity \<Rightarrow> bool" where
  "canonical_identity i \<longleftrightarrow>
     ai_permissions i = role_permissions (ai_role i)
     \<and> valid_identity_parts (ai_tenant_id i) (ai_user_id i)
     \<and> trim (ai_tenant_id i) = ai_tenant_id i \<and> trim (ai_user_id i) = ai_user_id i"

lemma mk_authenticated_identity_Inr:
  "mk_authenticated_identity u t r ps = Inr i \<Longrightarrow>
     i = \<lparr>ai_user_id = trim u, ai_tenant_id = trim t, ai_role = r, ai_permissions = ps\<rparr>
     \<and> valid_identity_parts (trim t) (trim u)"
  by (auto simp: mk_authenticated_identity_def Let_def split: if_splits)

lemma identity_from_user_payload_canonical:
  assumes "identity_from_user_payload p = Inr i"
  shows "canonical_identity i"
proof -
  have role: "r = d" if "resolve_role v d = Inr r" for v r d
    using that by (auto simp: resolve_role_def split: py_value.splits option.splits if_splits)
  show ?thesis
    using assms unfolding identity_from_user_payload_def
    by (auto split: option.splits py_value.splits if_splits sum.splits prod.splits
        dest!: role mk_authenticated_identity_Inr simp: derive_role_iff canonical_identity_def)
qed

lemma identity_from_verified_claims_canonical:
  assumes "identity_from_verified_claims claims mapping = Inr i"
  shows "canonical_identity i"
  using assms unfolding identity_from_verified_claims_def
  by (auto split: if_splits sum.splits list.splits dest!: mk_authenticated_identity_Inr
      simp: canonical_identity_def)

lemma validate_permissions_strs:
  "validate_permissions (map (PyStr \<circ> permission_str) ps) = Inr ps"
  by (induction ps) simp_all

lemma set_sorted_permissions: "set (sorted_permissions ps) = ps"
proof -
  have "p \<in> set (sorted_permissions ps) \<longleftrightarrow> p \<in> ps" for p
    by (cases p) (auto simp: sorted_permissions_def)
  then show ?thesis by blast
qed

lemma payload_roundtrip:
  assumes "canonical_identity i"
  shows "\<exists>p. auth_user_payload i = Inr p \<and> identity_from_user_payload (Some p) = Inr i"
proof -
  define t where "t = ai_tenant_id i"
  define u where "u = ai_user_id i"
  have v: "valid_identity_parts t u" "trim t = t" "trim u = u"
    using assms by (simp_all add: canonical_identity_def t_def u_def)
  have key: "ai_identity_key i = Inr (t @ '':'' @ u)"
    using v by (simp add: ai_identity_key_def encode_identity_key_eq t_def u_def)
  have dec: "decode_identity_key (t @ '':'' @ u) = Inr (t, u)"
    using v by (simp add: decode_identity_key_eq)
  have ne: "strip (t @ '':'' @ u) \<noteq> []"
    by (simp add: strip_def strip_by_eq_Nil is_space_def)
  have "t \<noteq> []" "u \<noteq> []"
    using v validate_identity_partD(2) by (auto simp: valid_identity_parts_def)
  then have mk: "mk_authenticated_identity u t (ai_role i) (ai_permissions i) = Inr i"
    using v by (simp add: mk_authenticated_identity_def t_def u_def)
  have perms: "permissions_of_value
      (PySeq (map (PyStr \<circ> permission_str) (sorted_permissions (ai_permissions i)))) = Inr (ai_permissions i)"
    by (simp only: permissions_of_value_def py_value.case validate_permissions_strs map_sum.simps
        set_sorted_permissions)
  have role: "derive_role (ai_permissions i) = Inr (ai_role i)"
    using assms by (simp add: derive_role_iff canonical_identity_def)
  obtain p where p: "auth_user_payload i = Inr p" by (simp add: auth_user_payload_def key)
  have "read_value p ''identity'' = PyStr (t @ '':'' @ u)"
    "read_value p ''permissions'' = PySeq (map (PyStr \<circ> permission_str) (sorted_permissions (ai_permissions i)))"
    "read_value p ''role'' = PyStr (role_str (ai_role i))"
    using p by (auto simp: auth_user_payload_def key read_value_def)
  then have "identity_from_user_payload (Some p) = Inr i"
    unfolding identity_from_user_payload_def
    using dec ne perms role mk by (simp add: resolve_role_def)
  with p show ?thesis by blast
qed

lemma row_visible_tenant:
  "case_visibility s = Inr v \<Longrightarrow> row_visible v t c a \<Longrightarrow> t = sc_tenant_id s"
  by (auto simp: case_visibility_def split: if_splits option.splits)

lemma customer_owned_visibility_Inr:
  "customer_owned_visibility s = Inr v \<longleftrightarrow>
     sc_role s = Customer \<and> v = Tenant_customer (sc_tenant_id s) (sc_user_id s)"
  by (auto simp: customer_owned_visibility_def sc_customer_id_def)

end
