(* ===== verification/World.thy ===== *)
theory World
  imports Database Auth
begin

text \<open>
  What the services run in: the database, the injected clock and identifier factory, and everything
  else that happens around a repository call. Before its n-th database round trip a service may see
  any change other sessions committed (\<open>en_interfere\<close>), and the round trip itself may fail with
  a pool timeout or a database error, either before anything ran or after the transaction
  committed but before the acknowledgement arrived (\<open>en_fault\<close>). These four functions are
  parameters of the model; a quiet environment is one in which nobody interferes and nothing fails.
\<close>

section \<open>Environment and world\<close>

datatype fault = No_fault | Lost_call | Lost_reply

record environment =
  en_clock :: "nat \<Rightarrow> instant"
  en_uuid :: "nat \<Rightarrow> uuid"
  en_interfere :: "nat \<Rightarrow> db \<Rightarrow> db"
  en_fault :: "nat \<Rightarrow> fault"

record world =
  w_db :: db
  w_calls :: nat
  w_ticks :: nat
  w_ids :: nat

definition start_world :: "db \<Rightarrow> world" where
  "start_world s = \<lparr>w_db = s, w_calls = 0, w_ticks = 0, w_ids = 0\<rparr>"

definition quiet :: "environment \<Rightarrow> bool" where
  "quiet E \<longleftrightarrow> en_interfere E = (\<lambda>_ s. s) \<and> en_fault E = (\<lambda>_. No_fault)"

text \<open>\<^verbatim>\<open>self._clock()\<close> and \<^verbatim>\<open>self._id_factory()\<close>.\<close>

definition clock :: "environment \<Rightarrow> (world, instant) prog" where
  "clock E = (\<lambda>w. (Inr (en_clock E (w_ticks w)), w\<lparr>w_ticks := Suc (w_ticks w)\<rparr>))"

definition id_factory :: "environment \<Rightarrow> (world, uuid) prog" where
  "id_factory E = (\<lambda>w. (Inr (en_uuid E (w_ids w)), w\<lparr>w_ids := Suc (w_ids w)\<rparr>))"

text \<open>One round trip: others interfere, then the call fails as a whole or runs its transaction.\<close>

definition db_call :: "environment \<Rightarrow> exn \<Rightarrow> (db \<Rightarrow> exn + 'a \<times> db) \<Rightarrow> (world, 'a) prog" where
  "db_call E failure f = (\<lambda>w.
     let s = en_interfere E (w_calls w) (w_db w);
         w' = w\<lparr>w_db := s, w_calls := Suc (w_calls w)\<rparr>
     in case en_fault E (w_calls w) of
          Lost_call \<Rightarrow> (Inl failure, w')
        | Lost_reply \<Rightarrow>
            (case f s of
               Inl e \<Rightarrow> (Inl failure, w')
             | Inr (x, s') \<Rightarrow> (Inl failure, w'\<lparr>w_db := s'\<rparr>))
        | No_fault \<Rightarrow>
            (case f s of
               Inl e \<Rightarrow> (Inl e, w')
             | Inr (x, s') \<Rightarrow> (Inr x, w'\<lparr>w_db := s'\<rparr>)))"

section \<open>Weakest preconditions\<close>

lemma wp_clock [wp_rules]:
  "wp (clock E) Q X w = Q (en_clock E (w_ticks w)) (w\<lparr>w_ticks := Suc (w_ticks w)\<rparr>)"
  by (simp add: wp_def clock_def)

lemma wp_id_factory [wp_rules]:
  "wp (id_factory E) Q X w = Q (en_uuid E (w_ids w)) (w\<lparr>w_ids := Suc (w_ids w)\<rparr>)"
  by (simp add: wp_def id_factory_def)

text \<open>In a quiet environment a round trip is its transaction.\<close>

lemma wp_db_call_quiet:
  "quiet E \<Longrightarrow> wp (db_call E failure f) Q X w =
     (let w' = w\<lparr>w_calls := Suc (w_calls w)\<rparr>
      in case f (w_db w) of Inl e \<Rightarrow> X e w' | Inr (x, s') \<Rightarrow> Q x (w'\<lparr>w_db := s'\<rparr>))"
  by (simp add: wp_def db_call_def quiet_def Let_def split: sum.split prod.split)

section \<open>Rely and guarantee\<close>

text \<open>
  A service never owns the tables: between two of its round trips other sessions write too. The
  interface below is what every session relies on and guarantees: \<open>I\<close> holds of every committed
  state, and committed states only move along \<open>R\<close>. What a service learnt from an earlier read
  is a fact about a past state \<open>s1\<close> from which the present one is reached by \<open>R\<close>, so
  \<open>runs s0 m Q\<close> lets a proof carry such facts from one call to the next.
\<close>

locale rely_guarantee =
  fixes I :: "db \<Rightarrow> bool" and R :: "db \<Rightarrow> db \<Rightarrow> bool"
  assumes R_refl: "R s s"
    and R_trans: "R s t \<Longrightarrow> R t u \<Longrightarrow> R s u"
begin

definition env_ok :: "environment \<Rightarrow> bool" where
  "env_ok E \<longleftrightarrow> (\<forall>n s. I s \<longrightarrow> I (en_interfere E n s) \<and> R s (en_interfere E n s))"

definition runs :: "db \<Rightarrow> (world, 'a) prog \<Rightarrow> ('a \<Rightarrow> db \<Rightarrow> bool) \<Rightarrow> bool" where
  "runs s0 m Q \<longleftrightarrow>
     (\<forall>w. I (w_db w) \<longrightarrow> R s0 (w_db w) \<longrightarrow>
        (case m w of (r, w') \<Rightarrow>
           I (w_db w') \<and> R (w_db w) (w_db w')
           \<and> (\<forall>x. r = Inr x \<longrightarrow> (\<exists>s1. R s0 s1 \<and> I s1 \<and> R s1 (w_db w') \<and> Q x s1))))"

lemma quiet_env_ok: "quiet E \<Longrightarrow> env_ok E"
  by (simp add: quiet_def env_ok_def R_refl)

lemma runs_step:
  assumes run: "runs s0 m Q" and w: "I (w_db w)" "R s0 (w_db w)" "m w = (r, w')"
  shows "I (w_db w')" and "R (w_db w) (w_db w')"
    and "r = Inr x \<Longrightarrow> \<exists>s1. R s0 s1 \<and> I s1 \<and> R s1 (w_db w') \<and> Q x s1"
proof -
  from run have "I (w_db w) \<longrightarrow> R s0 (w_db w) \<longrightarrow> (case m w of (r, w') \<Rightarrow>
           I (w_db w') \<and> R (w_db w) (w_db w')
           \<and> (\<forall>x. r = Inr x \<longrightarrow> (\<exists>s1. R s0 s1 \<and> I s1 \<and> R s1 (w_db w') \<and> Q x s1)))"
    unfolding runs_def by (rule spec)
  with w show "I (w_db w')" and "R (w_db w) (w_db w')"
    and "r = Inr x \<Longrightarrow> \<exists>s1. R s0 s1 \<and> I s1 \<and> R s1 (w_db w') \<and> Q x s1" by auto
qed

lemma runsD:
  assumes "\<And>s0. runs s0 m Q" and "I (w_db w)"
  shows "I (w_db (snd (m w))) \<and> R (w_db w) (w_db (snd (m w)))"
proof -
  obtain r w' where m: "m w = (r, w')" by fastforce
  from runs_step(1,2)[OF assms(1) assms(2) R_refl m] show ?thesis by (simp add: m)
qed

lemma runsI:
  assumes "\<And>w r w'. I (w_db w) \<Longrightarrow> R s0 (w_db w) \<Longrightarrow> m w = (r, w') \<Longrightarrow>
      I (w_db w') \<and> R (w_db w) (w_db w') \<and> (\<forall>x. r = Inr x \<longrightarrow> Q x (w_db w'))"
  shows "runs s0 m Q"
  unfolding runs_def
proof (intro allI impI, clarify)
  fix w a b
  assume w: "I (w_db w)" "R s0 (w_db w)" "m w = (a, b)"
  from assms[OF this] have *: "I (w_db b)" "R (w_db w) (w_db b)" "\<And>x. a = Inr x \<Longrightarrow> Q x (w_db b)"
    by blast+
  have "R s0 (w_db b)" using w(2) *(2) by (rule R_trans)
  with * show "I (w_db b) \<and> R (w_db w) (w_db b)
      \<and> (\<forall>x. a = Inr x \<longrightarrow> (\<exists>s1. R s0 s1 \<and> I s1 \<and> R s1 (w_db b) \<and> Q x s1))"
    using R_refl by blast
qed

lemma runs_local:
  assumes "\<And>w. w_db (snd (m w)) = w_db w"
    and "\<And>w x. I (w_db w) \<Longrightarrow> R s0 (w_db w) \<Longrightarrow> fst (m w) = Inr x \<Longrightarrow> Q x (w_db w)"
  shows "runs s0 m Q"
proof (rule runsI)
  fix w r w'
  assume w: "I (w_db w)" "R s0 (w_db w)" "m w = (r, w')"
  then have "w_db w' = w_db w" using assms(1)[of w] by simp
  with w assms(2)[of w] show "I (w_db w') \<and> R (w_db w) (w_db w') \<and> (\<forall>x. r = Inr x \<longrightarrow> Q x (w_db w'))"
    using R_refl by simp
qed

lemma runs_ret: "(\<And>s. I s \<Longrightarrow> R s0 s \<Longrightarrow> Q x s) \<Longrightarrow> runs s0 (ret x) Q"
  by (rule runs_local) (simp_all add: ret_def)

lemma runs_throw: "runs s0 (throw e) Q"
  by (rule runs_local) (simp_all add: throw_def)

lemma runs_lift: "(\<And>x s. I s \<Longrightarrow> R s0 s \<Longrightarrow> r = Inr x \<Longrightarrow> Q x s) \<Longrightarrow> runs s0 (lift r) Q"
  by (rule runs_local) (simp_all add: lift_def)

lemma runs_require: "(\<And>s. I s \<Longrightarrow> R s0 s \<Longrightarrow> b \<Longrightarrow> Q () s) \<Longrightarrow> runs s0 (require b e) Q"
  by (rule runs_local) (simp_all add: require_def ret_def throw_def split: if_splits)

lemma runs_clock: "(\<And>x s. I s \<Longrightarrow> R s0 s \<Longrightarrow> Q x s) \<Longrightarrow> runs s0 (clock E) Q"
  by (rule runs_local) (simp_all add: clock_def)

lemma runs_id_factory: "(\<And>x s. I s \<Longrightarrow> R s0 s \<Longrightarrow> Q x s) \<Longrightarrow> runs s0 (id_factory E) Q"
  by (rule runs_local) (simp_all add: id_factory_def)

lemma runs_db_call:
  assumes E: "env_ok E"
    and f: "\<And>s x s'. I s \<Longrightarrow> R s0 s \<Longrightarrow> f s = Inr (x, s') \<Longrightarrow> I s' \<and> R s s' \<and> Q x s'"
  shows "runs s0 (db_call E e f) Q"
proof (rule runsI)
  fix w r w'
  assume w: "I (w_db w)" "R s0 (w_db w)" and call: "db_call E e f w = (r, w')"
  define s where "s = en_interfere E (w_calls w) (w_db w)"
  have s: "I s" "R (w_db w) s" using E w(1) by (simp_all add: env_ok_def s_def)
  then have s0: "R s0 s" using w(2) R_trans by blast
  consider "w_db w' = s" "\<And>x. r \<noteq> Inr x"
    | x s' where "f s = Inr (x, s')" "w_db w' = s'" "\<And>y. r = Inr y \<Longrightarrow> y = x"
    using call by (auto simp: db_call_def Let_def s_def split: fault.splits sum.splits prod.splits)
  then show "I (w_db w') \<and> R (w_db w) (w_db w') \<and> (\<forall>x. r = Inr x \<longrightarrow> Q x (w_db w'))"
  proof cases
    case 1
    then show ?thesis using s by simp
  next
    case 2
    then show ?thesis using f[OF s(1) s0 2(1)] s(2) R_trans by auto
  qed
qed

lemma runs_bnd:
  assumes m: "runs s0 m Q"
    and k: "\<And>x s1. R s0 s1 \<Longrightarrow> I s1 \<Longrightarrow> Q x s1 \<Longrightarrow> runs s1 (k x) Q'"
  shows "runs s0 (bnd m k) Q'"
  unfolding runs_def
proof (intro allI impI)
  fix w :: world
  assume w: "I (w_db w)" "R s0 (w_db w)"
  obtain r w1 where mw: "m w = (r, w1)" by fastforce
  note w1 = runs_step(1,2)[OF m w mw]
  show "case bnd m k w of (r, w') \<Rightarrow> I (w_db w') \<and> R (w_db w) (w_db w')
      \<and> (\<forall>x. r = Inr x \<longrightarrow> (\<exists>s1. R s0 s1 \<and> I s1 \<and> R s1 (w_db w') \<and> Q' x s1))"
  proof (cases r)
    case (Inl e)
    then show ?thesis using w1 by (simp add: bnd_def mw)
  next
    case (Inr x)
    then obtain s1 where s1: "R s0 s1" "I s1" "R s1 (w_db w1)" "Q x s1"
      using runs_step(3)[OF m w mw] by blast
    obtain r2 w2 where kx: "k x w1 = (r2, w2)" by fastforce
    have k2: "runs s1 (k x) Q'" using k s1 by blast
    note w2 = runs_step[OF k2 w1(1) s1(3) kx]
    have "R (w_db w) (w_db w2)" using w1(2) w2(2) by (rule R_trans)
    moreover have "\<exists>s2. R s0 s2 \<and> I s2 \<and> R s2 (w_db w2) \<and> Q' y s2" if "r2 = Inr y" for y
      using w2(3)[OF that] s1(1) R_trans by blast
    ultimately show ?thesis using Inr mw kx w2(1) by (simp add: bnd_def)
  qed
qed

text \<open>A program that leaves the tables alone may report on the past state it started from.\<close>

lemma runs_past:
  assumes "I s0" and "\<And>w. w_db (snd (m w)) = w_db w" and "\<And>w x. fst (m w) = Inr x \<Longrightarrow> Q x s0"
  shows "runs s0 m Q"
  unfolding runs_def
proof (intro allI impI)
  fix w :: world
  assume w: "I (w_db w)" "R s0 (w_db w)"
  obtain r w' where mw: "m w = (r, w')" by fastforce
  have "w_db w' = w_db w" "\<And>x. r = Inr x \<Longrightarrow> Q x s0"
    using assms(2)[of w] assms(3)[of w] by (simp_all add: mw)
  then show "case m w of (r, w') \<Rightarrow> I (w_db w') \<and> R (w_db w) (w_db w')
      \<and> (\<forall>x. r = Inr x \<longrightarrow> (\<exists>s1. R s0 s1 \<and> I s1 \<and> R s1 (w_db w') \<and> Q x s1))"
    using w assms(1) R_refl by (auto simp: mw)
qed

text \<open>Steps that leave the tables alone need no new state.\<close>

lemma runs_bnd_local:
  assumes db: "\<And>w. w_db (snd (m w)) = w_db w" and P: "\<And>w x. fst (m w) = Inr x \<Longrightarrow> P x"
    and k: "\<And>x. P x \<Longrightarrow> runs s0 (k x) Q"
  shows "runs s0 (bnd m k) Q"
  unfolding runs_def
proof (intro allI impI)
  fix w :: world
  assume w: "I (w_db w)" "R s0 (w_db w)"
  obtain r w1 where mw: "m w = (r, w1)" by fastforce
  have w1: "w_db w1 = w_db w" using db[of w] by (simp add: mw)
  show "case bnd m k w of (r, w') \<Rightarrow> I (w_db w') \<and> R (w_db w) (w_db w')
      \<and> (\<forall>x. r = Inr x \<longrightarrow> (\<exists>s1. R s0 s1 \<and> I s1 \<and> R s1 (w_db w') \<and> Q x s1))"
  proof (cases r)
    case (Inl e)
    then show ?thesis using w w1 R_refl by (simp add: bnd_def mw)
  next
    case (Inr x)
    then have "P x" using P[of w x] by (simp add: mw)
    obtain r2 w2 where kx: "k x w1 = (r2, w2)" by fastforce
    from runs_step[OF k[OF \<open>P x\<close>] _ _ kx] w show ?thesis by (simp add: bnd_def mw Inr kx w1)
  qed
qed

lemma runs_bnd_lift: "(\<And>x. r = Inr x \<Longrightarrow> runs s0 (k x) Q) \<Longrightarrow> runs s0 (bnd (lift r) k) Q"
  by (rule runs_bnd_local[where P = "\<lambda>x. r = Inr x"]) (simp_all add: lift_def)

lemma runs_bnd_require: "(b \<Longrightarrow> runs s0 (k ()) Q) \<Longrightarrow> runs s0 (bnd (require b e) k) Q"
  by (rule runs_bnd_local[where P = "\<lambda>_. b"])
     (simp_all add: require_def ret_def throw_def split: if_splits)

lemma runs_bnd_clock: "(\<And>x. runs s0 (k x) Q) \<Longrightarrow> runs s0 (bnd (clock E) k) Q"
  by (rule runs_bnd_local[where P = "\<lambda>_. True"]) (simp_all add: clock_def)

lemma runs_bnd_id_factory: "(\<And>x. runs s0 (k x) Q) \<Longrightarrow> runs s0 (bnd (id_factory E) k) Q"
  by (rule runs_bnd_local[where P = "\<lambda>_. True"]) (simp_all add: id_factory_def)

lemma runs_bnd_assoc: "runs s0 (bnd m (\<lambda>x. bnd (k x) h)) Q \<Longrightarrow> runs s0 (bnd (bnd m k) h) Q"
proof -
  have "bnd (bnd m k) h = bnd m (\<lambda>x. bnd (k x) h)"
    by (rule ext) (simp add: bnd_def split: prod.split sum.split)
  then show "runs s0 (bnd m (\<lambda>x. bnd (k x) h)) Q \<Longrightarrow> runs s0 (bnd (bnd m k) h) Q" by simp
qed

lemma runs_conseq:
  assumes "runs s0 m Q" and "\<And>x s. I s \<Longrightarrow> Q x s \<Longrightarrow> Q' x s"
  shows "runs s0 m Q'"
  using assms unfolding runs_def by (fastforce split: prod.splits)

lemma runs_try_except:
  assumes "runs s0 m Q" and "\<And>e. runs s0 (h e) Q"
  shows "runs s0 (try_except m h) Q"
  unfolding runs_def
proof (intro allI impI)
  fix w :: world
  assume w: "I (w_db w)" "R s0 (w_db w)"
  obtain r w1 where mw: "m w = (r, w1)" by fastforce
  note w1 = runs_step[OF assms(1) w mw]
  show "case try_except m h w of (r, w') \<Rightarrow> I (w_db w') \<and> R (w_db w) (w_db w')
      \<and> (\<forall>x. r = Inr x \<longrightarrow> (\<exists>s1. R s0 s1 \<and> I s1 \<and> R s1 (w_db w') \<and> Q x s1))"
  proof (cases r)
    case (Inr x)
    then show ?thesis using w1 mw by (simp add: try_except_def)
  next
    case (Inl e)
    obtain r2 w2 where he: "h e w1 = (r2, w2)" by fastforce
    have "R s0 (w_db w1)" using w(2) w1(2) by (rule R_trans)
    note w2 = runs_step[OF assms(2) w1(1) this he]
    have "R (w_db w) (w_db w2)" using w1(2) w2(2) by (rule R_trans)
    then show ?thesis using Inl mw he w2(1,3) by (simp add: try_except_def)
  qed
qed

lemma runs_if: "(b \<Longrightarrow> runs s0 m Q) \<Longrightarrow> (\<not> b \<Longrightarrow> runs s0 n Q) \<Longrightarrow> runs s0 (if b then m else n) Q"
  by simp

lemma runs_option:
  "(x = None \<Longrightarrow> runs s0 m Q) \<Longrightarrow> (\<And>y. x = Some y \<Longrightarrow> runs s0 (n y) Q)
   \<Longrightarrow> runs s0 (case x of None \<Rightarrow> m | Some y \<Rightarrow> n y) Q"
  by (simp split: option.split)

lemma runs_prod:
  "(\<And>a b. x = (a, b) \<Longrightarrow> runs s0 (m a b) Q) \<Longrightarrow> runs s0 (case x of (a, b) \<Rightarrow> m a b) Q"
  by (simp split: prod.split)

lemma runs_attempts:
  assumes body: "\<And>s1. R s0 s1 \<Longrightarrow> runs s1 body (\<lambda>_ _. True)"
    and after: "\<And>s1. R s0 s1 \<Longrightarrow> runs s1 after (\<lambda>_ _. True)"
  shows "runs s0 (attempts n body after) (\<lambda>_ _. True)"
proof -
  have "runs s1 (attempts n body after) (\<lambda>_ _. True)" if "R s0 s1" for s1
    using that
  proof (induction n arbitrary: s1)
    case 0
    then show ?case by (simp add: after)
  next
    case (Suc n)
    show ?case unfolding attempts.simps
    proof (rule runs_bnd[OF body[OF Suc.prems]])
      fix r s2
      assume "R s1 s2"
      with Suc.prems have "R s0 s2" by (rule R_trans)
      then show "runs s2 (case r of Some x \<Rightarrow> ret x | None \<Rightarrow> attempts n body after) (\<lambda>_ _. True)"
        by (cases r) (simp_all add: Suc.IH runs_ret)
    qed
  qed
  then show ?thesis using R_refl by blast
qed

lemmas runs_intros = runs_throw runs_bnd_lift runs_bnd_require runs_bnd_clock runs_bnd_id_factory
  runs_if runs_option runs_prod

end

end
