(* ===== verification/Operation_Policy.thy ===== *)
theory Operation_Policy
  imports Operation_Models
begin

text \<open>
  The deterministic policies of \<^verbatim>\<open>src/agent/operations/policy.py\<close>: may an order be cancelled,
  returned or exchanged, and how is a reported delivery issue handled. Every decision is built
  through the validating constructors, so a result \<^const>\<open>Inl\<close> is an exception of the source.
\<close>

section \<open>Definitions\<close>

definition RETURN_WINDOW_DAYS :: int where
  "RETURN_WINDOW_DAYS = 7"

definition TRACKING_STALLED_HOURS :: int where
  "TRACKING_STALLED_HOURS = 72"

text \<open>\<^verbatim>\<open>_ACTIVE_OPERATION_STATUSES\<close>, restricted to the statuses an existing operation can have:
  every \<^verbatim>\<open>OperationStatus\<close> but \<^verbatim>\<open>rejected\<close>.\<close>

definition active_operation_statuses :: "operation_status list" where
  "active_operation_statuses = [Ext_submitted, Ext_processing, Ext_manual_review, Ext_completed]"

type_synonym currency_thresholds = "(string \<times> rat) list"

definition threshold_for :: "currency_thresholds \<Rightarrow> string \<Rightarrow> rat option" where
  "threshold_for thresholds currency = map_of thresholds currency"

subsection \<open>Decision builders\<close>

definition eligible_decision :: "operation_type \<Rightarrow> string \<Rightarrow> string \<Rightarrow> exn + operation_decision" where
  "eligible_decision operation_type reason_code display_reason =
     mk_operation_decision
       \<lparr>od_outcome = Eligible, od_operation_type = operation_type, od_requires_confirmation = True,
        od_reason_codes = [reason_code], od_display_reason = display_reason,
        od_existing_operation = None, od_case_recommendation = None\<rparr>"

definition manual_decision ::
  "operation_type \<Rightarrow> string \<Rightarrow> string \<Rightarrow> case_priority \<Rightarrow> exn + operation_decision" where
  "manual_decision operation_type reason_code display_reason priority =
     mk_operation_decision
       \<lparr>od_outcome = Outcome_manual_review, od_operation_type = operation_type,
        od_requires_confirmation = True, od_reason_codes = [reason_code],
        od_display_reason = display_reason, od_existing_operation = None,
        od_case_recommendation =
          Some \<lparr>cr_case_type = Rec_order_operation_review, cr_priority = priority,
                cr_reason_codes = [reason_code]\<rparr>\<rparr>"

definition rejected_decision :: "operation_type \<Rightarrow> string \<Rightarrow> string \<Rightarrow> exn + operation_decision" where
  "rejected_decision operation_type reason_code display_reason =
     mk_operation_decision
       \<lparr>od_outcome = Outcome_rejected, od_operation_type = operation_type,
        od_requires_confirmation = False, od_reason_codes = [reason_code],
        od_display_reason = display_reason, od_existing_operation = None,
        od_case_recommendation = None\<rparr>"

definition existing_decision ::
  "operation_type \<Rightarrow> existing_operation \<Rightarrow> exn + operation_decision" where
  "existing_decision operation_type existing =
     mk_operation_decision
       \<lparr>od_outcome = Outcome_existing_operation, od_operation_type = operation_type,
        od_requires_confirmation = False, od_reason_codes = [''operation_already_exists''],
        od_display_reason = ''An existing order operation is already being handled.'',
        od_existing_operation = Some existing, od_case_recommendation = None\<rparr>"

definition delivery_manual ::
  "delivery_issue_type \<Rightarrow> string \<Rightarrow> string \<Rightarrow> case_priority \<Rightarrow> exn + delivery_decision" where
  "delivery_manual issue_type reason_code display_reason priority =
     mk_delivery_decision
       \<lparr>dd_outcome = Delivery_manual_review, dd_issue_type = issue_type,
        dd_reason_codes = [reason_code], dd_display_reason = display_reason,
        dd_case_recommendation =
          Some \<lparr>cr_case_type = Rec_delivery_investigation, cr_priority = priority,
                cr_reason_codes = [reason_code]\<rparr>\<rparr>"

definition delivery_self_service ::
  "delivery_issue_type \<Rightarrow> string \<Rightarrow> string \<Rightarrow> exn + delivery_decision" where
  "delivery_self_service issue_type reason_code display_reason =
     mk_delivery_decision
       \<lparr>dd_outcome = Self_service, dd_issue_type = issue_type, dd_reason_codes = [reason_code],
        dd_display_reason = display_reason, dd_case_recommendation = None\<rparr>"

subsection \<open>Order facts\<close>

definition has_contradictory_lifecycle :: "order_snapshot \<Rightarrow> bool" where
  "has_contradictory_lifecycle s =
     (if os_fulfillment_status s = Delivered \<and> os_delivered_at s = None then True
      else if os_fulfillment_status s \<noteq> Delivered \<and> os_delivered_at s \<noteq> None then True
      else if os_fulfillment_status s = Unfulfilled \<and> os_shipped_at s \<noteq> None then True
      else if os_fulfillment_status s \<in> {Shipped, Delivered} \<and> os_shipped_at s = None then True
      else if os_order_status s = Pending_payment \<and> os_fulfillment_status s \<noteq> Unfulfilled then True
      else if os_order_status s = Cancelled \<and> os_fulfillment_status s \<noteq> Unfulfilled then True
      else (case os_delivered_at s of None \<Rightarrow> False | Some d \<Rightarrow> d < os_created_at s))"

definition conflicting_operation :: "order_snapshot \<Rightarrow> operation_type \<Rightarrow> existing_operation option" where
  "conflicting_operation s operation_type =
     find (\<lambda>x. eo_status x \<in> set active_operation_statuses) (os_existing_operations s)"

text \<open>The checks every evaluation starts with.\<close>

definition validate_request_context :: "string \<Rightarrow> order_snapshot \<Rightarrow> py_datetime \<Rightarrow> exn + instant" where
  "validate_request_context order_id s now =
     (if order_id \<noteq> os_order_id s
      then Inl (ValueError ''request and snapshot must have the same order_id'')
      else case now of
        Naive _ \<Rightarrow> Inl (ValueError ''now must be timezone-aware'')
      | Aware t \<Rightarrow> Inr t)"

subsection \<open>Operations\<close>

definition evaluate_cancellation :: "order_snapshot \<Rightarrow> exn + operation_decision" where
  "evaluate_cancellation s =
     (if os_order_status s = Cancelled
      then mk_operation_decision
             \<lparr>od_outcome = Already_completed, od_operation_type = Cancellation,
              od_requires_confirmation = False, od_reason_codes = [''order_already_cancelled''],
              od_display_reason = ''This order has already been cancelled.'',
              od_existing_operation = None, od_case_recommendation = None\<rparr>
      else if os_payment_status s \<in> {Refund_pending, Refunded}
      then rejected_decision Cancellation ''cancellation_payment_already_refunded''
             ''This order already has a refund in progress or completed.''
      else if os_fulfillment_status s \<in> {Shipped, Delivered}
      then rejected_decision Cancellation ''cancellation_fulfillment_started''
             ''This order can no longer be cancelled after fulfillment has started.''
      else if os_fulfillment_status s = Fulfilment_processing
      then manual_decision Cancellation ''cancellation_fulfillment_processing''
             ''This cancellation needs warehouse review.'' P1
      else if os_order_status s \<in> {Pending_payment, Confirmed}
      then eligible_decision Cancellation ''cancellation_eligible'' ''This order can be cancelled.''
      else manual_decision Cancellation ''cancellation_state_invalid''
             ''This cancellation needs manual review.'' P1)"

definition evaluate_return_or_exchange ::
  "operation_type \<Rightarrow> order_snapshot \<Rightarrow> instant \<Rightarrow> currency_thresholds \<Rightarrow> exn + operation_decision" where
  "evaluate_return_or_exchange operation_type s now thresholds =
     (if os_payment_status s \<in> {Refund_pending, Refunded}
      then rejected_decision operation_type ''operation_payment_already_refunded''
             ''This order already has a refund in progress or completed.''
      else if os_fulfillment_status s \<noteq> Delivered
      then rejected_decision operation_type ''operation_not_delivered''
             ''This order must be delivered before a return or exchange can be requested.''
      else if (case os_delivered_at s of None \<Rightarrow> True | Some d \<Rightarrow> now < d)
      then manual_decision operation_type ''operation_delivery_date_invalid''
             ''Delivery timing needs manual review.'' P1
      else if now > the (os_delivered_at s) + RETURN_WINDOW_DAYS * microseconds_per_day
      then rejected_decision operation_type ''operation_return_window_expired''
             ''This order is past the return and exchange deadline.''
      else
        (case (if operation_type = Return then os_return_eligible s else os_exchange_eligible s) of
           Some False \<Rightarrow>
             rejected_decision operation_type (operation_type_str operation_type @ ''_not_eligible'')
               (''This order is not eligible for '' @ operation_type_str operation_type @ ''.'')
         | None \<Rightarrow>
             manual_decision operation_type (operation_type_str operation_type @ ''_eligibility_unknown'')
               (operation_type_title operation_type @ '' eligibility needs manual review.'') P1
         | Some True \<Rightarrow>
             (case threshold_for thresholds (os_currency s) of
                None \<Rightarrow>
                  manual_decision operation_type ''currency_threshold_unconfigured''
                    ''This currency needs manual review.'' P1
              | Some threshold \<Rightarrow>
                  if operation_type = Return \<and> threshold \<le> os_amount s
                  then manual_decision Return ''return_manual_amount_review''
                         ''This return amount needs manual review.'' P1
                  else eligible_decision operation_type (operation_type_str operation_type @ ''_eligible'')
                         (''This order is eligible for '' @ operation_type_str operation_type @ ''.''))))"

definition evaluate_exchange ::
  "order_snapshot \<Rightarrow> instant \<Rightarrow> currency_thresholds \<Rightarrow> bool option \<Rightarrow> exn + operation_decision" where
  "evaluate_exchange s now thresholds replacement_available =
     (case evaluate_return_or_exchange Exchange s now thresholds of
        Inl e \<Rightarrow> Inl e
      | Inr base_decision \<Rightarrow>
          if od_outcome base_decision \<noteq> Eligible then Inr base_decision
          else (case replacement_available of
                  Some False \<Rightarrow>
                    rejected_decision Exchange ''exchange_replacement_unavailable''
                      ''The requested replacement is unavailable.''
                | None \<Rightarrow>
                    manual_decision Exchange ''exchange_inventory_unknown''
                      ''Replacement availability needs manual review.'' P2
                | Some True \<Rightarrow>
                    eligible_decision Exchange ''exchange_eligible''
                      ''This order is eligible for exchange.''))"

definition evaluate_operation ::
  "order_operation_request \<Rightarrow> order_snapshot \<Rightarrow> py_datetime \<Rightarrow> currency_thresholds \<Rightarrow> bool option
     \<Rightarrow> exn + operation_decision" where
  "evaluate_operation request snapshot now thresholds replacement_available =
     (case validate_request_context (rq_order_id request) snapshot now of
        Inl e \<Rightarrow> Inl e
      | Inr t \<Rightarrow>
         if has_contradictory_lifecycle snapshot
         then manual_decision (rq_operation_type request) ''order_state_invalid''
                ''Order state needs manual review.'' P1
         else (case conflicting_operation snapshot (rq_operation_type request) of
                 Some existing \<Rightarrow> existing_decision (rq_operation_type request) existing
               | None \<Rightarrow>
                  (case rq_operation_type request of
                     Cancellation \<Rightarrow> evaluate_cancellation snapshot
                   | Return \<Rightarrow> evaluate_return_or_exchange Return snapshot t thresholds
                   | Exchange \<Rightarrow> evaluate_exchange snapshot t thresholds replacement_available)))"

subsection \<open>Delivery issues\<close>

definition evaluate_tracking_stalled :: "order_snapshot \<Rightarrow> instant \<Rightarrow> exn + delivery_decision" where
  "evaluate_tracking_stalled s now =
     (if os_fulfillment_status s \<noteq> Shipped
         \<or> (case os_last_tracking_event_at s of None \<Rightarrow> True | Some e \<Rightarrow> now < e)
      then delivery_manual Tracking_stalled ''delivery_data_invalid''
             ''Tracking data needs investigation.'' P1
      else if now - the (os_last_tracking_event_at s) \<ge> TRACKING_STALLED_HOURS * microseconds_per_hour
      then delivery_manual Tracking_stalled ''delivery_tracking_stalled''
             ''Tracking has not updated for 72 hours.'' P1
      else delivery_self_service Tracking_stalled ''delivery_tracking_recent''
             ''Tracking is still updating.'')"

definition evaluate_delayed :: "order_snapshot \<Rightarrow> instant \<Rightarrow> bool \<Rightarrow> exn + delivery_decision" where
  "evaluate_delayed s now investigation_requested =
     (case os_promised_delivery_at s of
        None \<Rightarrow> delivery_manual Delayed ''delivery_data_invalid''
                  ''Delivery timing needs investigation.'' P1
      | Some promised \<Rightarrow>
          if os_fulfillment_status s = Delivered \<or> now \<le> promised
          then delivery_self_service Delayed ''delivery_not_overdue''
                 ''The order is not confirmed as overdue.''
          else if investigation_requested \<or> os_last_tracking_event_at s = None
          then delivery_manual Delayed ''delivery_overdue_investigation''
                 ''The delayed delivery needs investigation.'' P2
          else delivery_self_service Delayed ''delivery_overdue''
                 ''The order is delayed; current tracking is available.'')"

definition evaluate_delivery_issue ::
  "delivery_issue_request \<Rightarrow> order_snapshot \<Rightarrow> py_datetime \<Rightarrow> exn + delivery_decision" where
  "evaluate_delivery_issue request snapshot now =
     (case validate_request_context (dr_order_id request) snapshot now of
        Inl e \<Rightarrow> Inl e
      | Inr t \<Rightarrow>
         if has_contradictory_lifecycle snapshot
         then delivery_manual (dr_issue_type request) ''delivery_data_invalid''
                ''Delivery data needs investigation.'' P1
         else (case dr_issue_type request of
                 Tracking_stalled \<Rightarrow> evaluate_tracking_stalled snapshot t
               | Delayed \<Rightarrow> evaluate_delayed snapshot t (dr_investigation_requested request)
               | Delivery_failed \<Rightarrow>
                   delivery_manual Delivery_failed ''delivery_failed''
                     ''Delivery needs a redelivery or address review.'' P2
               | Marked_delivered_not_received \<Rightarrow>
                   delivery_manual Marked_delivered_not_received ''delivery_marked_received_dispute''
                     ''Your delivery report needs investigation.'' P1
               | Package_damaged \<Rightarrow>
                   delivery_manual Package_damaged ''delivery_damage_claim''
                     ''Your damage report needs review.'' P1
               | Wrong_item_or_missing_parts \<Rightarrow>
                   mk_delivery_decision
                     \<lparr>dd_outcome = Offer_return_exchange, dd_issue_type = Wrong_item_or_missing_parts,
                      dd_reason_codes = [''delivery_wrong_item_or_missing_parts_claim''],
                      dd_display_reason = ''We can evaluate a return or exchange request.'',
                      dd_case_recommendation = None\<rparr>
               | Other_delivery_issue \<Rightarrow>
                   delivery_manual Other_delivery_issue ''delivery_other_issue''
                     ''Your delivery report needs review.'' P2))"

section \<open>Lemmas\<close>

text \<open>The builders never trip the validator of the decision they build.\<close>

lemmas decision_defs = mk_operation_decision_def valid_operation_decision_def
  validate_outcome_fields_def valid_case_recommendation_def

lemma eligible_decision_Inr:
  "rc \<noteq> [] \<Longrightarrow> dr \<noteq> [] \<Longrightarrow> eligible_decision ty rc dr = Inr d \<longleftrightarrow>
     d = \<lparr>od_outcome = Eligible, od_operation_type = ty, od_requires_confirmation = True,
          od_reason_codes = [rc], od_display_reason = dr, od_existing_operation = None,
          od_case_recommendation = None\<rparr>"
  by (auto simp: eligible_decision_def decision_defs)

lemma manual_decision_Inr:
  "rc \<noteq> [] \<Longrightarrow> dr \<noteq> [] \<Longrightarrow> manual_decision ty rc dr pr = Inr d \<longleftrightarrow>
     d = \<lparr>od_outcome = Outcome_manual_review, od_operation_type = ty, od_requires_confirmation = True,
          od_reason_codes = [rc], od_display_reason = dr, od_existing_operation = None,
          od_case_recommendation = Some \<lparr>cr_case_type = Rec_order_operation_review,
            cr_priority = pr, cr_reason_codes = [rc]\<rparr>\<rparr>"
  by (auto simp: manual_decision_def decision_defs)

lemma rejected_decision_Inr:
  "rc \<noteq> [] \<Longrightarrow> dr \<noteq> [] \<Longrightarrow> rejected_decision ty rc dr = Inr d \<longleftrightarrow>
     d = \<lparr>od_outcome = Outcome_rejected, od_operation_type = ty, od_requires_confirmation = False,
          od_reason_codes = [rc], od_display_reason = dr, od_existing_operation = None,
          od_case_recommendation = None\<rparr>"
  by (auto simp: rejected_decision_def decision_defs)

lemma existing_decision_Inr:
  "existing_decision ty x = Inr d \<longleftrightarrow>
     d = \<lparr>od_outcome = Outcome_existing_operation, od_operation_type = ty,
          od_requires_confirmation = False, od_reason_codes = [''operation_already_exists''],
          od_display_reason = ''An existing order operation is already being handled.'',
          od_existing_operation = Some x, od_case_recommendation = None\<rparr>"
  by (auto simp: existing_decision_def decision_defs)

lemma builder_totals:
  "rc \<noteq> [] \<Longrightarrow> dr \<noteq> [] \<Longrightarrow> \<exists>d. eligible_decision ty rc dr = Inr d"
  "rc \<noteq> [] \<Longrightarrow> dr \<noteq> [] \<Longrightarrow> \<exists>d. manual_decision ty rc dr pr = Inr d"
  "rc \<noteq> [] \<Longrightarrow> dr \<noteq> [] \<Longrightarrow> \<exists>d. rejected_decision ty rc dr = Inr d"
  "\<exists>d. existing_decision ty x = Inr d"
  by (simp_all add: eligible_decision_Inr manual_decision_Inr rejected_decision_Inr existing_decision_Inr)

lemma operation_type_str_ne [simp]: "operation_type_str ty \<noteq> []" "operation_type_title ty \<noteq> []"
  by (cases ty; simp)+

lemmas builder_simps = eligible_decision_Inr manual_decision_Inr rejected_decision_Inr
  existing_decision_Inr

lemma mk_operation_decision_valid: "mk_operation_decision d = Inr d' \<Longrightarrow> d' = d \<and> valid_operation_decision d"
  by (auto simp: mk_operation_decision_def split: if_splits)

lemma builders_valid:
  "eligible_decision ty rc dr = Inr d \<Longrightarrow> valid_operation_decision d"
  "manual_decision ty rc dr pr = Inr d \<Longrightarrow> valid_operation_decision d"
  "rejected_decision ty rc dr = Inr d \<Longrightarrow> valid_operation_decision d"
  "existing_decision ty x = Inr d \<Longrightarrow> valid_operation_decision d"
  by (auto simp: eligible_decision_def manual_decision_def rejected_decision_def existing_decision_def
      dest: mk_operation_decision_valid)

lemma evaluate_cancellation_total: "\<exists>d. evaluate_cancellation s = Inr d"
  by (simp add: evaluate_cancellation_def builder_totals decision_defs)

lemma evaluate_return_or_exchange_total: "\<exists>d. evaluate_return_or_exchange ty s t th = Inr d"
  by (simp add: evaluate_return_or_exchange_def builder_totals split: option.split bool.split)

lemma evaluate_exchange_total: "\<exists>d. evaluate_exchange s t th ra = Inr d"
proof -
  obtain d where "evaluate_return_or_exchange Exchange s t th = Inr d"
    using evaluate_return_or_exchange_total by blast
  then show ?thesis
    by (simp add: evaluate_exchange_def builder_totals split: option.split bool.split)
qed

lemma evaluate_operation_total:
  assumes "rq_order_id rq = os_order_id s"
  shows "\<exists>d. evaluate_operation rq s (Aware t) th ra = Inr d"
  by (simp add: evaluate_operation_def validate_request_context_def assms builder_totals
      evaluate_cancellation_total evaluate_return_or_exchange_total evaluate_exchange_total
      split: option.split operation_type.split)

lemma evaluate_parts_valid:
  "evaluate_cancellation s = Inr d \<Longrightarrow> valid_operation_decision d"
  "evaluate_return_or_exchange ty s t th = Inr d \<Longrightarrow> valid_operation_decision d"
  by (auto simp: evaluate_cancellation_def evaluate_return_or_exchange_def
      split: if_splits option.splits bool.splits
      dest: builders_valid mk_operation_decision_valid)

lemma evaluate_exchange_valid: "evaluate_exchange s t th ra = Inr d \<Longrightarrow> valid_operation_decision d"
  by (auto simp: evaluate_exchange_def split: sum.splits if_splits option.splits bool.splits
      dest: builders_valid evaluate_parts_valid)

lemma evaluate_operation_valid:
  "evaluate_operation rq s now th ra = Inr d \<Longrightarrow> valid_operation_decision d"
  by (auto simp: evaluate_operation_def
      split: sum.splits if_splits option.splits operation_type.splits
      dest: builders_valid evaluate_parts_valid evaluate_exchange_valid)

subsection \<open>Eligibility, stated without the code's order of checks\<close>

definition cancellation_spec :: "order_snapshot \<Rightarrow> bool" where
  "cancellation_spec s \<longleftrightarrow>
     os_order_status s \<in> {Pending_payment, Confirmed}
     \<and> os_payment_status s \<notin> {Refund_pending, Refunded} \<and> os_fulfillment_status s = Unfulfilled"

definition return_window_spec :: "order_snapshot \<Rightarrow> instant \<Rightarrow> bool" where
  "return_window_spec s t \<longleftrightarrow>
     os_payment_status s \<notin> {Refund_pending, Refunded} \<and> os_fulfillment_status s = Delivered
     \<and> (\<exists>d. os_delivered_at s = Some d \<and> d \<le> t \<and> t \<le> d + 7 * microseconds_per_day)"

definition eligibility_spec ::
  "operation_type \<Rightarrow> order_snapshot \<Rightarrow> instant \<Rightarrow> currency_thresholds \<Rightarrow> bool option \<Rightarrow> bool" where
  "eligibility_spec ty s t th ra \<longleftrightarrow>
     \<not> has_contradictory_lifecycle s
     \<and> (\<forall>x\<in>set (os_existing_operations s). eo_status x = Ext_rejected)
     \<and> (case ty of
          Cancellation \<Rightarrow> cancellation_spec s
        | Return \<Rightarrow> return_window_spec s t \<and> os_return_eligible s = Some True
            \<and> (\<exists>m. threshold_for th (os_currency s) = Some m \<and> os_amount s < m)
        | Exchange \<Rightarrow> return_window_spec s t \<and> os_exchange_eligible s = Some True
            \<and> threshold_for th (os_currency s) \<noteq> None \<and> ra = Some True)"

lemma conflicting_operation_None:
  "conflicting_operation s ty = None \<longleftrightarrow> (\<forall>x\<in>set (os_existing_operations s). eo_status x = Ext_rejected)"
proof -
  have "st \<in> set active_operation_statuses \<longleftrightarrow> st \<noteq> Ext_rejected" for st
    by (cases st) (simp_all add: active_operation_statuses_def)
  then show ?thesis by (auto simp: conflicting_operation_def find_None_iff)
qed

lemma evaluate_cancellation_outcome:
  "evaluate_cancellation s = Inr d \<Longrightarrow> od_outcome d = Eligible \<longleftrightarrow> cancellation_spec s"
  by (cases "os_order_status s"; cases "os_payment_status s"; cases "os_fulfillment_status s")
     (auto simp: evaluate_cancellation_def cancellation_spec_def builder_simps mk_operation_decision_def
      split: if_splits)

lemma evaluate_return_or_exchange_outcome:
  assumes "evaluate_return_or_exchange ty s t th = Inr d"
  shows "od_outcome d = Eligible \<longleftrightarrow>
     return_window_spec s t
     \<and> (if ty = Return then os_return_eligible s else os_exchange_eligible s) = Some True
     \<and> (\<exists>m. threshold_for th (os_currency s) = Some m \<and> (ty = Return \<longrightarrow> os_amount s < m))"
proof (cases "os_delivered_at s")
  case None
  then show ?thesis
    using assms by (auto simp: evaluate_return_or_exchange_def return_window_spec_def builder_simps
        split: if_splits)
next
  case (Some dl)
  then have w: "return_window_spec s t \<longleftrightarrow>
      os_payment_status s \<notin> {Refund_pending, Refunded} \<and> os_fulfillment_status s = Delivered
      \<and> \<not> t < dl \<and> \<not> t > dl + RETURN_WINDOW_DAYS * microseconds_per_day"
    by (auto simp: return_window_spec_def RETURN_WINDOW_DAYS_def)
  show ?thesis
    using assms Some unfolding w
    by (auto simp: evaluate_return_or_exchange_def builder_simps
        split: if_splits option.splits bool.splits)
qed

lemma evaluate_exchange_outcome:
  assumes "evaluate_exchange s t th ra = Inr d"
  shows "od_outcome d = Eligible \<longleftrightarrow>
     return_window_spec s t \<and> os_exchange_eligible s = Some True
     \<and> threshold_for th (os_currency s) \<noteq> None \<and> ra = Some True"
proof -
  obtain b where b: "evaluate_return_or_exchange Exchange s t th = Inr b"
    using evaluate_return_or_exchange_total by blast
  show ?thesis
    using assms evaluate_return_or_exchange_outcome[OF b]
    by (auto simp: evaluate_exchange_def b builder_simps split: if_splits option.splits bool.splits)
qed

lemma evaluate_operation_outcome:
  assumes "evaluate_operation rq s (Aware t) th ra = Inr d"
  shows "od_outcome d = Eligible \<longleftrightarrow> eligibility_spec (rq_operation_type rq) s t th ra"
proof (cases "has_contradictory_lifecycle s \<or> conflicting_operation s (rq_operation_type rq) \<noteq> None")
  case True
  then show ?thesis using assms
    by (auto simp: evaluate_operation_def validate_request_context_def builder_simps
        eligibility_spec_def conflicting_operation_None[symmetric, of s "rq_operation_type rq"]
        split: if_splits option.splits)
next
  case False
  then show ?thesis using assms
    by (auto simp: evaluate_operation_def validate_request_context_def eligibility_spec_def
        conflicting_operation_None[symmetric, of s "rq_operation_type rq"]
        evaluate_cancellation_outcome evaluate_return_or_exchange_outcome evaluate_exchange_outcome
        split: if_splits operation_type.splits)
qed

subsection \<open>Delivery issues\<close>

lemma delivery_manual_Inr:
  "rc \<noteq> [] \<Longrightarrow> dr \<noteq> [] \<Longrightarrow> delivery_manual ty rc dr pr = Inr d \<longleftrightarrow>
     d = \<lparr>dd_outcome = Delivery_manual_review, dd_issue_type = ty, dd_reason_codes = [rc],
          dd_display_reason = dr,
          dd_case_recommendation = Some \<lparr>cr_case_type = Rec_delivery_investigation,
            cr_priority = pr, cr_reason_codes = [rc]\<rparr>\<rparr>"
  by (auto simp: delivery_manual_def mk_delivery_decision_def valid_delivery_decision_def
      valid_case_recommendation_def)

lemma delivery_self_service_Inr:
  "rc \<noteq> [] \<Longrightarrow> dr \<noteq> [] \<Longrightarrow> delivery_self_service ty rc dr = Inr d \<longleftrightarrow>
     d = \<lparr>dd_outcome = Self_service, dd_issue_type = ty, dd_reason_codes = [rc],
          dd_display_reason = dr, dd_case_recommendation = None\<rparr>"
  by (auto simp: delivery_self_service_def mk_delivery_decision_def valid_delivery_decision_def)

lemmas delivery_builder_simps = delivery_manual_Inr delivery_self_service_Inr

text \<open>When a delivery report is investigated by a person, stated over the order facts.\<close>

definition investigation_spec :: "delivery_issue_request \<Rightarrow> order_snapshot \<Rightarrow> instant \<Rightarrow> bool" where
  "investigation_spec rq s t \<longleftrightarrow>
     has_contradictory_lifecycle s
     \<or> (case dr_issue_type rq of
          Tracking_stalled \<Rightarrow>
            \<not> (os_fulfillment_status s = Shipped
               \<and> (\<exists>e. os_last_tracking_event_at s = Some e \<and> e \<le> t
                    \<and> t < e + 72 * microseconds_per_hour))
        | Delayed \<Rightarrow>
            (case os_promised_delivery_at s of
               None \<Rightarrow> True
             | Some promised \<Rightarrow> os_fulfillment_status s \<noteq> Delivered \<and> promised < t
                 \<and> (dr_investigation_requested rq \<or> os_last_tracking_event_at s = None))
        | Wrong_item_or_missing_parts \<Rightarrow> False
        | _ \<Rightarrow> True)"

lemma evaluate_tracking_stalled_cases:
  "\<exists>d. evaluate_tracking_stalled s t = Inr d \<and> valid_delivery_decision d
     \<and> (dd_outcome d = Delivery_manual_review \<longleftrightarrow>
         \<not> (os_fulfillment_status s = Shipped
            \<and> (\<exists>e. os_last_tracking_event_at s = Some e \<and> e \<le> t
                 \<and> t < e + 72 * microseconds_per_hour)))"
  by (cases "os_last_tracking_event_at s")
     (auto simp: evaluate_tracking_stalled_def TRACKING_STALLED_HOURS_def delivery_builder_simps
       valid_delivery_decision_def valid_case_recommendation_def)

lemma evaluate_delayed_cases:
  "\<exists>d. evaluate_delayed s t requested = Inr d \<and> valid_delivery_decision d
     \<and> (dd_outcome d = Delivery_manual_review \<longleftrightarrow>
         (case os_promised_delivery_at s of
            None \<Rightarrow> True
          | Some promised \<Rightarrow> os_fulfillment_status s \<noteq> Delivered \<and> promised < t
              \<and> (requested \<or> os_last_tracking_event_at s = None)))"
  by (cases "os_promised_delivery_at s")
     (auto simp: evaluate_delayed_def delivery_builder_simps valid_delivery_decision_def
       valid_case_recommendation_def)

lemma evaluate_delivery_issue_cases:
  assumes "dr_order_id rq = os_order_id s"
  shows "\<exists>d. evaluate_delivery_issue rq s (Aware t) = Inr d \<and> valid_delivery_decision d
     \<and> (dd_outcome d = Delivery_manual_review \<longleftrightarrow> investigation_spec rq s t)"
proof (cases "has_contradictory_lifecycle s")
  case True
  then show ?thesis
    by (auto simp: evaluate_delivery_issue_def validate_request_context_def assms investigation_spec_def
        delivery_builder_simps valid_delivery_decision_def valid_case_recommendation_def)
next
  case False
  then show ?thesis
    using evaluate_tracking_stalled_cases[of s t]
      evaluate_delayed_cases[of s t "dr_investigation_requested rq"]
    by (cases "dr_issue_type rq")
       (simp_all add: evaluate_delivery_issue_def validate_request_context_def assms
         investigation_spec_def delivery_builder_simps valid_delivery_decision_def
         valid_case_recommendation_def mk_delivery_decision_def)
qed

end
