(* ===== verification/Case_Policy.thy ===== *)
theory Case_Policy
  imports Case_Models Operation_Policy
begin

text \<open>
  The handoff policy of \<^verbatim>\<open>src/agent/cases/policy.py\<close>: which facts open a support case, of which
  type and priority, how an existing case is merged with a new trigger, and which status
  transitions a case may take.
\<close>

section \<open>Tables\<close>

definition RISK_CATEGORY_ORDER :: "semantic_risk_category list" where
  "RISK_CATEGORY_ORDER = [Self_harm, Violence, Legal, Regulatory, Reputation, Other_risk]"

fun case_type_rank :: "case_type \<Rightarrow> nat" where
  "case_type_rank Safety_review = 0"
| "case_type_rank Staff_conduct_complaint = 1"
| "case_type_rank Business_escalation = 2"
| "case_type_rank Refund_review = 3"
| "case_type_rank Order_operation_review = 4"
| "case_type_rank Delivery_investigation = 5"
| "case_type_rank General_support = 6"
| "case_type_rank Other_complaint = 7"

fun priority_rank :: "case_priority \<Rightarrow> nat" where
  "priority_rank P0 = 0"
| "priority_rank P1 = 1"
| "priority_rank P2 = 2"
| "priority_rank P3 = 3"

definition unresolved_statuses :: "case_status list" where
  "unresolved_statuses = [Open, In_progress, On_hold]"

fun allowed_case_transitions :: "case_status \<Rightarrow> case_status set" where
  "allowed_case_transitions Open = {In_progress}"
| "allowed_case_transitions In_progress = {On_hold, Resolved}"
| "allowed_case_transitions On_hold = {In_progress, Resolved}"
| "allowed_case_transitions Resolved = {Open}"

text \<open>\<^verbatim>\<open>_REASON_POLICIES\<close>: type, priority and description of each reason.\<close>

fun category_case_type :: "semantic_risk_category \<Rightarrow> case_type" where
  "category_case_type Self_harm = Safety_review"
| "category_case_type Violence = Safety_review"
| "category_case_type _ = Business_escalation"

fun hard_description :: "semantic_risk_category \<Rightarrow> string" where
  "hard_description Self_harm = ''A hard-critical self-harm rule matched.''"
| "hard_description Violence = ''A hard-critical violence rule matched.''"
| "hard_description Legal = ''A hard-critical legal rule matched.''"
| "hard_description Regulatory = ''A hard-critical regulatory rule matched.''"
| "hard_description Reputation = ''A hard-critical reputation rule matched.''"
| "hard_description Other_risk = ''An uncategorized hard-critical rule matched.''"

fun semantic_description :: "case_creating_risk_level \<Rightarrow> semantic_risk_category \<Rightarrow> string" where
  "semantic_description l Self_harm =
     ''Semantic classification found '' @ creating_level_str l @ '' self-harm risk.''"
| "semantic_description l Other_risk =
     ''Semantic classification found an uncategorized '' @ creating_level_str l @ '' risk.''"
| "semantic_description l c =
     ''Semantic classification found '' @ creating_level_str l @ '' '' @ risk_category_str c @ '' risk.''"

fun semantic_priority :: "case_creating_risk_level \<Rightarrow> semantic_risk_category \<Rightarrow> case_priority" where
  "semantic_priority Lvl_medium c = P2"
| "semantic_priority l Self_harm = P0"
| "semantic_priority l Violence = P0"
| "semantic_priority l c = P1"

fun reason_policy :: "handoff_reason \<Rightarrow> case_type \<times> case_priority \<times> string" where
  "reason_policy (Hard_critical c) =
     (category_case_type c, (if c \<in> {Self_harm, Violence} then P0 else P1), hard_description c)"
| "reason_policy (Semantic l c) =
     (category_case_type c, semantic_priority l c, semantic_description l c)"
| "reason_policy Refund_manual_review = (Refund_review, P1, ''The refund requires manual review.'')"
| "reason_policy Confirmed_human_request =
     (General_support, P2, ''The user confirmed a request for human support.'')"
| "reason_policy (Staff_conduct Staff_critical) =
     (Staff_conduct_complaint, P0, ''The user reported critical staff conduct.'')"
| "reason_policy (Staff_conduct Staff_high) =
     (Staff_conduct_complaint, P1, ''The user reported serious staff conduct.'')"
| "reason_policy (Staff_conduct Staff_medium) =
     (Staff_conduct_complaint, P1, ''The user reported material staff misconduct.'')"
| "reason_policy (Staff_conduct Staff_low) =
     (Staff_conduct_complaint, P2, ''The user reported a staff service issue.'')"
| "reason_policy Explicit_other_complaint =
     (Other_complaint, P3, ''The user explicitly made another formal complaint.'')"
| "reason_policy Order_state_invalid =
     (Order_operation_review, P1, ''The order state needs manual review.'')"
| "reason_policy Cancellation_fulfillment_processing =
     (Order_operation_review, P1, ''Cancellation needs warehouse review.'')"
| "reason_policy Cancellation_state_invalid =
     (Order_operation_review, P1, ''Cancellation state needs manual review.'')"
| "reason_policy Operation_delivery_date_invalid =
     (Order_operation_review, P1, ''Delivery timing needs manual review.'')"
| "reason_policy Return_eligibility_unknown =
     (Order_operation_review, P1, ''Return eligibility needs manual review.'')"
| "reason_policy Exchange_eligibility_unknown =
     (Order_operation_review, P1, ''Exchange eligibility needs manual review.'')"
| "reason_policy Currency_threshold_unconfigured =
     (Order_operation_review, P1, ''Currency threshold needs manual review.'')"
| "reason_policy Return_manual_amount_review =
     (Order_operation_review, P1, ''Return amount needs manual review.'')"
| "reason_policy Exchange_inventory_unknown =
     (Order_operation_review, P2, ''Replacement inventory needs manual review.'')"
| "reason_policy Provider_delivery_failed =
     (Order_operation_review, P1, ''Provider delivery failed and requires human review.'')"
| "reason_policy Delivery_data_invalid =
     (Delivery_investigation, P1, ''Delivery data needs investigation.'')"
| "reason_policy Delivery_tracking_stalled = (Delivery_investigation, P1, ''Tracking has stalled.'')"
| "reason_policy Delivery_overdue_investigation =
     (Delivery_investigation, P2, ''Delivery delay needs investigation.'')"
| "reason_policy Delivery_failed_reason =
     (Delivery_investigation, P1, ''Delivery failure needs investigation.'')"
| "reason_policy Delivery_marked_received_dispute =
     (Delivery_investigation, P1, ''Marked-delivered dispute needs investigation.'')"
| "reason_policy Delivery_damage_claim =
     (Delivery_investigation, P1, ''Damage claim needs investigation.'')"
| "reason_policy Delivery_other_issue =
     (Delivery_investigation, P2, ''Delivery issue needs investigation.'')"

definition policy_case_type :: "handoff_reason \<Rightarrow> case_type" where
  "policy_case_type r = fst (reason_policy r)"

definition policy_priority :: "handoff_reason \<Rightarrow> case_priority" where
  "policy_priority r = fst (snd (reason_policy r))"

definition policy_description :: "handoff_reason \<Rightarrow> string" where
  "policy_description r = snd (snd (reason_policy r))"

section \<open>Policy functions\<close>

definition deduplicate_reasons :: "handoff_reason list \<Rightarrow> handoff_reason list" where
  "deduplicate_reasons reasons = dedup reasons"

text \<open>\<^verbatim>\<open>min(xs, key=k)\<close> of a non-empty sequence: the first element of least key.\<close>

fun min_by :: "('a \<Rightarrow> nat) \<Rightarrow> 'a \<Rightarrow> 'a list \<Rightarrow> 'a" where
  "min_by k x [] = x"
| "min_by k x (y # ys) = min_by k (if k y < k x then y else x) ys"

fun join_words :: "string list \<Rightarrow> string" where
  "join_words [] = []"
| "join_words [w] = w"
| "join_words (w # ws) = w @ '' '' @ join_words ws"

definition build_display_reason :: "handoff_reason list \<Rightarrow> string" where
  "build_display_reason reasons = join_words (map policy_description (deduplicate_reasons reasons))"

fun creating_level :: "semantic_risk_level option \<Rightarrow> case_creating_risk_level option" where
  "creating_level (Some Risk_medium) = Some Lvl_medium"
| "creating_level (Some Risk_high) = Some Lvl_high"
| "creating_level (Some Risk_critical) = Some Lvl_critical"
| "creating_level _ = None"

text \<open>The reasons in the order the code appends them.\<close>

definition collect_reasons :: "handoff_policy_input \<Rightarrow> handoff_reason list" where
  "collect_reasons i =
     map Hard_critical (filter (\<lambda>c. c \<in> set (hi_hard_critical_categories i)) RISK_CATEGORY_ORDER)
     @ (case creating_level (hi_semantic_risk_level i) of
          None \<Rightarrow> []
        | Some l \<Rightarrow>
            map (Semantic l)
              (filter (\<lambda>c. c \<in> set (hi_semantic_risk_categories i)) RISK_CATEGORY_ORDER))
     @ (case hi_staff_complaint_severity i of None \<Rightarrow> [] | Some s \<Rightarrow> [Staff_conduct s])
     @ (if hi_refund_requires_manual_review i then [Refund_manual_review] else [])
     @ (if hi_human_handoff_confirmed i then [Confirmed_human_request] else [])
     @ (if hi_explicit_other_complaint i then [Explicit_other_complaint] else [])
     @ hi_domain_case_reason_codes i"

definition determine_handoff_policy :: "handoff_policy_input \<Rightarrow> exn + handoff_decision" where
  "determine_handoff_policy i =
     (case deduplicate_reasons (collect_reasons i) of
        [] \<Rightarrow> mk_handoff_decision
                \<lparr>hd_should_create_case = False, hd_case_type = None, hd_priority = None,
                 hd_reason_codes = [], hd_display_reason = []\<rparr>
      | r # rs \<Rightarrow> mk_handoff_decision
                \<lparr>hd_should_create_case = True,
                 hd_case_type = Some (min_by case_type_rank (policy_case_type r) (map policy_case_type rs)),
                 hd_priority = Some (min_by priority_rank (policy_priority r) (map policy_priority rs)),
                 hd_reason_codes = r # rs,
                 hd_display_reason = build_display_reason (r # rs)\<rparr>)"

definition validate_case_status_transition :: "case_status \<Rightarrow> case_status \<Rightarrow> exn + unit" where
  "validate_case_status_transition current target =
     (if current = target then Inr ()
      else if target \<notin> allowed_case_transitions current then Inl InvalidCaseStatusTransition
      else Inr ())"

definition should_append_to_existing_case ::
  "string \<Rightarrow> case_type \<Rightarrow> case_status \<Rightarrow> string \<Rightarrow> case_type \<Rightarrow> bool" where
  "should_append_to_existing_case existing_thread_id existing_case_type existing_status
     incoming_thread_id incoming_case_type \<longleftrightarrow>
     existing_thread_id = incoming_thread_id \<and> existing_case_type = incoming_case_type
     \<and> existing_status \<in> set unresolved_statuses"

definition select_higher_priority :: "case_priority \<Rightarrow> case_priority \<Rightarrow> case_priority" where
  "select_higher_priority current incoming = min_by priority_rank current [incoming]"

section \<open>Lemmas\<close>

lemma min_by_le_start: "k (min_by k z ys) \<le> k z"
proof (induction ys arbitrary: z)
  case (Cons y ys)
  have "k (min_by k (if k y < k z then y else z) ys) \<le> k (if k y < k z then y else z)" by (rule Cons.IH)
  then show ?case by (auto split: if_splits)
qed simp

lemma min_by_le: "x = z \<or> x \<in> set ys \<Longrightarrow> k (min_by k z ys) \<le> k x"
proof (induction ys arbitrary: z)
  case Nil
  then show ?case by simp
next
  case (Cons y ys)
  show ?case
  proof (cases "x \<in> set ys")
    case True
    then show ?thesis by (auto intro: Cons.IH)
  next
    case False
    with Cons.prems have "x = z \<or> x = y" by auto
    then show ?thesis
      using min_by_le_start[of k "if k y < k z then y else z" ys] by (auto split: if_splits)
  qed
qed

lemma min_by_in: "min_by k z ys = z \<or> min_by k z ys \<in> set ys"
proof (induction ys arbitrary: z)
  case (Cons y ys)
  show ?case using Cons.IH[of "if k y < k z then y else z"] by (auto split: if_splits)
qed simp

lemma policy_description_ne: "policy_description r \<noteq> []"
proof (cases r)
  case (Hard_critical c)
  then show ?thesis by (cases c) (simp_all add: policy_description_def)
next
  case (Semantic l c)
  then show ?thesis by (cases c) (simp_all add: policy_description_def)
next
  case (Staff_conduct s)
  then show ?thesis by (cases s) (simp_all add: policy_description_def)
qed (simp_all add: policy_description_def)

lemma join_words_ne: "ws \<noteq> [] \<Longrightarrow> hd ws \<noteq> [] \<Longrightarrow> join_words ws \<noteq> []"
  by (cases ws rule: join_words.cases) auto

lemma build_display_reason_ne: "rs \<noteq> [] \<Longrightarrow> build_display_reason rs \<noteq> []"
  by (cases rs) (simp_all add: build_display_reason_def deduplicate_reasons_def join_words_ne
      policy_description_ne)

text \<open>What the handoff policy promises: a case exactly when there is a reason, carrying every
  reason once, as urgent as the most urgent of them and of the type of highest precedence.\<close>

definition handoff_spec :: "handoff_policy_input \<Rightarrow> handoff_decision \<Rightarrow> bool" where
  "handoff_spec i d \<longleftrightarrow>
     (hd_should_create_case d \<longleftrightarrow> collect_reasons i \<noteq> [])
     \<and> set (hd_reason_codes d) = set (collect_reasons i) \<and> distinct (hd_reason_codes d)
     \<and> (case hd_priority d of
          None \<Rightarrow> collect_reasons i = []
        | Some p \<Rightarrow> p \<in> policy_priority ` set (collect_reasons i)
            \<and> (\<forall>r\<in>set (collect_reasons i). priority_rank p \<le> priority_rank (policy_priority r)))
     \<and> (case hd_case_type d of
          None \<Rightarrow> collect_reasons i = []
        | Some t \<Rightarrow> t \<in> policy_case_type ` set (collect_reasons i)
            \<and> (\<forall>r\<in>set (collect_reasons i). case_type_rank t \<le> case_type_rank (policy_case_type r)))
     \<and> validate_decision d = Inr ()"

lemma min_by_image:
  assumes "set (r # rs) = R"
  shows "min_by k (f r) (map f rs) \<in> f ` R" and "x \<in> R \<Longrightarrow> k (min_by k (f r) (map f rs)) \<le> k (f x)"
proof -
  show "min_by k (f r) (map f rs) \<in> f ` R"
    using min_by_in[of k "f r" "map f rs"] assms by auto
  show "k (min_by k (f r) (map f rs)) \<le> k (f x)" if "x \<in> R"
    using that assms by (intro min_by_le) auto
qed

lemma determine_handoff_policy_spec:
  "\<exists>d. determine_handoff_policy i = Inr d \<and> handoff_spec i d"
proof (cases "deduplicate_reasons (collect_reasons i)")
  case Nil
  then have "set (deduplicate_reasons (collect_reasons i)) = {}" by simp
  then have "collect_reasons i = []" by (simp add: deduplicate_reasons_def)
  with Nil show ?thesis
    by (simp add: determine_handoff_policy_def mk_handoff_decision_def validate_decision_def
        handoff_spec_def)
next
  case (Cons r rs)
  then have set: "set (r # rs) = set (collect_reasons i)"
    by (metis deduplicate_reasons_def set_dedup_from Diff_empty list.set(1))
  then have ne: "collect_reasons i \<noteq> []" by auto
  have dist: "distinct (r # rs)"
    using Cons by (metis deduplicate_reasons_def distinct_dedup_from)
  have disp: "build_display_reason (r # rs) \<noteq> []" by (simp add: build_display_reason_ne)
  show ?thesis
    using Cons disp set ne dist
      min_by_image(1)[OF set, where k = priority_rank and f = policy_priority]
      min_by_image(2)[OF set, where k = priority_rank and f = policy_priority]
      min_by_image(1)[OF set, where k = case_type_rank and f = policy_case_type]
      min_by_image(2)[OF set, where k = case_type_rank and f = policy_case_type]
    by (simp add: determine_handoff_policy_def mk_handoff_decision_def validate_decision_def
        handoff_spec_def del: list.set)
qed

lemma select_higher_priority_rank:
  "priority_rank (select_higher_priority a b) = min (priority_rank a) (priority_rank b)"
  by (simp add: select_higher_priority_def min_def)

lemma priority_rank_inj: "priority_rank a = priority_rank b \<Longrightarrow> a = b"
  by (cases a; cases b) auto

end
