(* ===== verification/History.thy ===== *)
theory History
  imports World Case_Policy
begin

text \<open>
  The contract every session of the application keeps with the shared tables, as an instance of
  the rely-guarantee interface.

  \<^item> \<open>committed\<close>: the schema's integrity (\<open>db_ok\<close>), every stored row can be read back through
    its model class, and replaying the audit trail of an operation or a case yields the status
    (and, for a case, the assignee) stored in its row, and every outbox command carries the
    idempotency key of its aggregate.
  \<^item> \<open>evolves\<close>: rows are never removed, a row changes only together with a greater version,
    the columns that record what was asked are never rewritten, an operation moves along its
    lifecycle, a case never loses a reason code or a risk category, the event tables only grow
    at their end and an outbox command keeps its content.

  The lifecycle of an operation is \<^verbatim>\<open>_ALLOWED_STATUS_TRANSITIONS\<close> of
  \<^verbatim>\<open>operations/service.py\<close> and the one transition a supervisor's redrive adds
  (\<^verbatim>\<open>provider_operations_postgres.py\<close>: manual review back to queued).
\<close>

section \<open>Lifecycle of an operation\<close>

fun allowed_status_transitions :: "operation_record_status \<Rightarrow> operation_record_status set" where
  "allowed_status_transitions Pending_confirmation =
     {Queued, Submitted, Manual_review, Rejected, Cancelled_by_customer}"
| "allowed_status_transitions Queued = {Submitted, Manual_review, Rejected}"
| "allowed_status_transitions Submitted = {Processing, Completed, Rejected}"
| "allowed_status_transitions Processing = {Completed, Rejected}"
| "allowed_status_transitions Manual_review = {Processing, Completed, Rejected}"
| "allowed_status_transitions Completed = {}"
| "allowed_status_transitions Rejected = {}"
| "allowed_status_transitions Cancelled_by_customer = {}"

definition lifecycle_edge :: "operation_record_status \<Rightarrow> operation_record_status \<Rightarrow> bool" where
  "lifecycle_edge a b \<longleftrightarrow> b \<in> allowed_status_transitions a \<or> (a = Manual_review \<and> b = Queued)"

abbreviation lifecycle :: "operation_record_status \<Rightarrow> operation_record_status \<Rightarrow> bool" where
  "lifecycle \<equiv> lifecycle_edge\<^sup>*\<^sup>*"

definition terminal_status :: "operation_record_status \<Rightarrow> bool" where
  "terminal_status a \<longleftrightarrow> allowed_status_transitions a = {}"

lemma lifecycle_terminal: "lifecycle a b \<Longrightarrow> terminal_status a \<Longrightarrow> b = a"
  by (induction rule: converse_rtranclp_induct) (auto simp: terminal_status_def lifecycle_edge_def)

lemma lifecycle_never_pending: "lifecycle a b \<Longrightarrow> b = Pending_confirmation \<Longrightarrow> a = Pending_confirmation"
proof (induction rule: rtranclp_induct)
  case (step y z)
  then show ?case by (cases y) (auto simp: lifecycle_edge_def)
qed

text \<open>A terminal status is exactly one that does not block its order.\<close>

lemma terminal_iff_inactive: "terminal_status a \<longleftrightarrow> a \<notin> set active_statuses"
  by (cases a) (simp_all add: terminal_status_def active_statuses_def)

section \<open>How rows move\<close>

definition same_request :: "order_operation \<Rightarrow> order_operation \<Rightarrow> bool" where
  "same_request r r' \<longleftrightarrow>
     op_operation_id r' = op_operation_id r \<and> op_idempotency_key r' = op_idempotency_key r
     \<and> op_thread_id r' = op_thread_id r \<and> op_source_message_id r' = op_source_message_id r
     \<and> op_order_id r' = op_order_id r \<and> op_operation_type r' = op_operation_type r
     \<and> op_request_reason_code r' = op_request_reason_code r
     \<and> op_replacement_variant_id r' = op_replacement_variant_id r
     \<and> op_request_excerpt r' = op_request_excerpt r \<and> op_order_version r' = op_order_version r
     \<and> op_amount r' = op_amount r \<and> op_currency r' = op_currency r
     \<and> op_created_at r' = op_created_at r \<and> op_customer_id r' = op_customer_id r
     \<and> op_tenant_id r' = op_tenant_id r \<and> op_created_by r' = op_created_by r"

definition operation_advances :: "order_operation \<Rightarrow> order_operation \<Rightarrow> bool" where
  "operation_advances r r' \<longleftrightarrow>
     r' = r \<or> (op_version r < op_version r' \<and> same_request r r' \<and> lifecycle (op_status r) (op_status r'))"

definition same_origin :: "support_case \<Rightarrow> support_case \<Rightarrow> bool" where
  "same_origin c c' \<longleftrightarrow>
     cs_case_id c' = cs_case_id c \<and> cs_thread_id c' = cs_thread_id c
     \<and> cs_source_message_id c' = cs_source_message_id c \<and> cs_case_type c' = cs_case_type c
     \<and> cs_triggering_message_excerpt c' = cs_triggering_message_excerpt c
     \<and> cs_created_at c' = cs_created_at c \<and> cs_customer_id c' = cs_customer_id c
     \<and> cs_tenant_id c' = cs_tenant_id c \<and> cs_created_by c' = cs_created_by c"

definition case_advances :: "support_case \<Rightarrow> support_case \<Rightarrow> bool" where
  "case_advances c c' \<longleftrightarrow>
     c' = c \<or> (cs_version c < cs_version c' \<and> same_origin c c'
        \<and> set (cs_reason_codes c) \<subseteq> set (cs_reason_codes c')
        \<and> set (cs_risk_categories c) \<subseteq> set (cs_risk_categories c'))"

definition same_command :: "outbox_message \<Rightarrow> outbox_message \<Rightarrow> bool" where
  "same_command m m' \<longleftrightarrow>
     ob_command_id m' = ob_command_id m \<and> ob_idempotency_key m' = ob_idempotency_key m
     \<and> ob_tenant_id m' = ob_tenant_id m \<and> ob_customer_id m' = ob_customer_id m
     \<and> ob_aggregate_type m' = ob_aggregate_type m \<and> ob_aggregate_id m' = ob_aggregate_id m
     \<and> ob_command_type m' = ob_command_type m \<and> ob_payload m' = ob_payload m
     \<and> ob_expected_order_version m' = ob_expected_order_version m"

definition rows_evolve :: "('r \<Rightarrow> 'r \<Rightarrow> bool) \<Rightarrow> 'r list \<Rightarrow> 'r list \<Rightarrow> bool" where
  "rows_evolve adv xs ys \<longleftrightarrow> (\<forall>x\<in>set xs. \<exists>y\<in>set ys. adv x y)"

definition grows :: "'r list \<Rightarrow> 'r list \<Rightarrow> bool" where
  "grows xs ys \<longleftrightarrow> take (length xs) ys = xs"

definition evolves :: "db \<Rightarrow> db \<Rightarrow> bool" where
  "evolves s t \<longleftrightarrow>
     rows_evolve operation_advances (order_operations s) (order_operations t)
     \<and> grows (order_operation_events s) (order_operation_events t)
     \<and> rows_evolve case_advances (support_cases s) (support_cases t)
     \<and> grows (support_case_events s) (support_case_events t)
     \<and> rows_evolve same_command (outbox_messages s) (outbox_messages t)"

lemma operation_advances_refl [simp]: "operation_advances r r"
  by (simp add: operation_advances_def)

lemma operation_advances_trans:
  "operation_advances a b \<Longrightarrow> operation_advances b c \<Longrightarrow> operation_advances a c"
  unfolding operation_advances_def same_request_def by (auto intro: rtranclp_trans)

lemma case_advances_refl [simp]: "case_advances c c"
  by (simp add: case_advances_def)

lemma case_advances_trans: "case_advances a b \<Longrightarrow> case_advances b c \<Longrightarrow> case_advances a c"
  unfolding case_advances_def same_origin_def by auto

lemma same_command_refl [simp]: "same_command m m"
  by (simp add: same_command_def)

lemma same_command_trans: "same_command a b \<Longrightarrow> same_command b c \<Longrightarrow> same_command a c"
  by (simp add: same_command_def)

lemma rows_evolve_refl: "(\<And>x. adv x x) \<Longrightarrow> rows_evolve adv xs xs"
  by (auto simp: rows_evolve_def)

lemma rows_evolve_trans:
  assumes "\<And>a b c. adv a b \<Longrightarrow> adv b c \<Longrightarrow> adv a c"
    and "rows_evolve adv xs ys" and "rows_evolve adv ys zs"
  shows "rows_evolve adv xs zs"
  using assms unfolding rows_evolve_def by meson

lemma rows_evolve_append: "(\<And>x. adv x x) \<Longrightarrow> rows_evolve adv xs (xs @ ys)"
  by (auto simp: rows_evolve_def)

lemma rows_evolve_update:
  assumes "\<And>x. adv x x" and "\<And>x. x \<in> set xs \<Longrightarrow> sel x \<Longrightarrow> adv x (upd x)"
  shows "rows_evolve adv xs (update_rows sel upd xs)"
  unfolding rows_evolve_def
proof
  fix x
  assume x: "x \<in> set xs"
  then have "(if sel x then upd x else x) \<in> set (update_rows sel upd xs)"
    by (simp add: update_rows_def)
  then show "\<exists>y\<in>set (update_rows sel upd xs). adv x y"
    using assms x by (metis (full_types))
qed

lemma grows_refl [simp]: "grows xs xs" and grows_append [simp]: "grows xs (xs @ ys)"
  by (simp_all add: grows_def)

lemma grows_iff: "grows xs ys \<longleftrightarrow> (\<exists>zs. ys = xs @ zs)"
  by (auto simp: grows_def) (metis append_take_drop_id)

lemma grows_trans: "grows xs ys \<Longrightarrow> grows ys zs \<Longrightarrow> grows xs zs"
  by (auto simp: grows_iff)

lemma evolves_refl: "evolves s s"
  by (simp add: evolves_def rows_evolve_refl)

lemma evolves_trans: "evolves s t \<Longrightarrow> evolves t u \<Longrightarrow> evolves s u"
  unfolding evolves_def
  by (auto intro: grows_trans rows_evolve_trans[OF operation_advances_trans]
      rows_evolve_trans[OF case_advances_trans] rows_evolve_trans[OF same_command_trans])

section \<open>What holds of committed states\<close>

definition operation_readable :: "order_operation \<Rightarrow> bool" where
  "operation_readable r \<longleftrightarrow> valid_order_operation (trim_order_operation r)"

definition operation_event_readable :: "order_operation_event \<Rightarrow> bool" where
  "operation_event_readable e \<longleftrightarrow> valid_order_operation_event (trim_order_operation_event e)"

definition case_readable :: "support_case \<Rightarrow> bool" where
  "case_readable c \<longleftrightarrow> valid_support_case (trim_support_case c)"

definition case_event_readable :: "support_case_event \<Rightarrow> bool" where
  "case_event_readable e \<longleftrightarrow> valid_support_case_event (trim_support_case_event e)"

definition readable :: "db \<Rightarrow> bool" where
  "readable s \<longleftrightarrow>
     list_all operation_readable (order_operations s)
     \<and> list_all operation_event_readable (order_operation_events s)
     \<and> list_all case_readable (support_cases s)
     \<and> list_all case_event_readable (support_case_events s)"

text \<open>Replaying a trail: each status event must start where the previous one ended.\<close>

fun replay_operation ::
  "operation_record_status \<Rightarrow> order_operation_event list \<Rightarrow> operation_record_status option" where
  "replay_operation st [] = Some st"
| "replay_operation st (e # es) =
     (if oe_event_type e = Status_changed
      then (if oe_previous_status e = Some st
            then (case oe_current_status e of None \<Rightarrow> None | Some st' \<Rightarrow> replay_operation st' es)
            else None)
      else replay_operation st es)"

definition operation_trail :: "db \<Rightarrow> uuid \<Rightarrow> order_operation_event list" where
  "operation_trail s u = filter (\<lambda>e. oe_operation_id e = u) (order_operation_events s)"

type_synonym case_progress = "case_status \<times> string option"

fun replay_case :: "case_progress \<Rightarrow> support_case_event list \<Rightarrow> case_progress option" where
  "replay_case p [] = Some p"
| "replay_case (st, agent) (e # es) =
     (case ce_event_type e of
        Case_status_changed \<Rightarrow>
          (if ce_previous_status e = Some st
           then (case ce_current_status e of
                   None \<Rightarrow> None | Some st' \<Rightarrow> replay_case (st', agent) es)
           else None)
      | Case_assigned \<Rightarrow>
          (if ce_previous_assigned_agent_id e = agent
           then replay_case (st, ce_current_assigned_agent_id e) es
           else None)
      | Provider_update \<Rightarrow> replay_case (st, agent) es
      | Provider_redrive \<Rightarrow> replay_case (st, agent) es
      | _ \<Rightarrow> (if ce_current_status e = Some st then replay_case (st, agent) es else None))"

definition case_trail :: "db \<Rightarrow> uuid \<Rightarrow> support_case_event list" where
  "case_trail s u = filter (\<lambda>e. ce_case_id e = u) (support_case_events s)"

definition case_progress_of :: "support_case \<Rightarrow> case_progress" where
  "case_progress_of c = (cs_status c, map_option trim (cs_assigned_agent_id c))"

definition operations_audited :: "db \<Rightarrow> bool" where
  "operations_audited s \<longleftrightarrow>
     list_all (\<lambda>r. replay_operation Pending_confirmation (operation_trail s (op_operation_id r))
                   = Some (op_status r)) (order_operations s)"

definition cases_audited :: "db \<Rightarrow> bool" where
  "cases_audited s \<longleftrightarrow>
     list_all (\<lambda>c. replay_case (Open, None) (case_trail s (cs_case_id c))
                   = Some (case_progress_of c)) (support_cases s)"

text \<open>An outbox command is keyed by the aggregate it is for.\<close>

definition command_keyed :: "outbox_message \<Rightarrow> bool" where
  "command_keyed m \<longleftrightarrow> ob_idempotency_key m =
     (case ob_aggregate_type m of
        Agg_order_operation \<Rightarrow> operation_command_key (ob_aggregate_id m)
      | Agg_support_case \<Rightarrow> delivery_command_key (ob_aggregate_id m))"

definition commands_keyed :: "db \<Rightarrow> bool" where
  "commands_keyed s \<longleftrightarrow> list_all command_keyed (outbox_messages s)"

definition committed :: "db \<Rightarrow> bool" where
  "committed s \<longleftrightarrow>
     db_ok s \<and> readable s \<and> operations_audited s \<and> cases_audited s \<and> commands_keyed s"

lemma command_keyed_of_command: "valid_command c \<Longrightarrow> command_keyed (outbox_of_command c st a n)"
  by (simp add: command_keyed_def outbox_of_command_def valid_command_key
      split: provider_aggregate_type.split)

text \<open>With the unique index on (tenant, key): one command per aggregate.\<close>

lemma one_command_per_aggregate:
  assumes "committed s" and "a \<in> set (outbox_messages s)" "b \<in> set (outbox_messages s)"
    and "ob_tenant_id a = ob_tenant_id b" "ob_aggregate_type a = ob_aggregate_type b"
      "ob_aggregate_id a = ob_aggregate_id b"
  shows "a = b"
proof -
  have "ob_idempotency_key a = ob_idempotency_key b"
    using assms by (auto simp: committed_def commands_keyed_def command_keyed_def list_all_iff
        split: provider_aggregate_type.splits)
  moreover have "unique_on (\<lambda>_. True) (\<lambda>r. (ob_tenant_id r, ob_idempotency_key r)) (outbox_messages s)"
    using assms(1) by (simp add: committed_def db_ok_def outbox_ok_def)
  ultimately show ?thesis
    using assms(2-4) by (auto dest!: unique_on_eqD[where a = a and b = b])
qed

lemma replay_operation_append:
  "replay_operation st (xs @ ys) = Option.bind (replay_operation st xs) (\<lambda>st'. replay_operation st' ys)"
  by (induction xs arbitrary: st) (auto split: option.split)

lemma replay_case_append:
  "replay_case p (xs @ ys) = Option.bind (replay_case p xs) (\<lambda>p'. replay_case p' ys)"
  by (induction p xs rule: replay_case.induct)
     (auto split: option.split case_event_type.split)

lemma committed_empty: "committed empty_db"
  by (simp add: committed_def db_ok_empty)
     (simp add: readable_def operations_audited_def cases_audited_def commands_keyed_def empty_db_def)

lemma committedD:
  assumes "committed s"
  shows "db_ok s" "readable s" "operations_audited s" "cases_audited s"
    "distinct (map op_operation_id (order_operations s))"
    "distinct (map cs_case_id (support_cases s))" "commands_keyed s"
  using assms by (simp_all add: committed_def db_ok_def operations_ok_def cases_ok_def unique_all)

text \<open>A row seen at some version is still that row as long as its version is.\<close>

lemma evolves_operation:
  assumes "evolves s t" and "r \<in> set (order_operations s)"
  obtains r' where "r' \<in> set (order_operations t)" "operation_advances r r'"
    "op_operation_id r' = op_operation_id r"
  using assms
  by (auto simp: evolves_def rows_evolve_def operation_advances_def same_request_def dest!: bspec)

lemma evolves_same_version:
  assumes "evolves s t" and "committed t" and "r \<in> set (order_operations s)"
    and "q \<in> set (order_operations t)" "op_operation_id q = op_operation_id r"
    and "op_version q = op_version r"
  shows "q = r"
proof -
  obtain r' where r': "r' \<in> set (order_operations t)" "operation_advances r r'"
    "op_operation_id r' = op_operation_id r"
    using evolves_operation[OF assms(1,3)] by blast
  have "q = r'"
    using committedD(5)[OF assms(2)] assms(4,5) r'(1,3) by (metis distinct_map inj_onD)
  then show ?thesis using r'(2) assms(6) by (auto simp: operation_advances_def)
qed

lemma evolves_case:
  assumes "evolves s t" and "r \<in> set (support_cases s)"
  obtains r' where "r' \<in> set (support_cases t)" "case_advances r r'" "cs_case_id r' = cs_case_id r"
  using assms
  by (auto simp: evolves_def rows_evolve_def case_advances_def same_origin_def dest!: bspec)

lemma evolves_case_same_version:
  assumes "evolves s t" and "committed t" and "r \<in> set (support_cases s)"
    and "q \<in> set (support_cases t)" "cs_case_id q = cs_case_id r"
    and "cs_version q = cs_version r"
  shows "q = r"
proof -
  obtain r' where r': "r' \<in> set (support_cases t)" "case_advances r r'" "cs_case_id r' = cs_case_id r"
    using evolves_case[OF assms(1,3)] by blast
  have "q = r'"
    using committedD(6)[OF assms(2)] assms(4,5) r'(1,3) by (metis distinct_map inj_onD)
  then show ?thesis using r'(2) assms(6) by (auto simp: case_advances_def)
qed

interpretation rg: rely_guarantee committed evolves
  by unfold_locales (rule evolves_refl, rule evolves_trans)

end
