(* ===== verification/Versioned_Store.thy ===== *)
theory Versioned_Store
  imports Prelude
begin

text \<open>
  The interface of optimistic locking that both aggregate repositories offer their services: a
  table of rows with a key and a version, and a conditional write that names the version it
  expects. The clients' lemmas are the usual promises: a stale write is refused with the
  repository's conflict error, of the writers that read the same version at most one commits,
  and versions never go back.
\<close>

locale versioned_store =
  fixes rows :: "'s \<Rightarrow> 'r list"
    and key :: "'r \<Rightarrow> 'k"
    and ver :: "'r \<Rightarrow> int"
    and invar :: "'s \<Rightarrow> bool"
    and cond_write :: "'c \<Rightarrow> 'r \<Rightarrow> int \<Rightarrow> 's \<Rightarrow> exn + 's"
    and stale :: exn
  assumes key_distinct: "invar s \<Longrightarrow> distinct (map key (rows s))"
    and write_stale: "(\<And>r. r \<in> set (rows s) \<Longrightarrow> key r = key x \<Longrightarrow> ver r \<noteq> n)
        \<Longrightarrow> cond_write c x n s = Inl stale"
    and write_sets: "invar s \<Longrightarrow> cond_write c x n s = Inr t
        \<Longrightarrow> \<exists>r\<in>set (rows t). key r = key x \<and> ver r = ver x"
    and write_frame: "invar s \<Longrightarrow> cond_write c x n s = Inr t \<Longrightarrow> r \<in> set (rows s)
        \<Longrightarrow> key r \<noteq> key x \<Longrightarrow> r \<in> set (rows t)"
begin

definition versions_grow :: "'s \<Rightarrow> 's \<Rightarrow> bool" where
  "versions_grow s t \<longleftrightarrow> (\<forall>r\<in>set (rows s). \<exists>r'\<in>set (rows t). key r' = key r \<and> ver r \<le> ver r')"

lemma versions_grow_trans: "versions_grow s t \<Longrightarrow> versions_grow t u \<Longrightarrow> versions_grow s u"
  unfolding versions_grow_def by (metis order_trans)

lemma write_hits:
  assumes "cond_write c x n s = Inr t"
  obtains r where "r \<in> set (rows s)" "key r = key x" "ver r = n"
proof (rule ccontr)
  assume "\<not> thesis"
  with that have "\<And>r. r \<in> set (rows s) \<Longrightarrow> key r = key x \<Longrightarrow> ver r \<noteq> n" by blast
  from write_stale[of s x n c, OF this] assms show False by simp
qed

lemma stale_write_refused:
  assumes "invar s" and "r \<in> set (rows s)" and "key r = key x" and "ver r \<noteq> n"
  shows "cond_write c x n s = Inl stale"
proof (rule write_stale)
  fix q
  assume "q \<in> set (rows s)" "key q = key x"
  then have "q = r" using assms key_distinct[OF assms(1)] by (metis distinct_map inj_onD)
  then show "ver q \<noteq> n" using assms(4) by simp
qed

lemma write_versions_grow:
  assumes "invar s" and "cond_write c x n s = Inr t" and "n \<le> ver x"
  shows "versions_grow s t"
  unfolding versions_grow_def
proof
  fix r
  assume r: "r \<in> set (rows s)"
  show "\<exists>r'\<in>set (rows t). key r' = key r \<and> ver r \<le> ver r'"
  proof (cases "key r = key x")
    case False
    then show ?thesis using write_frame[OF assms(1,2) r] by blast
  next
    case True
    obtain q where "q \<in> set (rows s)" "key q = key x" "ver q = n"
      using assms(2) by (rule write_hits)
    with True r have "ver r = n" using key_distinct[OF assms(1)] by (metis distinct_map inj_onD)
    then show ?thesis using write_sets[OF assms(1,2)] True assms(3) by fastforce
  qed
qed

text \<open>Once a writer that expected version \<open>n\<close> has committed, every other writer that expected
  \<open>n\<close> for that key is refused, whatever was committed in between.\<close>

lemma no_lost_update:
  assumes "invar s" and "cond_write c x n s = Inr t" and "n < ver x"
    and "versions_grow t u" and "invar u" and "key y = key x"
  shows "cond_write d y n u = Inl stale"
proof -
  obtain r where r: "r \<in> set (rows t)" "key r = key x" "ver r = ver x"
    using write_sets[OF assms(1,2)] by blast
  then obtain q where q: "q \<in> set (rows u)" "key q = key x" "ver x \<le> ver q"
    using assms(4) by (auto simp: versions_grow_def)
  then show ?thesis
    using assms(3,5,6) by (intro stale_write_refused[of u q]) auto
qed

end

end
