(* ===== verification/Operation_Store.thy ===== *)
theory Operation_Store
  imports History Versioned_Store
begin

text \<open>
  The order-operation repository (\<^verbatim>\<open>src/agent/operations/repository.py\<close> and
  \<^verbatim>\<open>postgres_repository.py\<close>): scoped reads, the atomic creation, the optimistic update and the
  atomic queueing of an operation with its outbox command. Each write is one transaction; the
  lemmas say when a transaction commits and that what it commits keeps the contract of
  \<^verbatim>\<open>History\<close>.
\<close>

section \<open>Errors and guards\<close>

definition raise_unique_violation :: "string \<Rightarrow> exn" where
  "raise_unique_violation cons =
     (if cons = ''uq_order_operations_active_order'' then ActiveOrderOperationConflictError
      else if cons = ''uq_order_operations_source_message'' then DuplicateOperationSourceMessageError
      else if cons \<in> {''order_operations_idempotency_key_key'',
                      ''order_operation_events_idempotency_key_key''}
      then DuplicateOperationIdempotencyError
      else OperationPersistenceError)"

fun operation_sql_exn :: "sql_error \<Rightarrow> exn" where
  "operation_sql_exn (Unique_violation cons) = raise_unique_violation cons"
| "operation_sql_exn _ = OperationPersistenceError"

definition validate_operation_ownership :: "access_scope \<Rightarrow> order_operation \<Rightarrow> exn + unit" where
  "validate_operation_ownership scope x =
     (if op_tenant_id x \<noteq> sc_tenant_id scope
      then Inl (ValueError ''operation tenant_id must match the access scope'')
      else if Some (op_customer_id x) \<noteq> sc_customer_id scope
      then Inl (ValueError ''operation customer_id must match the access scope'')
      else Inr ())"

definition validate_event_ownership :: "access_scope \<Rightarrow> order_operation_event \<Rightarrow> exn + unit" where
  "validate_event_ownership scope e =
     (if oe_tenant_id e \<noteq> sc_tenant_id scope
      then Inl (ValueError ''event tenant_id must match the access scope'')
      else if Some (oe_customer_id e) \<noteq> sc_customer_id scope
      then Inl (ValueError ''event customer_id must match the access scope'')
      else Inr ())"

fun validate_all :: "('a \<Rightarrow> exn + unit) \<Rightarrow> 'a list \<Rightarrow> exn + unit" where
  "validate_all v [] = Inr ()"
| "validate_all v (x # xs) = (case v x of Inl e \<Rightarrow> Inl e | Inr _ \<Rightarrow> validate_all v xs)"

definition revalidate_command_envelope ::
  "provider_command_envelope \<Rightarrow> exn + provider_command_envelope" where
  "revalidate_command_envelope c =
     (case mk_command c of
        Inl _ \<Rightarrow> Inl (ValueError ''command envelope is invalid'') | Inr d \<Rightarrow> Inr d)"

definition validate_event_association ::
  "order_operation \<Rightarrow> order_operation_event \<Rightarrow> exn + unit" where
  "validate_event_association x e =
     (if oe_operation_id e \<noteq> op_operation_id x
      then Inl (ValueError ''event.operation_id must match the operation_id'')
      else if oe_tenant_id e \<noteq> op_tenant_id x
      then Inl (ValueError ''event.tenant_id must match the operation tenant_id'')
      else if oe_customer_id e \<noteq> op_customer_id x
      then Inl (ValueError ''event.customer_id must match the operation customer_id'')
      else Inr ())"

definition validate_operation_command_association ::
  "order_operation \<Rightarrow> order_operation_event list \<Rightarrow> provider_command_envelope \<Rightarrow> int \<Rightarrow> exn + unit" where
  "validate_operation_command_association x events command expected_version =
     (case revalidate_command_envelope command of
        Inl e \<Rightarrow> Inl e
      | Inr c \<Rightarrow>
         if op_status x \<noteq> Queued
         then Inl (ValueError ''queue_operation requires a queued operation'')
         else if op_version x \<noteq> expected_version + 1
         then Inl (ValueError ''operation.version must equal expected_version + 1'')
         else if pc_aggregate_type c \<noteq> Agg_order_operation
         then Inl (ValueError ''command.aggregate_type must be order_operation'')
         else if pc_aggregate_id c \<noteq> op_operation_id x
         then Inl (ValueError ''command.aggregate_id must match the operation_id'')
         else if pc_tenant_id c \<noteq> op_tenant_id x
         then Inl (ValueError ''command.tenant_id must match the operation tenant_id'')
         else if pc_customer_id c \<noteq> op_customer_id x
         then Inl (ValueError ''command.customer_id must match the operation customer_id'')
         else if pc_source_message_id c \<noteq> op_source_message_id x
         then Inl (ValueError ''command.source_message_id must match the operation source_message_id'')
         else if pc_expected_order_version c \<noteq> Some (op_order_version x)
         then Inl (ValueError ''command.expected_order_version must match the operation order_version'')
         else if is_delivery_payload (pc_payload c)
         then Inl (ValueError ''command payload must be an order-operation payload'')
         else if pl_order_id (pc_payload c) \<noteq> op_order_id x
         then Inl (ValueError ''command payload order_id must match the operation order_id'')
         else if pl_operation_type (pc_payload c) \<noteq> op_operation_type x
         then Inl (ValueError ''command payload operation_type must match the operation operation_type'')
         else validate_all (validate_event_association x) events)"

section \<open>Reads\<close>

definition operation_visible :: "visibility \<Rightarrow> order_operation \<Rightarrow> bool" where
  "operation_visible v r \<longleftrightarrow> row_visible v (op_tenant_id r) (op_customer_id r) None"

definition operation_event_visible :: "visibility \<Rightarrow> order_operation_event \<Rightarrow> bool" where
  "operation_event_visible v e \<longleftrightarrow> row_visible v (oe_tenant_id e) (oe_customer_id e) None"

text \<open>\<^verbatim>\<open>_fetch_operation\<close>: at most one row, validated outside the connection block.\<close>

definition fetch_operation ::
  "environment \<Rightarrow> (order_operation list \<Rightarrow> order_operation option) \<Rightarrow> (world, order_operation option) prog" where
  "fetch_operation E query =
     bnd (db_call E OperationPersistenceError (\<lambda>s. Inr (query (order_operations s), s)))
       (\<lambda>row. case row of
          None \<Rightarrow> ret None
        | Some r \<Rightarrow> bnd (lift (mk_order_operation r)) (\<lambda>x. ret (Some x)))"

definition repo_get_operation ::
  "environment \<Rightarrow> access_scope \<Rightarrow> uuid \<Rightarrow> (world, order_operation option) prog" where
  "repo_get_operation E scope operation_id =
     bnd (lift (customer_owned_visibility scope)) (\<lambda>v.
       fetch_operation E (find (\<lambda>r. op_operation_id r = operation_id \<and> operation_visible v r)))"

definition repo_find_by_source_message ::
  "environment \<Rightarrow> access_scope \<Rightarrow> string \<Rightarrow> string \<Rightarrow> (world, order_operation option) prog" where
  "repo_find_by_source_message E scope thread_id source_message_id =
     bnd (lift (customer_owned_visibility scope)) (\<lambda>v.
       fetch_operation E (find (\<lambda>r. op_thread_id r = thread_id
         \<and> op_source_message_id r = source_message_id \<and> operation_visible v r)))"

definition repo_find_event_by_idempotency_key ::
  "environment \<Rightarrow> access_scope \<Rightarrow> string \<Rightarrow> (world, order_operation_event option) prog" where
  "repo_find_event_by_idempotency_key E scope key =
     bnd (lift (customer_owned_visibility scope)) (\<lambda>v.
       bnd (db_call E OperationPersistenceError (\<lambda>s. Inr
           (find (\<lambda>e. oe_idempotency_key e = key \<and> operation_event_visible v e)
             (order_operation_events s), s)))
         (\<lambda>row. case row of
            None \<Rightarrow> ret None
          | Some e \<Rightarrow> bnd (lift (mk_order_operation_event e)) (\<lambda>x. ret (Some x))))"

definition repo_find_active_by_order_id ::
  "environment \<Rightarrow> access_scope \<Rightarrow> string \<Rightarrow> (world, order_operation option) prog" where
  "repo_find_active_by_order_id E scope order_id =
     bnd (lift (customer_owned_visibility scope)) (\<lambda>v.
       fetch_operation E (\<lambda>rows. first_by (\<lambda>r. (op_created_at r, op_operation_id r))
         (filter (\<lambda>r. op_order_id r = order_id \<and> op_status r \<in> set active_statuses
            \<and> operation_visible v r) rows)))"

section \<open>Writes\<close>

text \<open>The transactions, as functions of the tables.\<close>

definition create_operation_tx ::
  "order_operation \<Rightarrow> order_operation_event list \<Rightarrow> db \<Rightarrow> exn + db" where
  "create_operation_tx x events s =
     (case insert_order_operation x s of
        Inl err \<Rightarrow> Inl (operation_sql_exn err)
      | Inr s1 \<Rightarrow>
         (case insert_operation_events events s1 of
            Inl err \<Rightarrow> Inl (operation_sql_exn err) | Inr s2 \<Rightarrow> Inr s2))"

definition update_operation_tx ::
  "visibility \<Rightarrow> order_operation \<Rightarrow> order_operation_event list \<Rightarrow> int \<Rightarrow> db \<Rightarrow> exn + db" where
  "update_operation_tx v x events expected_version s =
     (case update_order_operations
             (\<lambda>r. op_operation_id r = op_operation_id x \<and> op_version r = expected_version
                  \<and> operation_visible v r) (set_operation_columns x) s of
        Inl err \<Rightarrow> Inl (operation_sql_exn err)
      | Inr (rowcount, s1) \<Rightarrow>
         if rowcount \<noteq> 1 then Inl ConcurrentOperationUpdateError
         else (case insert_operation_events events s1 of
                 Inl err \<Rightarrow> Inl (operation_sql_exn err) | Inr s2 \<Rightarrow> Inr s2))"

definition queue_operation_tx ::
  "visibility \<Rightarrow> order_operation \<Rightarrow> order_operation_event list \<Rightarrow> provider_command_envelope
     \<Rightarrow> int \<Rightarrow> db \<Rightarrow> exn + db" where
  "queue_operation_tx v x events command expected_version s =
     (case update_operation_tx v x events expected_version s of
        Inl e \<Rightarrow> Inl e
      | Inr s2 \<Rightarrow>
         (case insert_outbox_message command Out_pending (op_updated_at x) (op_updated_at x) s2 of
            Inl err \<Rightarrow> Inl (operation_sql_exn err) | Inr s3 \<Rightarrow> Inr s3))"

abbreviation commit :: "exn + db \<Rightarrow> exn + unit \<times> db" where
  "commit r \<equiv> map_sum id (Pair ()) r"

definition repo_create_operation_with_events ::
  "environment \<Rightarrow> access_scope \<Rightarrow> order_operation \<Rightarrow> order_operation_event list \<Rightarrow> (world, unit) prog" where
  "repo_create_operation_with_events E scope x events =
     bnd (lift (validate_operation_ownership scope x)) (\<lambda>_.
     bnd (lift (validate_all (validate_event_ownership scope) events)) (\<lambda>_.
       db_call E OperationPersistenceError (\<lambda>s. commit (create_operation_tx x events s))))"

definition repo_update_operation_with_events ::
  "environment \<Rightarrow> access_scope \<Rightarrow> order_operation \<Rightarrow> order_operation_event list \<Rightarrow> int
     \<Rightarrow> (world, unit) prog" where
  "repo_update_operation_with_events E scope x events expected_version =
     bnd (lift (validate_operation_ownership scope x)) (\<lambda>_.
     bnd (lift (validate_all (validate_event_ownership scope) events)) (\<lambda>_.
     bnd (lift (customer_owned_visibility scope)) (\<lambda>v.
       db_call E OperationPersistenceError
         (\<lambda>s. commit (update_operation_tx v x events expected_version s)))))"

definition repo_queue_operation_with_events_and_command ::
  "environment \<Rightarrow> access_scope \<Rightarrow> order_operation \<Rightarrow> order_operation_event list
     \<Rightarrow> provider_command_envelope \<Rightarrow> int \<Rightarrow> (world, unit) prog" where
  "repo_queue_operation_with_events_and_command E scope x events command expected_version =
     bnd (lift (validate_operation_command_association x events command expected_version)) (\<lambda>_.
     bnd (lift (validate_operation_ownership scope x)) (\<lambda>_.
     bnd (lift (validate_all (validate_event_ownership scope) events)) (\<lambda>_.
     bnd (lift (customer_owned_visibility scope)) (\<lambda>v.
       db_call E OperationPersistenceError
         (\<lambda>s. commit (queue_operation_tx v x events command expected_version s))))))"

section \<open>When a transaction commits\<close>

lemma commit_Inr: "commit r = Inr (u, t) \<longleftrightarrow> r = Inr t"
  by (cases r) auto

lemma validate_all_Inr: "validate_all v xs = Inr u \<longleftrightarrow> (\<forall>x\<in>set xs. v x = Inr ())"
  by (induction xs) (auto split: sum.split)

lemma insert_operation_events_Inr:
  "insert_operation_events es s = Inr t \<Longrightarrow>
     t = s\<lparr>order_operation_events := order_operation_events s @ es\<rparr>"
proof (induction es arbitrary: s)
  case (Cons e es)
  then obtain s1 where "insert_operation_event e s = Inr s1" "insert_operation_events es s1 = Inr t"
    by (auto split: sum.splits)
  then show ?case using Cons.IH[of s1] by (simp add: insert_operation_event_Inr)
qed simp

lemma update_operation_tx_Inr:
  assumes "update_operation_tx v x es n s = Inr t" and "committed s"
  obtains r where "r \<in> set (order_operations s)" "op_operation_id r = op_operation_id x"
    "op_version r = n" "operation_visible v r"
    "t = s\<lparr>order_operations := update_rows (\<lambda>q. q = r) (set_operation_columns x) (order_operations s),
           order_operation_events := order_operation_events s @ es\<rparr>"
    "db_ok t"
proof -
  let ?sel = "\<lambda>r. op_operation_id r = op_operation_id x \<and> op_version r = n \<and> operation_visible v r"
  let ?rows = "order_operations s"
  obtain s1 where u: "update_order_operations ?sel (set_operation_columns x) s = Inr (1, s1)"
    and e: "insert_operation_events es s1 = Inr t"
    using assms(1) by (auto simp: update_operation_tx_def split: sum.splits if_splits)
  from u have len: "length (filter ?sel ?rows) = 1"
    and s1: "s1 = s\<lparr>order_operations := update_rows ?sel (set_operation_columns x) ?rows\<rparr>"
    by (auto simp: update_order_operations_def Let_def split: if_splits)
  from len obtain r where "filter ?sel ?rows = [r]" by (auto simp: length_Suc_conv)
  then have "r \<in> set (filter ?sel ?rows)" by simp
  then have r: "r \<in> set ?rows" "?sel r" by simp_all
  have eq: "?sel q \<longleftrightarrow> q = r" if "q \<in> set ?rows" for q
    using that r committedD(5)[OF assms(2)] by (metis distinct_map inj_onD)
  have "update_rows ?sel (set_operation_columns x) ?rows
        = update_rows (\<lambda>q. q = r) (set_operation_columns x) ?rows"
    unfolding update_rows_def by (rule map_cong) (use eq in auto)
  moreover have "db_ok s1"
    by (rule update_order_operations_ok[OF committedD(1)[OF assms(2)] u]) simp_all
  ultimately show ?thesis
    using that[OF r(1)] r(2) insert_operation_events_Inr[OF e] s1 insert_operation_events_ok[OF _ e]
    by simp
qed

section \<open>What a transaction commits keeps the contract\<close>

text \<open>The columns a service may change on the operation it read: an update of \<open>cur\<close> by
  \<^verbatim>\<open>model_copy\<close> and nothing else.\<close>

definition copy_of :: "order_operation \<Rightarrow> order_operation \<Rightarrow> bool" where
  "copy_of cur x \<longleftrightarrow>
     x = cur\<lparr>op_support_case_id := op_support_case_id x,
            op_provider_reference := op_provider_reference x, op_status := op_status x,
            op_updated_at := op_updated_at x, op_version := op_version cur + 1\<rparr>"

lemma copy_ofD:
  assumes "copy_of cur x"
  shows "op_operation_id x = op_operation_id cur" "op_version x = op_version cur + 1"
    "op_tenant_id x = op_tenant_id cur" "op_customer_id x = op_customer_id cur"
    "op_review_case_type x = op_review_case_type cur" "op_review_priority x = op_review_priority cur"
    "op_policy_reason_codes x = op_policy_reason_codes cur"
    "op_display_reason x = op_display_reason cur"
  by (subst assms[unfolded copy_of_def], simp)+

text \<open>A row that can be read stays readable when a copy of what was read is written over it.\<close>

lemma readable_update:
  assumes r: "mk_order_operation r = Inr cur" and x: "copy_of cur x"
    and row: "operation_row_ok (set_operation_columns x r)"
    and ref: "non_empty_option (map_option trim (op_provider_reference x))"
  shows "operation_readable (set_operation_columns x r)"
proof -
  let ?y = "trim_order_operation (set_operation_columns x r)"
  have cur: "cur = trim_order_operation r" "valid_order_operation cur"
    using r unfolding mk_order_operation_Inr by blast+
  have y: "?y = cur\<lparr>op_support_case_id := op_support_case_id x,
      op_provider_reference := map_option trim (op_provider_reference x), op_status := op_status x,
      op_updated_at := op_updated_at x, op_version := op_version cur + 1\<rparr>"
    by (rule order_operation.equality)
       (simp_all add: copy_ofD[OF x] cur(1) trim_order_operation_def set_operation_columns_def comp_def)
  have req: "request_of_operation ?y = request_of_operation cur"
    by (simp add: y request_of_operation_def)
  have c: "op_support_case_id x = None \<or> op_requires_manual_review cur"
    "op_created_at cur \<le> op_updated_at x"
    using row by (simp_all add: operation_row_ok_def cur(1) set_operation_columns_def)
  have "validate_persisted_operation ?y = Inr ()"
    using cur(2) c unfolding valid_order_operation_def validate_persisted_operation_def req
    by (auto simp: y split: sum.splits if_splits)
  then show ?thesis
    using cur(2) ref unfolding operation_readable_def valid_order_operation_def
    by (simp add: y)
qed

lemma operation_trail_append:
  "operation_trail (s\<lparr>order_operations := a, order_operation_events := order_operation_events s @ es\<rparr>) u
   = operation_trail s u @ filter (\<lambda>e. oe_operation_id e = u) es"
  by (simp add: operation_trail_def)

text \<open>No event of an operation that is not in the table.\<close>

lemma operation_trail_new:
  assumes "db_ok s" and "u \<notin> op_operation_id ` set (order_operations s)"
  shows "operation_trail s u = []"
  using assms by (auto simp: db_ok_def operation_events_ok_def operation_trail_def filter_empty_conv)

lemma audited_update:
  assumes "operations_audited s" and r: "r \<in> set (order_operations s)"
    and d: "distinct (map op_operation_id (order_operations s))"
    and evs: "\<And>e. e \<in> set es \<Longrightarrow> oe_operation_id e = op_operation_id r"
    and rep: "replay_operation (op_status r) es = Some (op_status x)"
  shows "operations_audited (s\<lparr>order_operations :=
            update_rows (\<lambda>q. q = r) (set_operation_columns x) (order_operations s),
            order_operation_events := order_operation_events s @ es\<rparr>)"
    (is "operations_audited ?t")
  unfolding operations_audited_def list_all_iff
proof
  fix q
  assume "q \<in> set (order_operations ?t)"
  then consider (new) "q = set_operation_columns x r" | (old) "q \<in> set (order_operations s)" "q \<noteq> r"
    by (auto simp: update_rows_def)
  then show "replay_operation Pending_confirmation (operation_trail ?t (op_operation_id q))
             = Some (op_status q)"
  proof cases
    case new
    have "filter (\<lambda>e. oe_operation_id e = op_operation_id r) es = es" using evs by simp
    then show ?thesis
      using assms(1) r rep new
      by (auto simp: operations_audited_def list_all_iff operation_trail_append
          replay_operation_append)
  next
    case old
    then have "op_operation_id q \<noteq> op_operation_id r" using d r by (metis distinct_map inj_onD)
    then have "filter (\<lambda>e. oe_operation_id e = op_operation_id q) es = []"
      using evs by (auto simp: filter_empty_conv)
    then show ?thesis
      using assms(1) old by (simp add: operations_audited_def list_all_iff operation_trail_append)
  qed
qed

lemma commands_untouched [simp]:
  "commands_keyed (s\<lparr>order_operations := a, order_operation_events := b\<rparr>) = commands_keyed s"
  by (simp add: commands_keyed_def)

lemma operation_cases_untouched [simp]:
  "cases_audited (s\<lparr>order_operations := a, order_operation_events := b\<rparr>) = cases_audited s"
  "cases_audited (s\<lparr>outbox_messages := c\<rparr>) = cases_audited s"
  "operations_audited (s\<lparr>outbox_messages := c\<rparr>) = operations_audited s"
  by (simp_all add: cases_audited_def operations_audited_def case_trail_def operation_trail_def)

lemma same_request_columns [simp]: "same_request r (set_operation_columns x r)"
  by (simp add: same_request_def set_operation_columns_def)

text \<open>The update of an operation read in an earlier state \<open>s1\<close>.\<close>

lemma update_operation_contract:
  assumes s: "committed s" and past: "evolves s1 s" "r0 \<in> set (order_operations s1)"
      "mk_order_operation r0 = Inr cur"
    and tx: "update_operation_tx v x es (op_version cur) s = Inr t"
    and x: "copy_of cur x" "non_empty_option (map_option trim (op_provider_reference x))"
      "lifecycle (op_status cur) (op_status x)"
    and evs: "\<And>e. e \<in> set es \<Longrightarrow> oe_operation_id e = op_operation_id cur \<and> operation_event_readable e"
    and rep: "replay_operation (op_status cur) es = Some (op_status x)"
  shows "committed t \<and> evolves s t"
proof -
  have cur: "cur = trim_order_operation r0" using past(3) by (auto simp: mk_order_operation_Inr)
  obtain r where r: "r \<in> set (order_operations s)" "op_operation_id r = op_operation_id x"
    "op_version r = op_version cur"
    and t: "t = s\<lparr>order_operations := update_rows (\<lambda>q. q = r) (set_operation_columns x) (order_operations s),
           order_operation_events := order_operation_events s @ es\<rparr>"
    and ok: "db_ok t"
    by (rule update_operation_tx_Inr[OF tx s])
  have "r = r0"
    by (rule evolves_same_version[OF past(1) s past(2) r(1)])
       (use r copy_ofD[OF x(1)] in \<open>simp_all add: cur\<close>)
  then have r_cur: "mk_order_operation r = Inr cur" "op_status r = op_status cur"
    "op_operation_id r = op_operation_id cur"
    using past(3) by (simp_all add: cur)
  have "set_operation_columns x r \<in> set (order_operations t)"
    using r(1) by (simp add: t update_rows_def)
  then have row: "operation_row_ok (set_operation_columns x r)"
    using ok by (simp add: db_ok_def operations_ok_def list_all_iff)
  have "operation_readable (set_operation_columns x r)"
    by (rule readable_update[OF r_cur(1) x(1) row x(2)])
  then have "readable t"
    using committedD(2)[OF s] evs by (auto simp: readable_def list_all_iff t update_rows_def)
  moreover have "operations_audited t"
    unfolding t by (rule audited_update[OF committedD(3)[OF s] r(1) committedD(5)[OF s]])
       (use evs rep r_cur in auto)
  moreover have "cases_audited t" "commands_keyed t" using committedD(4,7)[OF s] by (simp_all add: t)
  ultimately have "committed t" using ok by (simp add: committed_def)
  moreover have "evolves s t"
    using x(3) r_cur r(3) copy_ofD(2)[OF x(1)]
    by (auto simp: evolves_def t operation_advances_def rows_evolve_refl intro!: rows_evolve_update)
  ultimately show ?thesis ..
qed

lemma create_operation_contract:
  assumes s: "committed s" and tx: "create_operation_tx x es s = Inr t"
    and x: "operation_readable x" "op_status x = Pending_confirmation"
    and evs: "\<And>e. e \<in> set es \<Longrightarrow> oe_operation_id e = op_operation_id x \<and> operation_event_readable e
        \<and> oe_event_type e \<noteq> Status_changed"
  shows "committed t \<and> evolves s t"
proof -
  obtain s1 where ins: "insert_order_operation x s = Inr s1" and ev: "insert_operation_events es s1 = Inr t"
    using tx by (auto simp: create_operation_tx_def split: sum.splits)
  have ok: "db_ok t"
    using insert_operation_events_ok[OF insert_order_operation_ok[OF committedD(1)[OF s] ins] ev] .
  have new: "op_operation_id x \<notin> op_operation_id ` set (order_operations s)"
    and s1: "s1 = s\<lparr>order_operations := order_operations s @ [x]\<rparr>"
    using ins by (auto simp: insert_order_operation_Inr key_taken_def list_ex_iff)
  have t: "t = s\<lparr>order_operations := order_operations s @ [x],
                order_operation_events := order_operation_events s @ es\<rparr>"
    using insert_operation_events_Inr[OF ev] by (simp add: s1)
  have quiet_events: "replay_operation st (filter P es) = Some st" for st P
    using evs by (induction es) auto
  have "operations_audited t"
    using committedD(3)[OF s] operation_trail_new[OF committedD(1)[OF s] new] x(2) quiet_events
    unfolding operations_audited_def t list_all_iff
    by (simp add: operation_trail_append replay_operation_append ball_Un)
  moreover have "readable t"
    using committedD(2)[OF s] x(1) evs by (auto simp: readable_def list_all_iff t)
  moreover have "cases_audited t" "commands_keyed t" using committedD(4,7)[OF s] by (simp_all add: t)
  ultimately show ?thesis
    using ok by (simp add: committed_def evolves_def t rows_evolve_refl rows_evolve_append)
qed

lemma insert_outbox_contract:
  assumes "committed s" and "insert_outbox_message c st a n s = Inr t" and "valid_command c"
  shows "committed t \<and> evolves s t"
proof -
  have t: "t = s\<lparr>outbox_messages := outbox_messages s @ [outbox_of_command c st a n]\<rparr>"
    using assms(2) by (simp add: insert_outbox_message_Inr)
  then show ?thesis
    using assms insert_outbox_message_ok[OF committedD(1)[OF assms(1)] assms(2)]
    by (simp add: committed_def readable_def commands_keyed_def command_keyed_of_command evolves_def rows_evolve_refl rows_evolve_append)
qed

section \<open>Optimistic locking\<close>

lemma update_operation_tx_stale:
  assumes "\<And>r. r \<in> set (order_operations s) \<Longrightarrow> op_operation_id r = op_operation_id x \<Longrightarrow> op_version r \<noteq> n"
  shows "update_operation_tx v x es n s = Inl ConcurrentOperationUpdateError"
proof -
  have "filter (\<lambda>r. op_operation_id r = op_operation_id x \<and> op_version r = n \<and> operation_visible v r)
          (order_operations s) = []"
    using assms by (auto simp: filter_empty_conv)
  then show ?thesis by (simp add: update_operation_tx_def update_order_operations_def Let_def)
qed

lemma update_operation_tx_rows:
  assumes "committed s" and "update_operation_tx v x es n s = Inr t"
  shows "\<exists>r\<in>set (order_operations t). op_operation_id r = op_operation_id x \<and> op_version r = op_version x"
    and "r \<in> set (order_operations s) \<Longrightarrow> op_operation_id r \<noteq> op_operation_id x
        \<Longrightarrow> r \<in> set (order_operations t)"
proof -
  obtain q where q: "q \<in> set (order_operations s)" "op_operation_id q = op_operation_id x"
    and t: "order_operations t
            = update_rows (\<lambda>r. r = q) (set_operation_columns x) (order_operations s)"
    by (rule update_operation_tx_Inr[OF assms(2,1)]) simp
  have "set_operation_columns x q \<in> set (order_operations t)"
    using q(1) by (simp add: t update_rows_def)
  then show "\<exists>r\<in>set (order_operations t). op_operation_id r = op_operation_id x
      \<and> op_version r = op_version x"
    using q(2) by (intro bexI[of _ "set_operation_columns x q"]) simp_all
  assume "r \<in> set (order_operations s)" "op_operation_id r \<noteq> op_operation_id x"
  then have "r \<noteq> q" using q(2) by auto
  then show "r \<in> set (order_operations t)"
    using \<open>r \<in> set (order_operations s)\<close> by (simp add: t update_rows_def)
qed

interpretation operation_store: versioned_store order_operations op_operation_id op_version committed
  "\<lambda>(v, es) x n s. update_operation_tx v x es n s" ConcurrentOperationUpdateError
  by unfold_locales
     (auto simp: committedD(5) update_operation_tx_stale intro: update_operation_tx_rows)

lemma queue_operation_tx_Inr:
  assumes "queue_operation_tx v x es c n s = Inr t"
  obtains s1 where "update_operation_tx v x es n s = Inr s1"
    "insert_outbox_message c Out_pending (op_updated_at x) (op_updated_at x) s1 = Inr t"
    "order_operations t = order_operations s1"
    "order_operation_events t = order_operation_events s1"
  using assms by (auto simp: queue_operation_tx_def insert_outbox_message_Inr split: sum.splits)

interpretation operation_queue: versioned_store order_operations op_operation_id op_version committed
  "\<lambda>(v, es, c) x n s. queue_operation_tx v x es c n s" ConcurrentOperationUpdateError
  by unfold_locales
     (auto simp: committedD(5) queue_operation_tx_def update_operation_tx_stale
       elim!: queue_operation_tx_Inr[unfolded queue_operation_tx_def] intro: update_operation_tx_rows)

lemma evolves_operation_versions: "evolves t u \<Longrightarrow> operation_store.versions_grow t u"
  unfolding operation_store.versions_grow_def
proof
  fix r
  assume "evolves t u" "r \<in> set (order_operations t)"
  then obtain r' where "r' \<in> set (order_operations u)" "operation_advances r r'"
    "op_operation_id r' = op_operation_id r" by (rule evolves_operation)
  then show "\<exists>r'\<in>set (order_operations u). op_operation_id r' = op_operation_id r \<and> op_version r \<le> op_version r'"
    by (auto simp: operation_advances_def intro!: bexI[of _ r'])
qed

end
