(* ===== verification/Operation_Service.thy ===== *)
theory Operation_Service
  imports Operation_Store Operation_Policy
begin

text \<open>
  \<^verbatim>\<open>OperationService\<close> (\<^verbatim>\<open>src/agent/operations/service.py\<close>): creation of a pending operation from
  a policy decision, the customer's confirmation or refusal, submission, queueing, status updates
  and the link to a support case. Each method is a program over the shared tables; its retry loop
  runs at most \<open>n\<close> times (\<^verbatim>\<open>max_write_attempts\<close>). The order provider is a parameter.
\<close>

section \<open>Helpers\<close>

fun service_action_str :: "operation_service_action \<Rightarrow> string" where
  "service_action_str Act_created = ''created''"
| "service_action_str Act_duplicate_ignored = ''duplicate_ignored''"
| "service_action_str Act_confirmed = ''confirmed''"
| "service_action_str Act_queued = ''queued''"
| "service_action_str Act_submitted = ''submitted''"
| "service_action_str Act_cancelled = ''cancelled''"
| "service_action_str Act_status_changed = ''status_changed''"
| "service_action_str Act_status_unchanged = ''status_unchanged''"
| "service_action_str Act_support_case_attached = ''support_case_attached''"

definition operation_request_key :: "uuid \<Rightarrow> string \<Rightarrow> string \<Rightarrow> string" where
  "operation_request_key operation_id verb request_id =
     ''operation:'' @ uuid_str operation_id @ '':'' @ verb @ '':'' @ request_id"

definition validate_request_metadata :: "string \<Rightarrow> string \<Rightarrow> exn + string \<times> string" where
  "validate_request_metadata request_id actor =
     (if strip request_id = [] then Inl (ValueError ''request_id must not be empty'')
      else if strip actor = [] then Inl (ValueError ''actor must not be empty'')
      else Inr (strip request_id, strip actor))"

definition validate_status_transition ::
  "operation_record_status \<Rightarrow> operation_record_status \<Rightarrow> exn + unit" where
  "validate_status_transition current target =
     (if target \<notin> allowed_status_transitions current then Inl InvalidOperationStatusTransition
      else Inr ())"

definition get_operation ::
  "environment \<Rightarrow> access_scope \<Rightarrow> uuid \<Rightarrow> (world, order_operation) prog" where
  "get_operation E scope operation_id =
     bnd (repo_get_operation E scope operation_id) (\<lambda>x.
       case x of None \<Rightarrow> throw OperationNotFoundError | Some y \<Rightarrow> ret y)"

definition service_result ::
  "operation_service_action \<Rightarrow> order_operation \<Rightarrow> order_operation_event list
     \<Rightarrow> operation_service_result" where
  "service_result action x events = \<lparr>sr_action = action, sr_operation = x, sr_events = events\<rparr>"

definition unchanged_result ::
  "environment \<Rightarrow> access_scope \<Rightarrow> uuid \<Rightarrow> (world, operation_service_result) prog" where
  "unchanged_result E scope operation_id =
     bnd (get_operation E scope operation_id) (\<lambda>x. ret (service_result Act_status_unchanged x []))"

definition operation_event ::
  "uuid \<Rightarrow> string \<Rightarrow> order_operation \<Rightarrow> operation_event_type \<Rightarrow> string \<Rightarrow> instant
     \<Rightarrow> order_operation_event" where
  "operation_event event_id key x event_type actor created_at =
     \<lparr>oe_event_id = event_id, oe_idempotency_key = key, oe_operation_id = op_operation_id x,
      oe_event_type = event_type, oe_previous_status = None, oe_current_status = None,
      oe_provider_reference = None, oe_support_case_id = None, oe_actor = actor,
      oe_customer_id = op_customer_id x, oe_tenant_id = op_tenant_id x, oe_created_at = created_at\<rparr>"

text \<open>\<^verbatim>\<open>_build_status_update\<close>.\<close>

definition build_status_update ::
  "environment \<Rightarrow> order_operation \<Rightarrow> operation_record_status \<Rightarrow> string \<Rightarrow> string \<Rightarrow> string option
     \<Rightarrow> (world, order_operation \<times> order_operation_event) prog" where
  "build_status_update E current target_status key actor provider_reference =
     bnd (clock E) (\<lambda>now.
       let updated = current\<lparr>op_status := target_status,
             op_provider_reference := py_or provider_reference (op_provider_reference current),
             op_updated_at := now, op_version := op_version current + 1\<rparr>
       in bnd (id_factory E) (\<lambda>event_id.
          bnd (lift (mk_order_operation_event
                 ((operation_event event_id key current Status_changed actor now)
                    \<lparr>oe_previous_status := Some (op_status current),
                     oe_current_status := Some target_status,
                     oe_provider_reference := op_provider_reference updated\<rparr>))) (\<lambda>event.
            ret (updated, event))))"

text \<open>The handler shared by the four retry loops: on a version or idempotency conflict, answer
  with the recorded outcome of the same request if there is one, otherwise try again.\<close>

definition replay_or_retry ::
  "environment \<Rightarrow> access_scope \<Rightarrow> string \<Rightarrow> exn \<Rightarrow> (world, operation_service_result option) prog" where
  "replay_or_retry E scope key err =
     (if err \<in> {ConcurrentOperationUpdateError, DuplicateOperationIdempotencyError}
      then bnd (repo_find_event_by_idempotency_key E scope key) (\<lambda>prior.
             case prior of
               Some p \<Rightarrow> bnd (unchanged_result E scope (oe_operation_id p)) (\<lambda>r. ret (Some r))
             | None \<Rightarrow> ret None)
      else throw err)"

definition write_or_replay ::
  "environment \<Rightarrow> access_scope \<Rightarrow> string \<Rightarrow> operation_service_action \<Rightarrow> order_operation
     \<Rightarrow> order_operation \<Rightarrow> order_operation_event list \<Rightarrow> (world, operation_service_result option) prog" where
  "write_or_replay E scope key action current updated events =
     try_except
       (bnd (repo_update_operation_with_events E scope updated events (op_version current))
          (\<lambda>_. ret (Some (service_result action updated events))))
       (replay_or_retry E scope key)"

text \<open>\<^verbatim>\<open>prior = find_event_by_idempotency_key(\<dots>)\<close> and the early return before each loop.\<close>

definition unless_recorded ::
  "environment \<Rightarrow> access_scope \<Rightarrow> string \<Rightarrow> (world, operation_service_result) prog
     \<Rightarrow> (world, operation_service_result) prog" where
  "unless_recorded E scope key body =
     bnd (repo_find_event_by_idempotency_key E scope key) (\<lambda>prior.
       case prior of
         Some p \<Rightarrow> unchanged_result E scope (oe_operation_id p)
       | None \<Rightarrow> body)"

section \<open>Creation\<close>

definition pending_operation ::
  "access_scope \<Rightarrow> string \<Rightarrow> order_operation_request \<Rightarrow> order_snapshot \<Rightarrow> operation_decision
     \<Rightarrow> string \<Rightarrow> string \<Rightarrow> uuid \<Rightarrow> instant \<Rightarrow> order_operation" where
  "pending_operation scope customer_id request snapshot decision request_excerpt created_by
     operation_id now =
     \<lparr>op_operation_id = operation_id,
      op_idempotency_key = ''operation:'' @ rq_thread_id request @ '':''
        @ rq_source_message_id request @ '':created'',
      op_thread_id = rq_thread_id request,
      op_source_message_id = rq_source_message_id request,
      op_order_id = rq_order_id request,
      op_operation_type = rq_operation_type request,
      op_request_reason_code = rq_reason request,
      op_policy_reason_codes = od_reason_codes decision,
      op_display_reason = od_display_reason decision,
      op_replacement_variant_id = rq_replacement_variant_id request,
      op_request_excerpt = request_excerpt,
      op_order_version = os_version snapshot,
      op_amount = os_amount snapshot,
      op_currency = os_currency snapshot,
      op_requires_manual_review = (od_outcome decision = Outcome_manual_review),
      op_review_case_type = map_option cr_case_type (od_case_recommendation decision),
      op_review_priority = map_option cr_priority (od_case_recommendation decision),
      op_support_case_id = None,
      op_provider_reference = None,
      op_status = Pending_confirmation,
      op_created_at = now,
      op_updated_at = now,
      op_version = 1,
      op_customer_id = customer_id,
      op_tenant_id = sc_tenant_id scope,
      op_created_by = created_by\<rparr>"

definition creation_event ::
  "access_scope \<Rightarrow> string \<Rightarrow> order_operation \<Rightarrow> uuid \<Rightarrow> uuid \<Rightarrow> instant \<Rightarrow> order_operation_event" where
  "creation_event scope customer_id operation operation_id event_id now =
     \<lparr>oe_event_id = event_id, oe_idempotency_key = op_idempotency_key operation,
      oe_operation_id = operation_id, oe_event_type = Operation_created,
      oe_previous_status = None, oe_current_status = None,
      oe_provider_reference = None, oe_support_case_id = None, oe_actor = ''system'',
      oe_customer_id = customer_id, oe_tenant_id = sc_tenant_id scope, oe_created_at = now\<rparr>"

definition build_pending_operation ::
  "environment \<Rightarrow> access_scope \<Rightarrow> string \<Rightarrow> order_operation_request \<Rightarrow> order_snapshot
     \<Rightarrow> operation_decision \<Rightarrow> string \<Rightarrow> (world, order_operation \<times> order_operation_event) prog" where
  "build_pending_operation E scope customer_id request snapshot decision request_excerpt =
     bnd (clock E) (\<lambda>now.
     bnd (id_factory E) (\<lambda>operation_id.
     bnd (lift (sc_identity scope)) (\<lambda>created_by.
     bnd (lift (mk_order_operation (pending_operation scope customer_id request snapshot decision
            request_excerpt created_by operation_id now))) (\<lambda>operation.
     bnd (id_factory E) (\<lambda>event_id.
     bnd (lift (mk_order_operation_event (creation_event scope customer_id operation operation_id
            event_id now))) (\<lambda>event.
     ret (operation, event)))))))"

text \<open>The two lookups that make a request a duplicate: of its message, of its order.\<close>

definition find_duplicate_request ::
  "environment \<Rightarrow> access_scope \<Rightarrow> order_operation_request \<Rightarrow> (world, order_operation option) prog" where
  "find_duplicate_request E scope request =
     bnd (repo_find_by_source_message E scope (rq_thread_id request) (rq_source_message_id request))
       (\<lambda>duplicate. case duplicate of
          Some x \<Rightarrow> ret (Some x)
        | None \<Rightarrow> repo_find_active_by_order_id E scope (rq_order_id request))"

definition create_attempt ::
  "environment \<Rightarrow> access_scope \<Rightarrow> string \<Rightarrow> order_operation_request \<Rightarrow> order_snapshot
     \<Rightarrow> operation_decision \<Rightarrow> string \<Rightarrow> (world, operation_service_result option) prog" where
  "create_attempt E scope customer_id request snapshot decision excerpt =
     bnd (find_duplicate_request E scope request) (\<lambda>duplicate.
       case duplicate of
         Some x \<Rightarrow> ret (Some (service_result Act_duplicate_ignored x []))
       | None \<Rightarrow>
          bnd (build_pending_operation E scope customer_id request snapshot decision excerpt)
            (\<lambda>(operation, event).
              try_except
                (bnd (repo_create_operation_with_events E scope operation [event])
                   (\<lambda>_. ret (Some (service_result Act_created operation [event]))))
                (\<lambda>err. if err \<in> {ActiveOrderOperationConflictError,
                                DuplicateOperationIdempotencyError,
                                DuplicateOperationSourceMessageError}
                       then ret None else throw err)))"

definition create_pending_operation ::
  "environment \<Rightarrow> nat \<Rightarrow> access_scope \<Rightarrow> order_operation_request \<Rightarrow> order_snapshot
     \<Rightarrow> operation_decision \<Rightarrow> string \<Rightarrow> (world, operation_service_result) prog" where
  "create_pending_operation E n scope request snapshot decision request_excerpt =
     (case sc_customer_id scope of
        None \<Rightarrow> throw (ValueError ''only customers may create order operations'')
      | Some customer_id \<Rightarrow>
        let excerpt = strip request_excerpt in
        if excerpt = [] then throw (ValueError ''request_excerpt must not be empty'')
        else if rq_order_id request \<noteq> os_order_id snapshot
        then throw (ValueError ''request and snapshot must have the same order_id'')
        else if od_operation_type decision \<noteq> rq_operation_type request
        then throw (ValueError ''decision and request must have the same operation_type'')
        else if od_outcome decision \<notin> {Eligible, Outcome_manual_review}
        then throw (ValueError ''only eligible or manual_review decisions can be persisted'')
        else if \<not> od_requires_confirmation decision
        then throw (ValueError ''persisted operations must require confirmation'')
        else attempts n (create_attempt E scope customer_id request snapshot decision excerpt)
          (bnd (find_duplicate_request E scope request) (\<lambda>duplicate.
             case duplicate of
               Some x \<Rightarrow> ret (service_result Act_duplicate_ignored x [])
             | None \<Rightarrow> throw ConcurrentOperationUpdateError)))"

section \<open>The customer's decision\<close>

definition change_attempt ::
  "environment \<Rightarrow> access_scope \<Rightarrow> uuid \<Rightarrow> string \<Rightarrow> string \<Rightarrow> operation_record_status option
     \<Rightarrow> operation_service_action \<Rightarrow> (world, operation_service_result option) prog" where
  "change_attempt E scope operation_id key actor target_status action =
     bnd (get_operation E scope operation_id) (\<lambda>current.
       if op_status current \<noteq> Pending_confirmation
       then (if action = Act_confirmed \<and> op_status current \<in> set active_statuses
             then ret (Some (service_result Act_status_unchanged current []))
             else if action = Act_cancelled \<and> op_status current = Cancelled_by_customer
             then ret (Some (service_result Act_status_unchanged current []))
             else throw InvalidOperationStatusTransition)
       else
         let next_status = (case target_status of
               Some st \<Rightarrow> st
             | None \<Rightarrow> if op_requires_manual_review current then Manual_review else Submitted)
         in bnd (build_status_update E current next_status (key @ '':status'') actor None)
              (\<lambda>(updated, status_event).
                if action = Act_confirmed
                then bnd (id_factory E) (\<lambda>event_id.
                     bnd (lift (mk_order_operation_event (operation_event event_id key current
                            Confirmation_recorded actor (op_updated_at updated)))) (\<lambda>decision_event.
                       write_or_replay E scope key action current updated
                         [decision_event, status_event]))
                else write_or_replay E scope key action current updated
                       [status_event\<lparr>oe_idempotency_key := key\<rparr>]))"

definition change_from_pending ::
  "environment \<Rightarrow> nat \<Rightarrow> access_scope \<Rightarrow> uuid \<Rightarrow> string \<Rightarrow> operation_record_status option
     \<Rightarrow> operation_service_action \<Rightarrow> (world, operation_service_result) prog" where
  "change_from_pending E n scope operation_id request_id target_status action =
     bnd (lift (sc_identity scope)) (\<lambda>actor.
     bnd (require (strip request_id \<noteq> []) (ValueError ''request_id must not be empty'')) (\<lambda>_.
       let key = operation_request_key operation_id (service_action_str action) (strip request_id)
       in unless_recorded E scope key
            (attempts n (change_attempt E scope operation_id key actor target_status action)
               (throw ConcurrentOperationUpdateError))))"

definition confirm_operation ::
  "environment \<Rightarrow> nat \<Rightarrow> access_scope \<Rightarrow> uuid \<Rightarrow> string \<Rightarrow> (world, operation_service_result) prog" where
  "confirm_operation E n scope operation_id request_id =
     bnd (get_operation E scope operation_id) (\<lambda>operation.
       if \<not> op_requires_manual_review operation
       then throw (ValueError ''automatic operations must use submit_confirmed_operation'')
       else change_from_pending E n scope operation_id request_id None Act_confirmed)"

definition cancel_pending_operation ::
  "environment \<Rightarrow> nat \<Rightarrow> access_scope \<Rightarrow> uuid \<Rightarrow> string \<Rightarrow> (world, operation_service_result) prog" where
  "cancel_pending_operation E n scope operation_id request_id =
     change_from_pending E n scope operation_id request_id (Some Cancelled_by_customer) Act_cancelled"

section \<open>Submission and queueing\<close>

type_synonym submit_operation =
  "order_operation_request \<Rightarrow> int \<Rightarrow> string \<Rightarrow> (world, existing_operation) prog"

definition submit_attempt ::
  "environment \<Rightarrow> access_scope \<Rightarrow> uuid \<Rightarrow> string \<Rightarrow> string \<Rightarrow> submit_operation
     \<Rightarrow> (world, operation_service_result option) prog" where
  "submit_attempt E scope operation_id key actor submit =
     bnd (get_operation E scope operation_id) (\<lambda>current.
       if op_requires_manual_review current
       then throw (ValueError ''manual-review operations must not be submitted to a provider'')
       else if op_status current = Submitted \<and> op_provider_reference current \<noteq> None
       then ret (Some (service_result Act_status_unchanged current []))
       else if op_status current \<noteq> Pending_confirmation then throw InvalidOperationStatusTransition
       else
         bnd (lift (mk_order_operation_request (request_of_operation current))) (\<lambda>request.
         bnd (submit request (op_order_version current)
                (''provider:operation:'' @ uuid_str operation_id)) (\<lambda>provider_operation.
         bnd (build_status_update E current Submitted (key @ '':status'') actor
                (py_or (eo_provider_reference provider_operation)
                       (Some (eo_operation_id provider_operation)))) (\<lambda>(updated, status_event).
         bnd (id_factory E) (\<lambda>event_id.
         bnd (lift (mk_order_operation_event (operation_event event_id key current
                Confirmation_recorded actor (op_updated_at updated)))) (\<lambda>confirmation_event.
           write_or_replay E scope key Act_submitted current updated
             [confirmation_event, status_event]))))))"

definition submit_confirmed_operation ::
  "environment \<Rightarrow> nat \<Rightarrow> access_scope \<Rightarrow> uuid \<Rightarrow> string \<Rightarrow> submit_operation
     \<Rightarrow> (world, operation_service_result) prog" where
  "submit_confirmed_operation E n scope operation_id request_id submit =
     bnd (lift (sc_identity scope)) (\<lambda>actor.
     bnd (require (strip request_id \<noteq> []) (ValueError ''request_id must not be empty'')) (\<lambda>_.
       let key = operation_request_key operation_id ''submitted'' (strip request_id)
       in unless_recorded E scope key
            (attempts n (submit_attempt E scope operation_id key actor submit)
               (throw ConcurrentOperationUpdateError))))"

definition queue_confirmed_operation ::
  "environment \<Rightarrow> access_scope \<Rightarrow> uuid \<Rightarrow> string \<Rightarrow> string \<Rightarrow> (world, operation_service_result) prog" where
  "queue_confirmed_operation E scope operation_id request_id connection_id =
     bnd (lift (sc_identity scope)) (\<lambda>actor.
     bnd (lift (validate_request_metadata request_id actor)) (\<lambda>(request_id, _).
     bnd (require (strip connection_id \<noteq> []) (ValueError ''connection_id must not be empty'')) (\<lambda>_.
     bnd (get_operation E scope operation_id) (\<lambda>current.
       if op_requires_manual_review current
       then throw (ValueError ''manual-review operations must not enter the provider outbox'')
       else if op_status current = Queued then ret (service_result Act_status_unchanged current [])
       else if op_status current \<noteq> Pending_confirmation then throw InvalidOperationStatusTransition
       else
         bnd (clock E) (\<lambda>now.
         bnd (build_status_update E current Queued
                (operation_request_key operation_id ''queued'' request_id) actor None)
           (\<lambda>(queued, status_event).
         bnd (id_factory E) (\<lambda>event_id.
         bnd (lift (mk_order_operation_event (operation_event event_id
                (operation_request_key operation_id ''confirmed'' request_id) current
                Confirmation_recorded actor now))) (\<lambda>confirmation_event.
         bnd (id_factory E) (\<lambda>command_id.
         bnd (lift (for_order_operation queued (strip connection_id) command_id now)) (\<lambda>command.
         bnd (repo_queue_operation_with_events_and_command E scope queued
                [confirmation_event, status_event] command (op_version current)) (\<lambda>_.
           ret (service_result Act_queued queued [confirmation_event, status_event]))))))))))))"

section \<open>Status updates and the support case\<close>

definition status_attempt ::
  "environment \<Rightarrow> access_scope \<Rightarrow> uuid \<Rightarrow> operation_record_status \<Rightarrow> string \<Rightarrow> string \<Rightarrow> string option
     \<Rightarrow> (world, operation_service_result option) prog" where
  "status_attempt E scope operation_id target_status key actor provider_reference =
     bnd (get_operation E scope operation_id) (\<lambda>current.
       if op_status current = target_status
       then ret (Some (service_result Act_status_unchanged current []))
       else
         bnd (lift (validate_status_transition (op_status current) target_status)) (\<lambda>_.
         bnd (build_status_update E current target_status key actor provider_reference)
           (\<lambda>(updated, event).
             write_or_replay E scope key Act_status_changed current updated [event])))"

definition update_operation_status ::
  "environment \<Rightarrow> nat \<Rightarrow> access_scope \<Rightarrow> uuid \<Rightarrow> operation_record_status \<Rightarrow> string \<Rightarrow> string
     \<Rightarrow> string option \<Rightarrow> (world, operation_service_result) prog" where
  "update_operation_status E n scope operation_id target_status request_id actor provider_reference =
     bnd (lift (validate_request_metadata request_id actor)) (\<lambda>(request_id, actor).
       if target_status = Pending_confirmation then throw InvalidOperationStatusTransition
       else
         let key = operation_request_key operation_id ''status'' request_id
         in unless_recorded E scope key
              (attempts n
                 (status_attempt E scope operation_id target_status key actor provider_reference)
                 (throw ConcurrentOperationUpdateError)))"

definition attach_attempt ::
  "environment \<Rightarrow> access_scope \<Rightarrow> uuid \<Rightarrow> uuid \<Rightarrow> string
     \<Rightarrow> (world, operation_service_result option) prog" where
  "attach_attempt E scope operation_id support_case_id key =
     bnd (get_operation E scope operation_id) (\<lambda>current.
       if \<not> op_requires_manual_review current \<or> op_status current \<noteq> Manual_review
       then throw (ValueError ''only a manual-review operation may receive a support case'')
       else case op_support_case_id current of
         Some u \<Rightarrow>
           if u = support_case_id then ret (Some (service_result Act_status_unchanged current []))
           else throw (ValueError ''a manual-review operation already has a support case'')
       | None \<Rightarrow>
           bnd (clock E) (\<lambda>now.
             let updated = current\<lparr>op_support_case_id := Some support_case_id,
                   op_updated_at := now, op_version := op_version current + 1\<rparr>
             in bnd (id_factory E) (\<lambda>event_id.
                bnd (lift (mk_order_operation_event
                       ((operation_event event_id key current Support_case_attached ''system'' now)
                          \<lparr>oe_support_case_id := Some support_case_id\<rparr>))) (\<lambda>event.
                  write_or_replay E scope key Act_support_case_attached current updated [event]))))"

definition attach_support_case ::
  "environment \<Rightarrow> nat \<Rightarrow> access_scope \<Rightarrow> uuid \<Rightarrow> uuid \<Rightarrow> string \<Rightarrow> (world, operation_service_result) prog" where
  "attach_support_case E n scope operation_id support_case_id request_id =
     bnd (require (strip request_id \<noteq> []) (ValueError ''request_id must not be empty'')) (\<lambda>_.
       let key = operation_request_key operation_id ''support-case'' (strip request_id)
       in unless_recorded E scope key
            (attempts n (attach_attempt E scope operation_id support_case_id key)
               (throw ConcurrentOperationUpdateError)))"

text \<open>\<^verbatim>\<open>move_to_provider_manual_review\<close> checks its metadata and hands over to the coordinator,
  absent (\<^const>\<open>None\<close>) in deployments without a provider queue.\<close>

definition move_to_provider_manual_review ::
  "(access_scope \<Rightarrow> uuid \<Rightarrow> string \<Rightarrow> (world, 'r) prog) option \<Rightarrow> access_scope \<Rightarrow> uuid \<Rightarrow> string
     \<Rightarrow> (world, 'r) prog" where
  "move_to_provider_manual_review coordinator scope operation_id request_id =
     bnd (lift (sc_identity scope)) (\<lambda>actor.
     bnd (lift (validate_request_metadata request_id actor)) (\<lambda>(request_id, _).
       case coordinator of
         None \<Rightarrow> throw (PyRuntimeError ''provider queue failure coordinator is unavailable'')
       | Some move_to_manual_review \<Rightarrow> move_to_manual_review scope operation_id request_id))"

section \<open>Every method keeps the contract\<close>

text \<open>\<open>seen s x\<close>: the operation \<open>x\<close> was read from a row of a state that led to \<open>s\<close>.\<close>

definition seen :: "db \<Rightarrow> order_operation \<Rightarrow> bool" where
  "seen s x \<longleftrightarrow>
     (\<exists>s1 r. evolves s1 s \<and> r \<in> set (order_operations s1) \<and> mk_order_operation r = Inr x)"

lemma seen_mono: "seen s x \<Longrightarrow> evolves s t \<Longrightarrow> seen t x"
  unfolding seen_def by (meson evolves_trans)

lemma seenI: "r \<in> set (order_operations s) \<Longrightarrow> mk_order_operation r = Inr x \<Longrightarrow> seen s x"
  unfolding seen_def using evolves_refl by blast

lemma mk_order_operation_id: "mk_order_operation r = Inr x \<Longrightarrow> op_operation_id x = op_operation_id r"
  by (auto simp: mk_order_operation_Inr)

lemma runs_fetch_operation:
  assumes "rg.env_ok E" and "\<And>rows r. query rows = Some r \<Longrightarrow> r \<in> set rows \<and> P r"
  shows "rg.runs s0 (fetch_operation E query) (\<lambda>x s. \<forall>y. x = Some y \<longrightarrow>
     (\<exists>r. r \<in> set (order_operations s) \<and> P r \<and> mk_order_operation r = Inr y))"
  unfolding fetch_operation_def
proof (rule rg.runs_bnd)
  show "rg.runs s0 (db_call E OperationPersistenceError (\<lambda>s. Inr (query (order_operations s), s)))
      (\<lambda>row s. row = query (order_operations s))"
    by (rule rg.runs_db_call[OF assms(1)]) (simp add: evolves_refl)
  fix row s1
  assume row: "row = query (order_operations s1)" and s1: "committed s1"
  show "rg.runs s1 (case row of None \<Rightarrow> ret None | Some r \<Rightarrow> bnd (lift (mk_order_operation r)) (\<lambda>x. ret (Some x)))
     (\<lambda>x s. \<forall>y. x = Some y \<longrightarrow>
       (\<exists>r. r \<in> set (order_operations s) \<and> P r \<and> mk_order_operation r = Inr y))"
  proof (cases row)
    case None
    then show ?thesis by (simp add: rg.runs_ret)
  next
    case (Some r)
    then have r: "r \<in> set (order_operations s1)" "P r" using assms(2) row by auto
    show ?thesis unfolding Some option.case
      by (rule rg.runs_past[OF s1])
         (use r in \<open>auto simp: bnd_def lift_def ret_def split: sum.splits\<close>)
  qed
qed

lemma runs_repo_get_operation:
  assumes "rg.env_ok E"
  shows "rg.runs s0 (repo_get_operation E scope u)
     (\<lambda>x s. \<forall>y. x = Some y \<longrightarrow> seen s y \<and> op_operation_id y = u)"
  unfolding repo_get_operation_def
proof (rule rg.runs_bnd_lift)
  fix v
  have "rg.runs s0 (fetch_operation E (find (\<lambda>r. op_operation_id r = u \<and> operation_visible v r)))
    (\<lambda>x s. \<forall>y. x = Some y \<longrightarrow>
     (\<exists>r. r \<in> set (order_operations s) \<and> op_operation_id r = u \<and> mk_order_operation r = Inr y))"
    by (rule runs_fetch_operation[OF assms]) (auto dest: find_SomeD)
  then show "rg.runs s0 (fetch_operation E (find (\<lambda>r. op_operation_id r = u \<and> operation_visible v r)))
     (\<lambda>x s. \<forall>y. x = Some y \<longrightarrow> seen s y \<and> op_operation_id y = u)"
    by (rule rg.runs_conseq) (auto dest: seenI mk_order_operation_id)
qed

lemma runs_get_operation:
  assumes "rg.env_ok E" and "\<And>x s1. evolves s0 s1 \<Longrightarrow> committed s1 \<Longrightarrow> seen s1 x
      \<Longrightarrow> op_operation_id x = u \<Longrightarrow> rg.runs s1 (k x) Q"
  shows "rg.runs s0 (bnd (get_operation E scope u) k) Q"
  unfolding get_operation_def
  by (rule rg.runs_bnd_assoc, rule rg.runs_bnd[OF runs_repo_get_operation[OF assms(1)]])
     (auto simp: bnd_def ret_def throw_def split: option.split
       intro!: assms(2) rg.runs_throw[unfolded throw_def])

lemma runs_find_event:
  assumes "rg.env_ok E" and "\<And>x s1. evolves s0 s1 \<Longrightarrow> committed s1 \<Longrightarrow> rg.runs s1 (k x) Q"
  shows "rg.runs s0 (bnd (repo_find_event_by_idempotency_key E scope key) k) Q"
proof (rule rg.runs_bnd[where Q = "\<lambda>_ _. True"])
  show "rg.runs s0 (repo_find_event_by_idempotency_key E scope key) (\<lambda>_ _. True)"
    unfolding repo_find_event_by_idempotency_key_def
    by (intro rg.runs_intros rg.runs_bnd[where Q = "\<lambda>_ _. True"] rg.runs_db_call[OF assms(1)])
       (auto simp: evolves_refl split: option.split intro!: rg.runs_intros rg.runs_ret)
qed (rule assms(2))

lemma runs_unchanged_result:
  assumes "rg.env_ok E"
  shows "rg.runs s0 (unchanged_result E scope u) (\<lambda>_ _. True)"
  unfolding unchanged_result_def by (rule runs_get_operation[OF assms]) (simp add: rg.runs_ret)

lemma mk_order_operation_event_readable:
  "mk_order_operation_event e = Inr f \<Longrightarrow> operation_event_readable f"
  by (auto simp: mk_order_operation_event_Inr operation_event_readable_def)

lemma operation_request_key_trim: "trim (operation_request_key u verb req) \<noteq> []"
proof -
  have "CHR ''o'' \<in> set (operation_request_key u verb req)" "\<not> is_white_space (CHR ''o'')"
    by (simp_all add: operation_request_key_def is_white_space_def)
  then show ?thesis by (auto simp: trim_def strip_by_eq_Nil)
qed

text \<open>What \<^verbatim>\<open>_build_status_update\<close> hands to the write.\<close>

definition status_update ::
  "order_operation \<Rightarrow> operation_record_status \<Rightarrow> order_operation \<Rightarrow> order_operation_event \<Rightarrow> bool" where
  "status_update cur st x e \<longleftrightarrow>
     copy_of cur x \<and> op_status x = st
     \<and> non_empty_option (map_option trim (op_provider_reference x))
     \<and> oe_operation_id e = op_operation_id cur \<and> operation_event_readable e
     \<and> oe_event_type e = Status_changed
     \<and> oe_previous_status e = Some (op_status cur) \<and> oe_current_status e = Some st"

lemma runs_build_status_update:
  assumes "\<And>x e. status_update cur st x e \<Longrightarrow> rg.runs s0 (k x e) Q"
  shows "rg.runs s0 (bnd (build_status_update E cur st key actor ref) (\<lambda>(x, e). k x e)) Q"
  unfolding build_status_update_def Let_def
proof (intro rg.runs_bnd_assoc rg.runs_intros)
  fix now event_id e
  let ?x = "cur\<lparr>op_status := st,
             op_provider_reference := py_or ref (op_provider_reference cur),
             op_updated_at := now, op_version := op_version cur + 1\<rparr>"
  assume e: "mk_order_operation_event
         ((operation_event event_id key cur Status_changed actor now)
            \<lparr>oe_previous_status := Some (op_status cur), oe_current_status := Some st,
             oe_provider_reference := op_provider_reference ?x\<rparr>) = Inr e"
  then have "non_empty_option (map_option trim (op_provider_reference ?x))"
    and "oe_operation_id e = op_operation_id cur" "oe_event_type e = Status_changed"
    and "oe_previous_status e = Some (op_status cur)" "oe_current_status e = Some st"
    unfolding mk_order_operation_event_Inr valid_order_operation_event_def
    by (auto simp: trim_order_operation_event_def operation_event_def)
  moreover have "copy_of cur ?x" by (simp add: copy_of_def)
  ultimately have "status_update cur st ?x e"
    using mk_order_operation_event_readable[OF e] by (simp add: status_update_def)
  from assms[OF this] show "rg.runs s0 (bnd (ret (?x, e)) (\<lambda>(x, e). k x e)) Q"
    by (simp add: bnd_def ret_def)
qed

lemma runs_update_operation:
  assumes "rg.env_ok E" and "seen s0 cur"
    and "copy_of cur x" "non_empty_option (map_option trim (op_provider_reference x))"
      "lifecycle (op_status cur) (op_status x)"
    and "\<And>e. e \<in> set es \<Longrightarrow> oe_operation_id e = op_operation_id cur \<and> operation_event_readable e"
    and "replay_operation (op_status cur) es = Some (op_status x)"
  shows "rg.runs s0 (repo_update_operation_with_events E scope x es (op_version cur)) (\<lambda>_ _. True)"
  unfolding repo_update_operation_with_events_def
proof (intro rg.runs_intros rg.runs_db_call[OF assms(1)])
  fix v s u t
  assume s: "committed s" "evolves s0 s" and "commit (update_operation_tx v x es (op_version cur) s) = Inr (u, t)"
  then have tx: "update_operation_tx v x es (op_version cur) s = Inr t" by (simp add: commit_Inr)
  obtain s1 r where "evolves s1 s" "r \<in> set (order_operations s1)" "mk_order_operation r = Inr cur"
    using seen_mono[OF assms(2) s(2)] by (auto simp: seen_def)
  from update_operation_contract[OF s(1) this tx assms(3-7)]
  show "committed t \<and> evolves s t \<and> True" by simp
qed

lemma runs_replay_or_retry:
  assumes "rg.env_ok E"
  shows "rg.runs s0 (replay_or_retry E scope key err) (\<lambda>_ _. True)"
  unfolding replay_or_retry_def
  by (intro rg.runs_intros runs_find_event[OF assms] rg.runs_bnd[OF runs_unchanged_result[OF assms]]
      rg.runs_ret) simp_all

lemma runs_write_or_replay:
  assumes "rg.env_ok E" and "seen s0 cur"
    and "copy_of cur x" "non_empty_option (map_option trim (op_provider_reference x))"
      "lifecycle (op_status cur) (op_status x)"
    and "\<And>e. e \<in> set es \<Longrightarrow> oe_operation_id e = op_operation_id cur \<and> operation_event_readable e"
    and "replay_operation (op_status cur) es = Some (op_status x)"
  shows "rg.runs s0 (write_or_replay E scope key action cur x es) (\<lambda>_ _. True)"
  unfolding write_or_replay_def
  by (intro rg.runs_try_except rg.runs_bnd[OF runs_update_operation[OF assms]] rg.runs_ret
      runs_replay_or_retry[OF assms(1)]) simp

text \<open>Writing a status update, alone or after a confirmation event.\<close>

definition quiet_event :: "order_operation \<Rightarrow> order_operation_event \<Rightarrow> bool" where
  "quiet_event cur e \<longleftrightarrow>
     oe_operation_id e = op_operation_id cur \<and> operation_event_readable e
     \<and> oe_event_type e \<noteq> Status_changed"

lemma quiet_eventI:
  "mk_order_operation_event ((operation_event u key cur ty actor t)\<lparr>oe_support_case_id := c\<rparr>) = Inr e
   \<Longrightarrow> ty \<noteq> Status_changed \<Longrightarrow> quiet_event cur e"
  "mk_order_operation_event (operation_event u key cur ty actor t) = Inr e
   \<Longrightarrow> ty \<noteq> Status_changed \<Longrightarrow> quiet_event cur e"
  using mk_order_operation_event_readable
  by (fastforce simp: quiet_event_def mk_order_operation_event_Inr operation_event_def)+

lemma runs_write_status:
  assumes "rg.env_ok E" and "seen s0 cur" and "status_update cur st x e"
    and "lifecycle (op_status cur) st" and "\<And>f. f \<in> set pre \<Longrightarrow> quiet_event cur f"
  shows "rg.runs s0 (write_or_replay E scope key action cur x (pre @ [e])) (\<lambda>_ _. True)"
proof -
  have "replay_operation (op_status cur) pre = Some (op_status cur)"
    using assms(5) by (induction pre) (auto simp: quiet_event_def)
  then show ?thesis
    using assms by (intro runs_write_or_replay)
       (auto simp: status_update_def quiet_event_def replay_operation_append)
qed

lemmas runs_write_status_alone = runs_write_status[where pre = "[]", simplified append_Nil]
lemmas runs_write_confirmed = runs_write_status[where pre = "[f]" for f, simplified append.simps]

lemma lifecycleI: "b \<in> allowed_status_transitions a \<Longrightarrow> lifecycle a b"
  by (rule r_into_rtranclp) (simp add: lifecycle_edge_def)

lemma runs_unless_recorded:
  assumes "rg.env_ok E" and "\<And>s1. evolves s0 s1 \<Longrightarrow> rg.runs s1 body (\<lambda>_ _. True)"
  shows "rg.runs s0 (unless_recorded E scope key body) (\<lambda>_ _. True)"
  unfolding unless_recorded_def
  by (intro rg.runs_intros runs_find_event[OF assms(1)] runs_unchanged_result[OF assms(1)] assms(2))

lemma status_update_key:
  "status_update cur st x e \<Longrightarrow> trim key \<noteq> [] \<Longrightarrow> status_update cur st x (e\<lparr>oe_idempotency_key := key\<rparr>)"
  by (auto simp: status_update_def operation_event_readable_def
      valid_order_operation_event_def validate_event_shape_def trim_order_operation_event_def)

lemma runs_change_attempt:
  assumes "rg.env_ok E" and "\<And>st. target = Some st \<Longrightarrow> st \<in> allowed_status_transitions Pending_confirmation"
    and key: "trim key \<noteq> []"
  shows "rg.runs s0 (change_attempt E scope u key actor target action) (\<lambda>_ _. True)"
proof -
  let ?st = "\<lambda>cur. case target of Some st \<Rightarrow> st
      | None \<Rightarrow> if op_requires_manual_review cur then Manual_review else Submitted"
  have life: "lifecycle (op_status cur) (?st cur)" if "\<not> op_status cur \<noteq> Pending_confirmation" for cur
    using assms(2) that by (intro lifecycleI) (auto split: option.split)
  show ?thesis
    unfolding change_attempt_def Let_def
  proof (intro runs_get_operation[OF assms(1)] runs_build_status_update rg.runs_intros rg.runs_ret)
    fix cur x :: order_operation and e s1 ev_id ev
    assume cur: "seen s1 cur" "\<not> op_status cur \<noteq> Pending_confirmation"
      and upd: "status_update cur (?st cur) x e"
    show "rg.runs s1 (write_or_replay E scope key action cur x [e\<lparr>oe_idempotency_key := key\<rparr>])
        (\<lambda>_ _. True)"
      by (rule runs_write_status_alone[OF assms(1) cur(1) status_update_key[OF upd key] life[OF cur(2)]])
         simp
    assume "mk_order_operation_event (operation_event ev_id key cur Confirmation_recorded actor
        (op_updated_at x)) = Inr ev"
    then show "rg.runs s1 (write_or_replay E scope key action cur x [ev, e]) (\<lambda>_ _. True)"
      by (intro runs_write_confirmed[OF assms(1) cur(1) upd life[OF cur(2)]]) (auto dest: quiet_eventI)
  qed simp_all
qed

lemma runs_change_from_pending:
  assumes "rg.env_ok E" and "\<And>st. target = Some st \<Longrightarrow> st \<in> allowed_status_transitions Pending_confirmation"
  shows "rg.runs s0 (change_from_pending E n scope u req target action) (\<lambda>_ _. True)"
  unfolding change_from_pending_def Let_def
  by (intro rg.runs_intros runs_unless_recorded[OF assms(1)] rg.runs_attempts
      runs_change_attempt[OF assms operation_request_key_trim])

theorem runs_confirm_operation:
  assumes "rg.env_ok E"
  shows "rg.runs s0 (confirm_operation E n scope u req) (\<lambda>_ _. True)"
  unfolding confirm_operation_def
  by (intro runs_get_operation[OF assms] rg.runs_intros runs_change_from_pending[OF assms]) simp

theorem runs_cancel_pending_operation:
  assumes "rg.env_ok E"
  shows "rg.runs s0 (cancel_pending_operation E n scope u req) (\<lambda>_ _. True)"
  unfolding cancel_pending_operation_def
  by (rule runs_change_from_pending[OF assms]) auto

text \<open>A provider call only takes time: other sessions may commit meanwhile.\<close>

definition provider_ok :: "submit_operation \<Rightarrow> bool" where
  "provider_ok submit \<longleftrightarrow>
     (\<forall>rq v key w. committed (w_db w) \<longrightarrow>
        committed (w_db (snd (submit rq v key w))) \<and> evolves (w_db w) (w_db (snd (submit rq v key w))))"

lemma runs_provider:
  assumes "provider_ok submit"
  shows "rg.runs s0 (submit rq v key) (\<lambda>_ _. True)"
  by (rule rg.runsI) (use assms in \<open>metis provider_ok_def snd_conv\<close>)

lemma runs_submit_attempt:
  assumes "rg.env_ok E" and "provider_ok submit"
  shows "rg.runs s0 (submit_attempt E scope u key actor submit) (\<lambda>_ _. True)"
  unfolding submit_attempt_def
proof (intro runs_get_operation[OF assms(1)] runs_build_status_update rg.runs_intros rg.runs_ret
    rg.runs_bnd[OF runs_provider[OF assms(2)]])
  fix cur x :: order_operation and s1 s2 e ev_id ev
  assume cur: "seen s1 cur" "\<not> op_status cur \<noteq> Pending_confirmation" "evolves s1 s2"
    and upd: "status_update cur Submitted x e"
    and ev: "mk_order_operation_event (operation_event ev_id key cur Confirmation_recorded actor
        (op_updated_at x)) = Inr ev"
  have "lifecycle (op_status cur) Submitted" using cur(2) by (intro lifecycleI) simp
  then show "rg.runs s2 (write_or_replay E scope key Act_submitted cur x [ev, e]) (\<lambda>_ _. True)"
    by (intro runs_write_confirmed[OF assms(1) seen_mono[OF cur(1,3)] upd])
       (use ev in \<open>auto dest: quiet_eventI\<close>)
qed simp_all

theorem runs_submit_confirmed_operation:
  assumes "rg.env_ok E" and "provider_ok submit"
  shows "rg.runs s0 (submit_confirmed_operation E n scope u req submit) (\<lambda>_ _. True)"
  unfolding submit_confirmed_operation_def Let_def
  by (intro rg.runs_intros runs_unless_recorded[OF assms(1)] rg.runs_attempts
      runs_submit_attempt[OF assms])

lemma runs_queue_operation:
  assumes "rg.env_ok E" and "seen s0 cur" and "status_update cur st x e"
    and "lifecycle (op_status cur) st" and "quiet_event cur f" and "valid_command c"
  shows "rg.runs s0 (repo_queue_operation_with_events_and_command E scope x [f, e] c (op_version cur))
     (\<lambda>_ _. True)"
  unfolding repo_queue_operation_with_events_and_command_def
proof (intro rg.runs_intros rg.runs_db_call[OF assms(1)])
  fix v s u t
  assume s: "committed s" "evolves s0 s"
    and "commit (queue_operation_tx v x [f, e] c (op_version cur) s) = Inr (u, t)"
  then obtain s2 where tx: "update_operation_tx v x [f, e] (op_version cur) s = Inr s2"
    and ins: "insert_outbox_message c Out_pending (op_updated_at x) (op_updated_at x) s2 = Inr t"
    unfolding commit_Inr by (blast elim: queue_operation_tx_Inr)
  obtain s1 r where "evolves s1 s" "r \<in> set (order_operations s1)" "mk_order_operation r = Inr cur"
    using seen_mono[OF assms(2) s(2)] by (auto simp: seen_def)
  from update_operation_contract[OF s(1) this tx] assms(3-5)
  have s2: "committed s2" "evolves s s2" by (auto simp: status_update_def quiet_event_def)
  from insert_outbox_contract[OF s2(1) ins assms(6)] s2(2)
  show "committed t \<and> evolves s t \<and> True" by (auto intro: evolves_trans)
qed

theorem runs_queue_confirmed_operation:
  assumes "rg.env_ok E"
  shows "rg.runs s0 (queue_confirmed_operation E scope u req conn) (\<lambda>_ _. True)"
  unfolding queue_confirmed_operation_def
proof (intro runs_get_operation[OF assms] runs_build_status_update rg.runs_intros rg.runs_ret
    rg.runs_bnd[OF runs_queue_operation[OF assms]])
  fix cur :: order_operation
  assume "\<not> op_status cur \<noteq> Pending_confirmation"
  then show "lifecycle (op_status cur) Queued" by (intro lifecycleI) simp
qed (auto dest: quiet_eventI for_order_operation_valid)

lemma runs_status_attempt:
  assumes "rg.env_ok E"
  shows "rg.runs s0 (status_attempt E scope u target key actor ref) (\<lambda>_ _. True)"
  unfolding status_attempt_def
proof (intro runs_get_operation[OF assms] runs_build_status_update rg.runs_intros rg.runs_ret
    runs_write_status_alone[OF assms])
  fix cur :: order_operation and v
  assume "validate_status_transition (op_status cur) target = Inr v"
  then show "lifecycle (op_status cur) target"
    by (intro lifecycleI) (simp add: validate_status_transition_def split: if_splits)
qed auto

theorem runs_update_operation_status:
  assumes "rg.env_ok E"
  shows "rg.runs s0 (update_operation_status E n scope u target req actor ref) (\<lambda>_ _. True)"
  unfolding update_operation_status_def Let_def
  by (intro rg.runs_intros runs_unless_recorded[OF assms] rg.runs_attempts runs_status_attempt[OF assms])

lemma seen_provider_reference:
  "seen s x \<Longrightarrow> non_empty_option (map_option trim (op_provider_reference x))"
  by (auto simp: seen_def mk_order_operation_Inr valid_order_operation_def trim_order_operation_def
      split: option.splits)

lemma runs_attach_attempt:
  assumes "rg.env_ok E"
  shows "rg.runs s0 (attach_attempt E scope u c key) (\<lambda>_ _. True)"
  unfolding attach_attempt_def Let_def
proof (intro runs_get_operation[OF assms] rg.runs_intros rg.runs_ret runs_write_or_replay[OF assms])
  fix cur :: order_operation and now :: instant and s1
  let ?x = "cur\<lparr>op_support_case_id := Some c, op_updated_at := now, op_version := op_version cur + 1\<rparr>"
  show "copy_of cur ?x" by (simp add: copy_of_def)
  assume "seen s1 cur"
  from seen_provider_reference[OF this]
  show "non_empty_option (map_option trim (op_provider_reference ?x))" by simp
qed (auto dest: quiet_eventI simp: quiet_event_def)

theorem runs_attach_support_case:
  assumes "rg.env_ok E"
  shows "rg.runs s0 (attach_support_case E n scope u c req) (\<lambda>_ _. True)"
  unfolding attach_support_case_def Let_def
  by (intro rg.runs_intros runs_unless_recorded[OF assms] rg.runs_attempts runs_attach_attempt[OF assms])

lemma runs_find_duplicate_request:
  assumes "rg.env_ok E"
  shows "rg.runs s0 (find_duplicate_request E scope request) (\<lambda>_ _. True)"
  unfolding find_duplicate_request_def repo_find_by_source_message_def repo_find_active_by_order_id_def
proof (intro rg.runs_bnd_assoc rg.runs_intros
    rg.runs_bnd[OF runs_fetch_operation[OF assms, where P = "\<lambda>_. True"]] rg.runs_ret)
  fix v s1
  show "rg.runs s1 (fetch_operation E (\<lambda>rows. first_by (\<lambda>r. (op_created_at r, op_operation_id r))
          (filter (\<lambda>r. op_order_id r = rq_order_id request \<and> op_status r \<in> set active_statuses
             \<and> operation_visible v r) rows))) (\<lambda>_ _. True)"
    by (rule rg.runs_conseq[OF runs_fetch_operation[OF assms, where P = "\<lambda>_. True"]])
       (auto dest: first_by_SomeD)
qed (auto dest: find_SomeD)

lemma runs_build_pending_operation:
  assumes "\<And>x e. operation_readable x \<Longrightarrow> op_status x = Pending_confirmation \<Longrightarrow>
      oe_operation_id e = op_operation_id x \<Longrightarrow> operation_event_readable e \<Longrightarrow>
      oe_event_type e = Operation_created \<Longrightarrow> rg.runs s0 (k x e) Q"
  shows "rg.runs s0 (bnd (build_pending_operation E scope cid request snapshot decision excerpt)
      (\<lambda>(x, e). k x e)) Q"
  unfolding build_pending_operation_def
proof (intro rg.runs_bnd_assoc rg.runs_intros)
  fix now u created_by ev_id and x :: order_operation and e :: order_operation_event
  assume x: "mk_order_operation (pending_operation scope cid request snapshot decision excerpt
      created_by u now) = Inr x"
    and e: "mk_order_operation_event (creation_event scope cid x u ev_id now) = Inr e"
  from x have "operation_readable x" "op_status x = Pending_confirmation" "op_operation_id x = u"
    by (auto simp: mk_order_operation_Inr operation_readable_def pending_operation_def)
  moreover from e have "oe_operation_id e = u" "oe_event_type e = Operation_created"
    by (auto simp: mk_order_operation_event_Inr creation_event_def)
  ultimately have "rg.runs s0 (k x e) Q"
    using assms mk_order_operation_event_readable[OF e] by simp
  then show "rg.runs s0 (bnd (ret (x, e)) (\<lambda>(x, e). k x e)) Q"
    by (simp add: bnd_def ret_def)
qed

lemma runs_create_attempt:
  assumes "rg.env_ok E"
  shows "rg.runs s0 (create_attempt E scope cid request snapshot decision excerpt) (\<lambda>_ _. True)"
  unfolding create_attempt_def repo_create_operation_with_events_def
proof (intro rg.runs_bnd[OF runs_find_duplicate_request[OF assms]] runs_build_pending_operation
    rg.runs_try_except rg.runs_bnd_assoc rg.runs_intros rg.runs_ret
    rg.runs_bnd[OF rg.runs_db_call[OF assms, where Q = "\<lambda>_ _. True"]])
  fix x e s u t
  assume s: "committed s" and "commit (create_operation_tx x [e] s) = Inr (u, t)"
    and x: "operation_readable x" "op_status x = Pending_confirmation"
    and "oe_operation_id e = op_operation_id x" "operation_event_readable e"
    "oe_event_type e = Operation_created"
  then show "committed t \<and> evolves s t \<and> True"
    using create_operation_contract[OF s _ x, of "[e]" t] by (simp add: commit_Inr)
qed simp_all

theorem runs_create_pending_operation:
  assumes "rg.env_ok E"
  shows "rg.runs s0 (create_pending_operation E n scope request snapshot decision excerpt) (\<lambda>_ _. True)"
  unfolding create_pending_operation_def Let_def
  by (intro rg.runs_intros rg.runs_attempts runs_create_attempt[OF assms] rg.runs_ret
      rg.runs_bnd[OF runs_find_duplicate_request[OF assms]]) simp_all

end
