(* ===== verification/Case_Store.thy ===== *)
theory Case_Store
  imports History Versioned_Store
begin

text \<open>
  The support-case repository (\<^verbatim>\<open>src/agent/cases/repository.py\<close> and
  \<^verbatim>\<open>postgres_repository.py\<close>): scoped reads, the work-queue listing, the atomic creation, the
  optimistic update, and the variants that write an outbox command in the same transaction.
\<close>

section \<open>Errors and guards\<close>

definition raise_case_unique_violation :: "string \<Rightarrow> support_case_event \<Rightarrow> exn" where
  "raise_case_unique_violation cons event =
     (if cons \<in> {''uq_support_cases_active_thread_type'', ''uq_support_cases_active_delivery_order''}
      then ActiveCaseConflictError
      else if cons = ''uq_support_case_events_idempotency''
      then (if ce_source_message_id event \<noteq> None then DuplicateSourceMessageError
            else DuplicateIdempotencyKeyError)
      else CasePersistenceError)"

fun case_sql_exn :: "support_case_event \<Rightarrow> sql_error \<Rightarrow> exn" where
  "case_sql_exn event (Unique_violation cons) = raise_case_unique_violation cons event"
| "case_sql_exn event _ = CasePersistenceError"

definition validate_case_ownership :: "access_scope \<Rightarrow> support_case \<Rightarrow> exn + unit" where
  "validate_case_ownership scope c =
     (if cs_tenant_id c \<noteq> sc_tenant_id scope
      then Inl (ValueError ''case tenant_id must match the access scope'')
      else if sc_role scope = Customer \<and> Some (cs_customer_id c) \<noteq> sc_customer_id scope
      then Inl (ValueError ''case customer_id must match the access scope'')
      else Inr ())"

definition validate_case_event_ownership :: "access_scope \<Rightarrow> support_case_event \<Rightarrow> exn + unit" where
  "validate_case_event_ownership scope e =
     (if ce_tenant_id e \<noteq> sc_tenant_id scope
      then Inl (ValueError ''event tenant_id must match the access scope'')
      else Inr ())"

definition validate_case_command_association ::
  "support_case \<Rightarrow> support_case_event \<Rightarrow> provider_command_envelope \<Rightarrow> exn + unit" where
  "validate_case_command_association c event command =
     (case mk_command command of
        Inl _ \<Rightarrow> Inl (ValueError ''command envelope is invalid'')
      | Inr cmd \<Rightarrow>
         if cs_case_type c \<noteq> Delivery_investigation
         then Inl (ValueError ''case command writes require a delivery_investigation case'')
         else if cs_order_id c = None
         then Inl (ValueError ''delivery_investigation cases require an order_id'')
         else if pc_command_type cmd \<noteq> Delivery_investigation_command
         then Inl (ValueError ''command.command_type must be delivery_investigation'')
         else if pc_aggregate_type cmd \<noteq> Agg_support_case
         then Inl (ValueError ''command.aggregate_type must be support_case'')
         else if pc_aggregate_id cmd \<noteq> cs_case_id c
         then Inl (ValueError ''command.aggregate_id must match the case_id'')
         else if pc_tenant_id cmd \<noteq> cs_tenant_id c
         then Inl (ValueError ''command.tenant_id must match the case tenant_id'')
         else if pc_customer_id cmd \<noteq> cs_customer_id c
         then Inl (ValueError ''command.customer_id must match the case customer_id'')
         else if pc_source_message_id cmd \<noteq> cs_source_message_id c
         then Inl (ValueError ''command.source_message_id must match the case source_message_id'')
         else if pc_expected_order_version cmd \<noteq> None
         then Inl (ValueError ''delivery commands must not carry expected_order_version'')
         else if Some (pl_order_id (pc_payload cmd)) \<noteq> cs_order_id c
         then Inl (ValueError ''command payload order_id must match the case order_id'')
         else if ce_case_id event \<noteq> cs_case_id c
         then Inl (ValueError ''event.case_id must match the case_id'')
         else if ce_tenant_id event \<noteq> cs_tenant_id c
         then Inl (ValueError ''event.tenant_id must match the case tenant_id'')
         else if ce_customer_id event \<noteq> cs_customer_id c
         then Inl (ValueError ''event.customer_id must match the case customer_id'')
         else Inr ())"

section \<open>Reads\<close>

definition case_visible :: "visibility \<Rightarrow> support_case \<Rightarrow> bool" where
  "case_visible v c \<longleftrightarrow> row_visible v (cs_tenant_id c) (cs_customer_id c) (cs_assigned_agent_id c)"

text \<open>\<^verbatim>\<open>_fetch_case\<close>: at most one row, validated outside the connection block.\<close>

definition fetch_case ::
  "environment \<Rightarrow> (db \<Rightarrow> support_case option) \<Rightarrow> (world, support_case option) prog" where
  "fetch_case E query =
     bnd (db_call E CasePersistenceError (\<lambda>s. Inr (query s, s)))
       (\<lambda>row. case row of
          None \<Rightarrow> ret None
        | Some r \<Rightarrow> bnd (lift (mk_support_case r)) (\<lambda>c. ret (Some c)))"

definition repo_get_case ::
  "environment \<Rightarrow> access_scope \<Rightarrow> uuid \<Rightarrow> (world, support_case option) prog" where
  "repo_get_case E scope case_id =
     bnd (lift (case_visibility scope)) (\<lambda>v.
       fetch_case E (\<lambda>s. find (\<lambda>c. cs_case_id c = case_id \<and> case_visible v c) (support_cases s)))"

text \<open>The join of cases and events.\<close>

definition join_case_events :: "db \<Rightarrow> (support_case \<times> support_case_event) list" where
  "join_case_events s =
     concat (map (\<lambda>c. map (Pair c) (filter (\<lambda>e. ce_case_id e = cs_case_id c) (support_case_events s)))
       (support_cases s))"

definition repo_find_case_by_source_message ::
  "environment \<Rightarrow> access_scope \<Rightarrow> string \<Rightarrow> string \<Rightarrow> (world, support_case option) prog" where
  "repo_find_case_by_source_message E scope thread_id source_message_id =
     bnd (lift (case_visibility scope)) (\<lambda>v.
       fetch_case E (\<lambda>s. map_option fst
         (first_by (\<lambda>(c, e). (ce_created_at e, ce_event_id e))
           (filter (\<lambda>(c, e). cs_thread_id c = thread_id
              \<and> ce_source_message_id e = Some source_message_id \<and> case_visible v c)
             (join_case_events s)))))"

definition repo_find_case_event_by_idempotency_key ::
  "environment \<Rightarrow> access_scope \<Rightarrow> string \<Rightarrow> (world, support_case_event option) prog" where
  "repo_find_case_event_by_idempotency_key E scope key =
     bnd (db_call E CasePersistenceError (\<lambda>s. Inr
         (find (\<lambda>e. ce_tenant_id e = sc_tenant_id scope \<and> ce_idempotency_key e = key)
           (support_case_events s), s)))
       (\<lambda>row. case row of
          None \<Rightarrow> ret None
        | Some e \<Rightarrow> bnd (lift (mk_support_case_event e)) (\<lambda>x. ret (Some x)))"

definition repo_find_unresolved_case ::
  "environment \<Rightarrow> access_scope \<Rightarrow> string \<Rightarrow> case_type \<Rightarrow> string option
     \<Rightarrow> (world, support_case option) prog" where
  "repo_find_unresolved_case E scope thread_id case_type order_id =
     bnd (lift (case_visibility scope)) (\<lambda>v.
       if case_type = Delivery_investigation \<and> order_id = None
       then throw (ValueError ''delivery_investigation lookup requires an order_id'')
       else fetch_case E (\<lambda>s. first_by (\<lambda>c. (cs_created_at c, cs_case_id c))
              (filter (\<lambda>c. cs_thread_id c = thread_id \<and> cs_case_type c = case_type
                 \<and> (case_type = Delivery_investigation \<longrightarrow> cs_order_id c = order_id)
                 \<and> case_active c \<and> case_visible v c) (support_cases s))))"

record case_list_query =
  lq_status :: "case_status option"
  lq_priority :: "case_priority option"
  lq_case_type :: "case_type option"
  lq_thread_id :: "string option"
  lq_order_id :: "string option"
  lq_limit :: nat
  lq_offset :: nat

record 'r page =
  pg_items :: "'r list"
  pg_total :: nat
  pg_limit :: nat
  pg_offset :: nat

text \<open>\<^verbatim>\<open>_case_filter_sql\<close>: a filter that is absent admits every value.\<close>

definition matches :: "'a option \<Rightarrow> 'a \<Rightarrow> bool" where
  "matches f v \<longleftrightarrow> (case f of None \<Rightarrow> True | Some x \<Rightarrow> v = x)"

definition case_filter_sql :: "visibility \<Rightarrow> case_list_query \<Rightarrow> support_case \<Rightarrow> bool" where
  "case_filter_sql v q c \<longleftrightarrow>
     case_visible v c \<and> matches (lq_status q) (cs_status c) \<and> matches (lq_priority q) (cs_priority c)
     \<and> matches (lq_case_type q) (cs_case_type c) \<and> matches (lq_thread_id q) (cs_thread_id c)
     \<and> (lq_order_id q = None \<or> lq_order_id q = cs_order_id c)"

fun decode_rows :: "('r \<Rightarrow> exn + 'a) \<Rightarrow> 'r list \<Rightarrow> exn + 'a list" where
  "decode_rows f [] = Inr []"
| "decode_rows f (r # rs) =
     (case f r of
        Inl e \<Rightarrow> Inl e
      | Inr x \<Rightarrow> (case decode_rows f rs of Inl e \<Rightarrow> Inl e | Inr xs \<Rightarrow> Inr (x # xs)))"

definition case_page_rows :: "visibility \<Rightarrow> case_list_query \<Rightarrow> db \<Rightarrow> support_case list" where
  "case_page_rows v q s =
     take (lq_limit q) (drop (lq_offset q)
       (sort_key (\<lambda>c. (priority_rank (cs_priority c), cs_created_at c, cs_case_id c))
         (filter (case_filter_sql v q) (support_cases s))))"

definition repo_list_cases ::
  "environment \<Rightarrow> access_scope \<Rightarrow> case_list_query \<Rightarrow> (world, support_case page) prog" where
  "repo_list_cases E scope q =
     bnd (lift (case_visibility scope)) (\<lambda>v.
     bnd (db_call E CasePersistenceError
            (\<lambda>s. Inr (length (filter (case_filter_sql v q) (support_cases s)), s))) (\<lambda>total.
     bnd (db_call E CasePersistenceError (\<lambda>s. Inr (case_page_rows v q s, s))) (\<lambda>rows.
     bnd (lift (decode_rows mk_support_case rows)) (\<lambda>items.
       ret \<lparr>pg_items = items, pg_total = total, pg_limit = lq_limit q, pg_offset = lq_offset q\<rparr>))))"

definition case_event_rows :: "string \<Rightarrow> uuid \<Rightarrow> db \<Rightarrow> support_case_event list" where
  "case_event_rows tenant_id case_id s =
     filter (\<lambda>e. ce_tenant_id e = tenant_id \<and> ce_case_id e = case_id) (support_case_events s)"

definition repo_list_case_events ::
  "environment \<Rightarrow> access_scope \<Rightarrow> uuid \<Rightarrow> nat \<Rightarrow> nat \<Rightarrow> (world, support_case_event page) prog" where
  "repo_list_case_events E scope case_id limit offset =
     bnd (db_call E CasePersistenceError
            (\<lambda>s. Inr (length (case_event_rows (sc_tenant_id scope) case_id s), s))) (\<lambda>total.
     bnd (db_call E CasePersistenceError
            (\<lambda>s. Inr (take limit (drop offset
               (sort_key (\<lambda>e. (ce_created_at e, ce_event_id e))
                 (case_event_rows (sc_tenant_id scope) case_id s))), s))) (\<lambda>rows.
     bnd (lift (decode_rows mk_support_case_event rows)) (\<lambda>items.
       ret \<lparr>pg_items = items, pg_total = total, pg_limit = limit, pg_offset = offset\<rparr>)))"

section \<open>Writes\<close>

definition create_case_tx :: "support_case \<Rightarrow> support_case_event \<Rightarrow> db \<Rightarrow> exn + db" where
  "create_case_tx c e s =
     (case insert_support_case c s of
        Inl err \<Rightarrow> Inl (case_sql_exn e err)
      | Inr s1 \<Rightarrow>
         (case insert_case_event e s1 of Inl err \<Rightarrow> Inl (case_sql_exn e err) | Inr s2 \<Rightarrow> Inr s2))"

definition update_case_tx ::
  "visibility \<Rightarrow> support_case \<Rightarrow> support_case_event \<Rightarrow> int \<Rightarrow> db \<Rightarrow> exn + db" where
  "update_case_tx v c e expected_version s =
     (case update_support_cases
             (\<lambda>r. cs_case_id r = cs_case_id c \<and> cs_version r = expected_version \<and> case_visible v r)
             (set_case_columns c) s of
        Inl err \<Rightarrow> Inl (case_sql_exn e err)
      | Inr (rowcount, s1) \<Rightarrow>
         if rowcount \<noteq> 1 then Inl ConcurrentCaseUpdateError
         else (case insert_case_event e s1 of
                 Inl err \<Rightarrow> Inl (case_sql_exn e err) | Inr s2 \<Rightarrow> Inr s2))"

definition enqueue_command ::
  "support_case \<Rightarrow> support_case_event \<Rightarrow> provider_command_envelope \<Rightarrow> db \<Rightarrow> exn + db" where
  "enqueue_command c e command s =
     (case insert_outbox_message command Out_pending (cs_updated_at c) (cs_updated_at c) s of
        Inl err \<Rightarrow> Inl (case_sql_exn e err) | Inr s' \<Rightarrow> Inr s')"

definition has_case_command :: "uuid \<Rightarrow> db \<Rightarrow> bool" where
  "has_case_command case_id s \<longleftrightarrow>
     list_ex (\<lambda>m. ob_aggregate_type m = Agg_support_case \<and> ob_aggregate_id m = case_id)
       (outbox_messages s)"

definition append_ensure_tx ::
  "visibility \<Rightarrow> support_case \<Rightarrow> support_case_event \<Rightarrow> provider_command_envelope \<Rightarrow> int \<Rightarrow> db
     \<Rightarrow> exn + bool \<times> db" where
  "append_ensure_tx v c e command expected_version s =
     (case update_case_tx v c e expected_version s of
        Inl err \<Rightarrow> Inl err
      | Inr s1 \<Rightarrow>
         if has_case_command (cs_case_id c) s1 then Inr (False, s1)
         else map_sum id (Pair True) (enqueue_command c e command s1))"

definition then_tx :: "(db \<Rightarrow> exn + db) \<Rightarrow> (db \<Rightarrow> exn + db) \<Rightarrow> db \<Rightarrow> exn + db" where
  "then_tx f g s = (case f s of Inl e \<Rightarrow> Inl e | Inr s' \<Rightarrow> g s')"

abbreviation commit_case :: "exn + db \<Rightarrow> exn + unit \<times> db" where
  "commit_case r \<equiv> map_sum id (Pair ()) r"

definition repo_create_case_with_event ::
  "environment \<Rightarrow> access_scope \<Rightarrow> support_case \<Rightarrow> support_case_event \<Rightarrow> (world, unit) prog" where
  "repo_create_case_with_event E scope c e =
     bnd (lift (validate_case_ownership scope c)) (\<lambda>_.
     bnd (lift (validate_case_event_ownership scope e)) (\<lambda>_.
       db_call E CasePersistenceError (\<lambda>s. commit_case (create_case_tx c e s))))"

definition repo_update_case_with_event ::
  "environment \<Rightarrow> access_scope \<Rightarrow> support_case \<Rightarrow> support_case_event \<Rightarrow> int \<Rightarrow> (world, unit) prog" where
  "repo_update_case_with_event E scope c e expected_version =
     bnd (require (cs_version c = expected_version + 1)
            (ValueError ''case.version must equal expected_version + 1'')) (\<lambda>_.
     bnd (lift (validate_case_ownership scope c)) (\<lambda>_.
     bnd (lift (validate_case_event_ownership scope e)) (\<lambda>_.
     bnd (lift (case_visibility scope)) (\<lambda>v.
       db_call E CasePersistenceError
         (\<lambda>s. commit_case (update_case_tx v c e expected_version s))))))"

definition repo_create_case_with_event_and_command ::
  "environment \<Rightarrow> access_scope \<Rightarrow> support_case \<Rightarrow> support_case_event \<Rightarrow> provider_command_envelope
     \<Rightarrow> (world, unit) prog" where
  "repo_create_case_with_event_and_command E scope c e command =
     bnd (lift (validate_case_command_association c e command)) (\<lambda>_.
     bnd (lift (validate_case_ownership scope c)) (\<lambda>_.
     bnd (lift (validate_case_event_ownership scope e)) (\<lambda>_.
       db_call E CasePersistenceError
         (\<lambda>s. commit_case (then_tx (create_case_tx c e) (enqueue_command c e command) s)))))"

definition repo_update_case_with_event_and_command ::
  "environment \<Rightarrow> access_scope \<Rightarrow> support_case \<Rightarrow> support_case_event \<Rightarrow> provider_command_envelope
     \<Rightarrow> int \<Rightarrow> (world, unit) prog" where
  "repo_update_case_with_event_and_command E scope c e command expected_version =
     bnd (require (cs_version c = expected_version + 1)
            (ValueError ''case.version must equal expected_version + 1'')) (\<lambda>_.
     bnd (lift (validate_case_command_association c e command)) (\<lambda>_.
     bnd (lift (validate_case_ownership scope c)) (\<lambda>_.
     bnd (lift (validate_case_event_ownership scope e)) (\<lambda>_.
     bnd (lift (case_visibility scope)) (\<lambda>v.
       db_call E CasePersistenceError
         (\<lambda>s. commit_case (then_tx (update_case_tx v c e expected_version)
               (enqueue_command c e command) s)))))))"

definition repo_append_delivery_trigger_and_ensure_command ::
  "environment \<Rightarrow> access_scope \<Rightarrow> support_case \<Rightarrow> support_case_event \<Rightarrow> provider_command_envelope
     \<Rightarrow> int \<Rightarrow> (world, bool) prog" where
  "repo_append_delivery_trigger_and_ensure_command E scope c e command expected_version =
     bnd (require (cs_version c = expected_version + 1)
            (ValueError ''case.version must equal expected_version + 1'')) (\<lambda>_.
     bnd (lift (validate_case_command_association c e command)) (\<lambda>_.
     bnd (lift (validate_case_ownership scope c)) (\<lambda>_.
     bnd (lift (validate_case_event_ownership scope e)) (\<lambda>_.
     bnd (lift (case_visibility scope)) (\<lambda>v.
       db_call E CasePersistenceError (append_ensure_tx v c e command expected_version))))))"

section \<open>What a transaction commits keeps the contract\<close>

lemma commit_case_Inr: "commit_case r = Inr (u, t) \<longleftrightarrow> r = Inr t"
  by (cases r) auto

lemma update_case_tx_Inr:
  assumes "update_case_tx v c e n s = Inr t" and "committed s"
  obtains r where "r \<in> set (support_cases s)" "cs_case_id r = cs_case_id c" "cs_version r = n"
    "case_visible v r"
    "t = s\<lparr>support_cases := update_rows (\<lambda>q. q = r) (set_case_columns c) (support_cases s),
           support_case_events := support_case_events s @ [e]\<rparr>"
    "db_ok t"
proof -
  let ?sel = "\<lambda>r. cs_case_id r = cs_case_id c \<and> cs_version r = n \<and> case_visible v r"
  let ?rows = "support_cases s"
  obtain s1 where u: "update_support_cases ?sel (set_case_columns c) s = Inr (1, s1)"
    and ev: "insert_case_event e s1 = Inr t"
    using assms(1) by (auto simp: update_case_tx_def split: sum.splits if_splits)
  from u have len: "length (filter ?sel ?rows) = 1"
    and s1: "s1 = s\<lparr>support_cases := update_rows ?sel (set_case_columns c) ?rows\<rparr>"
    by (auto simp: update_support_cases_def Let_def split: if_splits option.splits)
  from len obtain r where "filter ?sel ?rows = [r]" by (auto simp: length_Suc_conv)
  then have "r \<in> set (filter ?sel ?rows)" by simp
  then have r: "r \<in> set ?rows" "?sel r" by simp_all
  have eq: "?sel q \<longleftrightarrow> q = r" if "q \<in> set ?rows" for q
    using that r committedD(6)[OF assms(2)] by (metis distinct_map inj_onD)
  have "update_rows ?sel (set_case_columns c) ?rows
        = update_rows (\<lambda>q. q = r) (set_case_columns c) ?rows"
    unfolding update_rows_def by (rule map_cong) (use eq in auto)
  moreover have "db_ok s1"
    by (rule update_support_cases_ok[OF committedD(1)[OF assms(2)] u]) simp_all
  ultimately show ?thesis
    using that[OF r(1)] r(2) ev s1 insert_case_event_ok[OF _ ev] by (simp add: insert_case_event_Inr)
qed

text \<open>A write over the case \<open>cur\<close> that was read: validated, same origin, next version, nothing
  lost of the recorded reasons and risks.\<close>

definition case_copy_of :: "support_case \<Rightarrow> support_case \<Rightarrow> bool" where
  "case_copy_of cur c \<longleftrightarrow>
     same_origin cur c \<and> cs_version c = cs_version cur + 1
     \<and> set (cs_reason_codes cur) \<subseteq> set (cs_reason_codes c)
     \<and> set (cs_risk_categories cur) \<subseteq> set (cs_risk_categories c)
     \<and> trim_support_case c = c \<and> valid_support_case c"

lemma trim_support_case_sel:
  "cs_case_id (trim_support_case c) = cs_case_id c"
  "cs_version (trim_support_case c) = cs_version c"
  "cs_status (trim_support_case c) = cs_status c"
  "cs_priority (trim_support_case c) = cs_priority c"
  "cs_case_type (trim_support_case c) = cs_case_type c"
  "cs_reason_codes (trim_support_case c) = cs_reason_codes c"
  "cs_risk_categories (trim_support_case c) = cs_risk_categories c"
  "cs_assigned_agent_id (trim_support_case c) = map_option trim (cs_assigned_agent_id c)"
  by (simp_all add: trim_support_case_def)

lemma same_origin_columns: "same_origin r (set_case_columns c r)"
  by (simp add: same_origin_def set_case_columns_def)

lemma trim_case_columns:
  assumes "cur = trim_support_case r" and "case_copy_of cur c"
  shows "trim_support_case (set_case_columns c r) = c"
proof -
  have c: "trim_support_case c = c" "same_origin cur c" using assms(2) by (simp_all add: case_copy_of_def)
  have "cs_order_id c = map_option trim (cs_order_id c)" "cs_display_reason c = trim (cs_display_reason c)"
    "cs_assigned_agent_id c = map_option trim (cs_assigned_agent_id c)"
    by (subst c(1)[symmetric], simp add: trim_support_case_def)+
  then show ?thesis
    using c(2) by (intro support_case.equality)
      (simp_all add: assms(1) same_origin_def trim_support_case_def set_case_columns_def)
qed

lemma case_progress_trim: "case_progress_of (trim_support_case c) = case_progress_of c"
  by (simp add: case_progress_of_def trim_support_case_sel option.map_comp comp_def)

lemma case_trail_append:
  "case_trail (s\<lparr>support_cases := a, support_case_events := support_case_events s @ es\<rparr>) u
   = case_trail s u @ filter (\<lambda>e. ce_case_id e = u) es"
  by (simp add: case_trail_def)

lemma case_trail_new:
  assumes "db_ok s" and "u \<notin> cs_case_id ` set (support_cases s)"
  shows "case_trail s u = []"
  using assms by (auto simp: db_ok_def case_events_ok_def case_trail_def filter_empty_conv)

lemma cases_audited_update:
  assumes "cases_audited s" and r: "r \<in> set (support_cases s)"
    and d: "distinct (map cs_case_id (support_cases s))"
    and e: "ce_case_id e = cs_case_id r"
    and rep: "replay_case (case_progress_of r) [e] = Some (case_progress_of (set_case_columns c r))"
  shows "cases_audited (s\<lparr>support_cases :=
            update_rows (\<lambda>q. q = r) (set_case_columns c) (support_cases s),
            support_case_events := support_case_events s @ [e]\<rparr>)" (is "cases_audited ?t")
  unfolding cases_audited_def list_all_iff
proof
  fix q
  assume "q \<in> set (support_cases ?t)"
  then consider (new) "q = set_case_columns c r" | (old) "q \<in> set (support_cases s)" "q \<noteq> r"
    by (auto simp: update_rows_def)
  then show "replay_case (Open, None) (case_trail ?t (cs_case_id q)) = Some (case_progress_of q)"
  proof cases
    case new
    then show ?thesis
      using assms(1) r rep e
      by (simp add: cases_audited_def list_all_iff case_trail_append replay_case_append)
  next
    case old
    then have "cs_case_id q \<noteq> cs_case_id r" using d r by (metis distinct_map inj_onD)
    then show ?thesis
      using assms(1) old e by (simp add: cases_audited_def list_all_iff case_trail_append)
  qed
qed

lemma case_operations_untouched [simp]:
  "commands_keyed (s\<lparr>support_cases := a, support_case_events := b\<rparr>) = commands_keyed s"
  "operations_audited (s\<lparr>support_cases := a, support_case_events := b\<rparr>) = operations_audited s"
  by (simp_all add: operations_audited_def operation_trail_def commands_keyed_def)

lemma update_case_contract:
  assumes s: "committed s" and past: "evolves s1 s" "r0 \<in> set (support_cases s1)"
      "mk_support_case r0 = Inr cur"
    and tx: "update_case_tx v c e (cs_version cur) s = Inr t"
    and c: "case_copy_of cur c"
    and e: "ce_case_id e = cs_case_id cur" "case_event_readable e"
      "replay_case (case_progress_of cur) [e] = Some (case_progress_of c)"
  shows "committed t \<and> evolves s t"
proof -
  have cur: "cur = trim_support_case r0" using past(3) by (auto simp: mk_support_case_Inr)
  obtain r where r: "r \<in> set (support_cases s)" "cs_case_id r = cs_case_id c"
    "cs_version r = cs_version cur"
    and t: "t = s\<lparr>support_cases := update_rows (\<lambda>q. q = r) (set_case_columns c) (support_cases s),
           support_case_events := support_case_events s @ [e]\<rparr>"
    and ok: "db_ok t"
    by (rule update_case_tx_Inr[OF tx s])
  have id: "cs_case_id c = cs_case_id cur" using c by (simp add: case_copy_of_def same_origin_def)
  have "r = r0"
    by (rule evolves_case_same_version[OF past(1) s past(2) r(1)])
       (use r id in \<open>simp_all add: cur trim_support_case_sel\<close>)
  then have cur_r: "cur = trim_support_case r" using cur by simp
  have new: "trim_support_case (set_case_columns c r) = c" by (rule trim_case_columns[OF cur_r c])
  have "case_readable (set_case_columns c r)"
    using c by (simp add: case_readable_def new case_copy_of_def)
  then have "readable t"
    using committedD(2)[OF s] e(2) by (auto simp: readable_def list_all_iff t update_rows_def)
  moreover have "replay_case (case_progress_of r) [e] = Some (case_progress_of (set_case_columns c r))"
    using e(3) case_progress_trim[of r] case_progress_trim[of "set_case_columns c r"]
    by (simp only: cur_r new)
  then have "cases_audited t"
    unfolding t by (intro cases_audited_update[OF committedD(4)[OF s] r(1) committedD(6)[OF s]])
       (use e(1) id r(2) in auto)
  moreover have "operations_audited t" "commands_keyed t"
    using committedD(3,7)[OF s] by (simp_all add: t)
  ultimately have "committed t" using ok by (simp add: committed_def)
  moreover have "case_advances r (set_case_columns c r)"
  proof -
    have "cs_version r < cs_version c" using c r(3) by (simp add: case_copy_of_def)
    moreover have "set (cs_reason_codes r) \<subseteq> set (cs_reason_codes c)"
      "set (cs_risk_categories r) \<subseteq> set (cs_risk_categories c)"
      using c by (simp_all add: case_copy_of_def cur_r trim_support_case_sel)
    ultimately show ?thesis
      by (simp add: case_advances_def same_origin_columns) (simp add: set_case_columns_def)
  qed
  then have "evolves s t"
    by (auto simp: evolves_def t rows_evolve_refl intro!: rows_evolve_update)
  ultimately show ?thesis ..
qed

lemma create_case_contract:
  assumes s: "committed s" and tx: "create_case_tx c e s = Inr t"
    and c: "case_readable c" and e: "ce_case_id e = cs_case_id c" "case_event_readable e"
      "replay_case (Open, None) [e] = Some (case_progress_of c)"
  shows "committed t \<and> evolves s t"
proof -
  obtain s1 where ins: "insert_support_case c s = Inr s1" and ev: "insert_case_event e s1 = Inr t"
    using tx by (auto simp: create_case_tx_def split: sum.splits)
  have ok: "db_ok t"
    using insert_case_event_ok[OF insert_support_case_ok[OF committedD(1)[OF s] ins] ev] .
  have new: "cs_case_id c \<notin> cs_case_id ` set (support_cases s)"
    and s1: "s1 = s\<lparr>support_cases := support_cases s @ [c]\<rparr>"
    using ins by (auto simp: insert_support_case_def Let_def key_taken_def list_ex_iff
        split: if_splits option.splits)
  have t: "t = s\<lparr>support_cases := support_cases s @ [c],
                support_case_events := support_case_events s @ [e]\<rparr>"
    using ev by (simp add: insert_case_event_Inr s1)
  have other: "cs_case_id q \<noteq> cs_case_id c" if "q \<in> set (support_cases s)" for q
    using new that by (metis imageI)
  have "replay_case (Open, None) (case_trail t (cs_case_id q)) = Some (case_progress_of q)"
    if "q \<in> set (support_cases s)" for q
    using committedD(4)[OF s] e(1) other[OF that] that
    by (simp add: cases_audited_def list_all_iff t case_trail_append)
  moreover have "case_trail t (cs_case_id c) = [e]"
    using case_trail_new[OF committedD(1)[OF s] new] e(1) by (simp add: t case_trail_append)
  ultimately have "cases_audited t"
    using e(3) by (simp only: cases_audited_def list_all_iff) (auto simp: t)
  moreover have "readable t"
    using committedD(2)[OF s] c e(2) by (auto simp: readable_def list_all_iff t)
  moreover have "operations_audited t" "commands_keyed t"
    using committedD(3,7)[OF s] by (simp_all add: t)
  ultimately show ?thesis
    using ok by (simp add: committed_def evolves_def t rows_evolve_refl rows_evolve_append)
qed

lemma enqueue_command_Inr:
  "enqueue_command c e command s = Inr t \<longleftrightarrow>
     insert_outbox_message command Out_pending (cs_updated_at c) (cs_updated_at c) s = Inr t"
  by (auto simp: enqueue_command_def split: sum.splits)

lemma enqueue_command_contract:
  assumes "committed s" and "enqueue_command c e command s = Inr t" and "valid_command command"
  shows "committed t \<and> evolves s t"
proof -
  let ?m = "outbox_of_command command Out_pending (cs_updated_at c) (cs_updated_at c)"
  have ins: "insert_outbox_message command Out_pending (cs_updated_at c) (cs_updated_at c) s = Inr t"
    using assms(2) by (simp add: enqueue_command_Inr)
  then have t: "t = s\<lparr>outbox_messages := outbox_messages s @ [?m]\<rparr>"
    by (simp add: insert_outbox_message_Inr)
  have "operations_audited t = operations_audited s" "cases_audited t = cases_audited s"
    by (simp_all add: t operations_audited_def cases_audited_def operation_trail_def case_trail_def)
  moreover have "readable t = readable s" by (simp add: t readable_def)
  moreover have "commands_keyed t"
    using committedD(7)[OF assms(1)] assms(3) by (simp add: t commands_keyed_def command_keyed_of_command)
  ultimately show ?thesis
    using assms(1) insert_outbox_message_ok[OF committedD(1)[OF assms(1)] ins]
    by (simp add: committed_def) (simp add: t evolves_def rows_evolve_refl rows_evolve_append)
qed

lemma then_tx_Inr: "then_tx f g s = Inr t \<longleftrightarrow> (\<exists>s1. f s = Inr s1 \<and> g s1 = Inr t)"
  by (auto simp: then_tx_def split: sum.splits)

lemma append_ensure_tx_Inr:
  assumes "append_ensure_tx v c e command n s = Inr (b, t)"
  obtains s1 where "update_case_tx v c e n s = Inr s1"
    "(has_case_command (cs_case_id c) s1 \<and> \<not> b \<and> t = s1)
     \<or> (\<not> has_case_command (cs_case_id c) s1 \<and> b \<and> enqueue_command c e command s1 = Inr t)"
proof -
  obtain s1 where s1: "update_case_tx v c e n s = Inr s1"
    using assms by (auto simp: append_ensure_tx_def split: sum.splits)
  with assms that show ?thesis
    by (cases "enqueue_command c e command s1") (auto simp: append_ensure_tx_def split: if_splits)
qed

section \<open>Optimistic locking\<close>

lemma update_case_tx_stale:
  assumes "\<And>r. r \<in> set (support_cases s) \<Longrightarrow> cs_case_id r = cs_case_id c \<Longrightarrow> cs_version r \<noteq> n"
  shows "update_case_tx v c e n s = Inl ConcurrentCaseUpdateError"
proof -
  have "filter (\<lambda>r. cs_case_id r = cs_case_id c \<and> cs_version r = n \<and> case_visible v r)
          (support_cases s) = []"
    using assms by (auto simp: filter_empty_conv)
  then show ?thesis by (simp add: update_case_tx_def update_support_cases_def Let_def)
qed

lemma update_case_tx_rows:
  assumes "committed s" and "update_case_tx v c e n s = Inr t"
  shows "\<exists>r\<in>set (support_cases t). cs_case_id r = cs_case_id c \<and> cs_version r = cs_version c"
    and "r \<in> set (support_cases s) \<Longrightarrow> cs_case_id r \<noteq> cs_case_id c \<Longrightarrow> r \<in> set (support_cases t)"
proof -
  obtain q where q: "q \<in> set (support_cases s)" "cs_case_id q = cs_case_id c"
    and t: "support_cases t = update_rows (\<lambda>r. r = q) (set_case_columns c) (support_cases s)"
    by (rule update_case_tx_Inr[OF assms(2,1)]) simp
  have "set_case_columns c q \<in> set (support_cases t)"
    using q(1) by (simp add: t update_rows_def)
  then show "\<exists>r\<in>set (support_cases t). cs_case_id r = cs_case_id c \<and> cs_version r = cs_version c"
    using q(2) by (intro bexI[of _ "set_case_columns c q"]) simp_all
  assume "r \<in> set (support_cases s)" "cs_case_id r \<noteq> cs_case_id c"
  then have "r \<noteq> q" using q(2) by auto
  then show "r \<in> set (support_cases t)"
    using \<open>r \<in> set (support_cases s)\<close> by (simp add: t update_rows_def)
qed

interpretation case_store: versioned_store support_cases cs_case_id cs_version committed
  "\<lambda>(v, e) c n s. update_case_tx v c e n s" ConcurrentCaseUpdateError
  by unfold_locales (auto simp: committedD(6) update_case_tx_stale intro: update_case_tx_rows)

lemma enqueue_command_cases: "enqueue_command c e command s = Inr t \<Longrightarrow> support_cases t = support_cases s"
  by (auto simp: enqueue_command_Inr insert_outbox_message_Inr)

interpretation case_queue: versioned_store support_cases cs_case_id cs_version committed
  "\<lambda>(v, e, cmd) c n s. then_tx (update_case_tx v c e n) (enqueue_command c e cmd) s"
  ConcurrentCaseUpdateError
proof unfold_locales
  fix s t c n and x :: support_case
  show "committed s \<Longrightarrow> (case c of (v, e, cmd) \<Rightarrow> \<lambda>c n. then_tx (update_case_tx v c e n)
      (enqueue_command c e cmd)) x n s = Inr t \<Longrightarrow>
      \<exists>r\<in>set (support_cases t). cs_case_id r = cs_case_id x \<and> cs_version r = cs_version x"
    by (auto simp: then_tx_Inr enqueue_command_cases update_case_tx_rows(1) split: prod.splits)
  fix r
  show "committed s \<Longrightarrow> (case c of (v, e, cmd) \<Rightarrow> \<lambda>c n. then_tx (update_case_tx v c e n)
      (enqueue_command c e cmd)) x n s = Inr t \<Longrightarrow> r \<in> set (support_cases s) \<Longrightarrow>
      cs_case_id r \<noteq> cs_case_id x \<Longrightarrow> r \<in> set (support_cases t)"
    by (auto simp: then_tx_Inr enqueue_command_cases update_case_tx_rows(2) split: prod.splits)
qed (auto simp: committedD(6) then_tx_def update_case_tx_stale)

lemma evolves_case_versions: "evolves t u \<Longrightarrow> case_store.versions_grow t u"
  unfolding case_store.versions_grow_def
proof
  fix r
  assume "evolves t u" "r \<in> set (support_cases t)"
  then obtain r' where "r' \<in> set (support_cases u)" "case_advances r r'"
    "cs_case_id r' = cs_case_id r" by (rule evolves_case)
  then show "\<exists>r'\<in>set (support_cases u). cs_case_id r' = cs_case_id r \<and> cs_version r \<le> cs_version r'"
    by (auto simp: case_advances_def intro!: bexI[of _ r'])
qed

end
