(* ===== verification/Case_Service.thy ===== *)
theory Case_Service
  imports Case_Store
begin

text \<open>
  \<^verbatim>\<open>CaseService\<close> (\<^verbatim>\<open>src/agent/cases/service.py\<close>): recording a handoff as a new case or as a
  trigger of the unresolved one, delivery investigations with their provider command, status
  changes and assignment. The personnel directory is a parameter, absent (\<^const>\<open>None\<close>) when no
  directory is configured.
\<close>

section \<open>Helpers\<close>

definition merge_unique :: "'a list \<Rightarrow> 'a list \<Rightarrow> 'a list" where
  "merge_unique current incoming = dedup (current @ incoming)"

fun risk_level_rank :: "semantic_risk_level \<Rightarrow> nat" where
  "risk_level_rank Risk_none = 0"
| "risk_level_rank Risk_low = 1"
| "risk_level_rank Risk_medium = 2"
| "risk_level_rank Risk_high = 3"
| "risk_level_rank Risk_critical = 4"

fun select_higher_risk_level ::
  "semantic_risk_level option \<Rightarrow> semantic_risk_level option \<Rightarrow> semantic_risk_level option" where
  "select_higher_risk_level None incoming = incoming"
| "select_higher_risk_level (Some c) None = Some c"
| "select_higher_risk_level (Some c) (Some i) =
     (if risk_level_rank c < risk_level_rank i then Some i else Some c)"

definition message_idempotency_key :: "case_trigger \<Rightarrow> string" where
  "message_idempotency_key t =
     ''message:'' @ tr_thread_id t @ '':'' @ tr_source_message_id t"

definition case_request_key :: "string \<Rightarrow> uuid \<Rightarrow> string \<Rightarrow> string" where
  "case_request_key verb case_id request_id = verb @ '':'' @ uuid_str case_id @ '':'' @ request_id"

definition validate_on_hold_request :: "case_status \<Rightarrow> on_hold_reason option \<Rightarrow> exn + unit" where
  "validate_on_hold_request target reason =
     (if target = On_hold \<and> reason = None
      then Inl (ValueError ''on_hold_reason is required when putting a case on hold'')
      else if target \<noteq> On_hold \<and> reason \<noteq> None
      then Inl (ValueError ''on_hold_reason is only valid for the on_hold status'')
      else Inr ())"

definition require_case_read :: "access_scope \<Rightarrow> exn + unit" where
  "require_case_read scope =
     (if has_any_permission scope [Cases_read_own, Cases_read_assigned, Cases_read_all] then Inr ()
      else Inl (ForbiddenError ''the caller cannot read support cases''))"

definition require_case_update :: "access_scope \<Rightarrow> exn + unit" where
  "require_case_update scope =
     (if has_any_permission scope [Cases_update_assigned, Cases_update_all] then Inr ()
      else Inl (ForbiddenError ''the caller cannot update support cases''))"

definition validate_agent_id :: "string \<Rightarrow> exn + string" where
  "validate_agent_id agent_id =
     (let normalized = strip agent_id in
      if normalized = [] then Inl (ValueError ''agent_id must not be empty'')
      else if 128 < length normalized
      then Inl (ValueError ''agent_id must not exceed 128 characters'')
      else if CHR '':'' \<in> set normalized then Inl (ValueError ''agent_id must not contain colon'')
      else if normalized \<in> set RESERVED_AGENT_IDS then Inl (ValueError ''agent_id is reserved'')
      else Inr normalized)"

definition case_result ::
  "case_service_action \<Rightarrow> support_case option \<Rightarrow> support_case_event option
     \<Rightarrow> (world, case_service_result) prog" where
  "case_result action c e =
     lift (mk_case_service_result \<lparr>cv_action = action, cv_case = c, cv_event = e\<rparr>)"

section \<open>Reads\<close>

definition get_case :: "environment \<Rightarrow> access_scope \<Rightarrow> uuid \<Rightarrow> (world, support_case) prog" where
  "get_case E scope case_id =
     bnd (lift (require_case_read scope)) (\<lambda>_.
     bnd (repo_get_case E scope case_id) (\<lambda>c.
       case c of None \<Rightarrow> throw CaseNotFoundError | Some x \<Rightarrow> ret x))"

definition list_cases ::
  "environment \<Rightarrow> access_scope \<Rightarrow> case_list_query \<Rightarrow> (world, support_case page) prog" where
  "list_cases E scope q =
     bnd (lift (require_case_read scope)) (\<lambda>_. repo_list_cases E scope q)"

definition list_case_events ::
  "environment \<Rightarrow> access_scope \<Rightarrow> uuid \<Rightarrow> int \<Rightarrow> int \<Rightarrow> (world, support_case_event page) prog" where
  "list_case_events E scope case_id limit offset =
     bnd (lift (require_case_read scope)) (\<lambda>_.
     bnd (require (1 \<le> limit \<and> limit \<le> 200) (ValueError ''limit must be between 1 and 200'')) (\<lambda>_.
     bnd (require (0 \<le> offset) (ValueError ''offset must not be negative'')) (\<lambda>_.
     bnd (repo_get_case E scope case_id) (\<lambda>c.
       case c of
         None \<Rightarrow> throw CaseNotFoundError
       | Some _ \<Rightarrow> repo_list_case_events E scope case_id (nat limit) (nat offset)))))"

section \<open>Recording a handoff\<close>

definition trigger_event ::
  "uuid \<Rightarrow> case_trigger \<Rightarrow> handoff_decision \<Rightarrow> uuid \<Rightarrow> case_event_type \<Rightarrow> case_priority option
     \<Rightarrow> case_priority \<Rightarrow> case_status \<Rightarrow> string \<Rightarrow> string \<Rightarrow> instant \<Rightarrow> support_case_event" where
  "trigger_event event_id trigger decision case_id event_type previous_priority current_priority
     current_status customer_id tenant_id now =
     \<lparr>ce_event_id = event_id, ce_idempotency_key = message_idempotency_key trigger,
      ce_case_id = case_id, ce_event_type = event_type,
      ce_source_message_id = Some (tr_source_message_id trigger),
      ce_order_id = tr_order_id trigger, ce_risk_level = tr_risk_level trigger,
      ce_risk_categories = tr_risk_categories trigger,
      ce_reason_codes = hd_reason_codes decision,
      ce_triggering_message_excerpt = tr_triggering_message_excerpt trigger,
      ce_previous_priority = previous_priority, ce_current_priority = Some current_priority,
      ce_previous_status = None, ce_current_status = Some current_status,
      ce_on_hold_reason = None, ce_previous_assigned_agent_id = None,
      ce_current_assigned_agent_id = None, ce_provider_command_id = None,
      ce_provider_command_status = None, ce_provider_reference = None,
      ce_provider_redrive_reason_code = None, ce_actor = Some ''system'',
      ce_customer_id = customer_id, ce_tenant_id = tenant_id, ce_created_at = now\<rparr>"

definition new_case ::
  "access_scope \<Rightarrow> string \<Rightarrow> case_trigger \<Rightarrow> handoff_decision \<Rightarrow> case_type \<Rightarrow> case_priority
     \<Rightarrow> string \<Rightarrow> uuid \<Rightarrow> instant \<Rightarrow> support_case" where
  "new_case scope customer_id trigger decision case_type priority created_by case_id now =
     \<lparr>cs_case_id = case_id, cs_thread_id = tr_thread_id trigger,
      cs_source_message_id = tr_source_message_id trigger, cs_order_id = tr_order_id trigger,
      cs_case_type = case_type, cs_priority = priority, cs_status = Open,
      cs_risk_level = tr_risk_level trigger, cs_risk_categories = tr_risk_categories trigger,
      cs_reason_codes = hd_reason_codes decision, cs_display_reason = hd_display_reason decision,
      cs_triggering_message_excerpt = tr_triggering_message_excerpt trigger,
      cs_on_hold_reason = None, cs_created_at = now, cs_updated_at = now, cs_version = 1,
      cs_customer_id = customer_id, cs_tenant_id = sc_tenant_id scope, cs_created_by = created_by,
      cs_assigned_agent_id = None\<rparr>"

definition create_case ::
  "environment \<Rightarrow> access_scope \<Rightarrow> string \<Rightarrow> case_trigger \<Rightarrow> handoff_decision \<Rightarrow> case_type
     \<Rightarrow> case_priority \<Rightarrow> (world, case_service_result) prog" where
  "create_case E scope customer_id trigger decision case_type priority =
     bnd (clock E) (\<lambda>now.
     bnd (id_factory E) (\<lambda>case_id.
     bnd (lift (sc_identity scope)) (\<lambda>created_by.
     bnd (lift (mk_support_case
       (new_case scope customer_id trigger decision case_type priority created_by case_id now))) (\<lambda>c.
     bnd (id_factory E) (\<lambda>event_id.
     bnd (lift (mk_support_case_event
       (trigger_event event_id trigger decision case_id Case_created None priority Open
          customer_id (sc_tenant_id scope) now))) (\<lambda>event.
     bnd (repo_create_case_with_event E scope c event) (\<lambda>_.
       case_result Case_act_created (Some c) (Some event))))))))"

definition create_delivery_case_with_command ::
  "environment \<Rightarrow> access_scope \<Rightarrow> string \<Rightarrow> case_trigger \<Rightarrow> handoff_decision \<Rightarrow> case_priority
     \<Rightarrow> delivery_issue_type \<Rightarrow> string \<Rightarrow> (world, case_service_result) prog" where
  "create_delivery_case_with_command E scope customer_id trigger decision priority issue_type
     connection_id =
     bnd (require (tr_order_id trigger \<noteq> None)
            (ValueError ''delivery investigation requires an order_id'')) (\<lambda>_.
     bnd (clock E) (\<lambda>now.
     bnd (id_factory E) (\<lambda>case_id.
     bnd (lift (sc_identity scope)) (\<lambda>created_by.
     bnd (lift (mk_support_case (new_case scope customer_id trigger decision Delivery_investigation
            priority created_by case_id now))) (\<lambda>c.
     bnd (id_factory E) (\<lambda>event_id.
     bnd (lift (mk_support_case_event
       (trigger_event event_id trigger decision (cs_case_id c) Case_created None (cs_priority c)
          (cs_status c) (cs_customer_id c) (cs_tenant_id c) now))) (\<lambda>event.
     bnd (id_factory E) (\<lambda>command_id.
     bnd (lift (for_delivery_investigation c issue_type connection_id command_id now)) (\<lambda>command.
     bnd (repo_create_case_with_event_and_command E scope c event command) (\<lambda>_.
       case_result Case_act_created (Some c) (Some event)))))))))))"

text \<open>The merge of a trigger into the unresolved case it belongs to.\<close>

definition merged_case ::
  "support_case \<Rightarrow> case_trigger \<Rightarrow> handoff_decision \<Rightarrow> case_priority \<Rightarrow> instant \<Rightarrow> support_case" where
  "merged_case existing trigger decision priority now =
     (let merged_reasons = merge_unique (cs_reason_codes existing) (hd_reason_codes decision) in
      existing\<lparr>cs_order_id := py_or (cs_order_id existing) (tr_order_id trigger),
        cs_priority := select_higher_priority (cs_priority existing) priority,
        cs_risk_level := select_higher_risk_level (cs_risk_level existing) (tr_risk_level trigger),
        cs_risk_categories :=
          merge_unique (cs_risk_categories existing) (tr_risk_categories trigger),
        cs_reason_codes := merged_reasons,
        cs_display_reason := build_display_reason merged_reasons,
        cs_updated_at := now, cs_version := cs_version existing + 1\<rparr>)"

text \<open>The last argument is the pair (issue type, connection) of the queueing path, or nothing.\<close>

definition append_trigger ::
  "environment \<Rightarrow> access_scope \<Rightarrow> support_case \<Rightarrow> case_trigger \<Rightarrow> handoff_decision \<Rightarrow> case_priority
     \<Rightarrow> (delivery_issue_type \<times> string) option \<Rightarrow> (world, case_service_result) prog" where
  "append_trigger E scope existing trigger decision priority queueing =
     bnd (clock E) (\<lambda>now.
     bnd (lift (mk_support_case (merged_case existing trigger decision priority now))) (\<lambda>updated.
     bnd (id_factory E) (\<lambda>event_id.
     bnd (lift (mk_support_case_event
       (trigger_event event_id trigger decision (cs_case_id existing) Trigger_appended
          (Some (cs_priority existing))
          (select_higher_priority (cs_priority existing) priority)
          (cs_status existing) (cs_customer_id existing) (cs_tenant_id existing) now))) (\<lambda>event.
     if cs_case_type existing = Delivery_investigation
     then (case queueing of
        None \<Rightarrow>
          bnd (repo_update_case_with_event E scope updated event (cs_version existing)) (\<lambda>_.
            case_result Case_event_appended (Some updated) (Some event))
      | Some (issue_type, connection_id) \<Rightarrow>
          bnd (id_factory E) (\<lambda>command_id.
          bnd (lift (for_delivery_investigation updated issue_type connection_id command_id now))
            (\<lambda>command.
          bnd (repo_append_delivery_trigger_and_ensure_command E scope updated event command
                 (cs_version existing)) (\<lambda>_.
            case_result Case_event_appended (Some updated) (Some event)))))
     else
       bnd (repo_update_case_with_event E scope updated event (cs_version existing)) (\<lambda>_.
         case_result Case_event_appended (Some updated) (Some event))))))"

definition retry_on_case_conflict :: "exn \<Rightarrow> (world, 'a option) prog" where
  "retry_on_case_conflict err =
     (if err \<in> {ActiveCaseConflictError, ConcurrentCaseUpdateError, DuplicateIdempotencyKeyError,
                 DuplicateSourceMessageError}
      then ret None else throw err)"

definition some_result :: "(world, 'a) prog \<Rightarrow> (world, 'a option) prog" where
  "some_result m = bnd m (\<lambda>x. ret (Some x))"

definition handoff_attempt ::
  "environment \<Rightarrow> access_scope \<Rightarrow> string \<Rightarrow> case_trigger \<Rightarrow> handoff_decision \<Rightarrow> case_type
     \<Rightarrow> case_priority \<Rightarrow> (world, case_service_result option) prog" where
  "handoff_attempt E scope customer_id trigger decision case_type priority =
     bnd (repo_find_case_by_source_message E scope (tr_thread_id trigger)
            (tr_source_message_id trigger)) (\<lambda>duplicate.
       case duplicate of
         Some c \<Rightarrow> some_result (case_result Case_duplicate_ignored (Some c) None)
       | None \<Rightarrow>
          bnd (repo_find_unresolved_case E scope (tr_thread_id trigger) case_type
                 (tr_order_id trigger)) (\<lambda>existing.
            try_except
              (some_result (case existing of
                 None \<Rightarrow> create_case E scope customer_id trigger decision case_type priority
               | Some c \<Rightarrow> append_trigger E scope c trigger decision priority None))
              retry_on_case_conflict))"

definition record_handoff ::
  "environment \<Rightarrow> nat \<Rightarrow> access_scope \<Rightarrow> case_trigger \<Rightarrow> handoff_decision
     \<Rightarrow> (world, case_service_result) prog" where
  "record_handoff E n scope trigger decision =
     (case sc_customer_id scope of
        None \<Rightarrow> throw (ValueError ''only customers may create support cases'')
      | Some customer_id \<Rightarrow>
        if \<not> hd_should_create_case decision then case_result Case_not_created None None
        else case (hd_case_type decision, hd_priority decision) of
          (Some case_type, Some priority) \<Rightarrow>
            attempts n (handoff_attempt E scope customer_id trigger decision case_type priority)
              (throw ConcurrentCaseUpdateError)
        | _ \<Rightarrow> throw (ValueError ''A positive handoff decision must be complete''))"

definition investigation_attempt ::
  "environment \<Rightarrow> access_scope \<Rightarrow> string \<Rightarrow> case_trigger \<Rightarrow> handoff_decision \<Rightarrow> case_priority
     \<Rightarrow> delivery_issue_type \<Rightarrow> string \<Rightarrow> (world, case_service_result option) prog" where
  "investigation_attempt E scope customer_id trigger decision priority issue_type connection_id =
     bnd (repo_find_case_by_source_message E scope (tr_thread_id trigger)
            (tr_source_message_id trigger)) (\<lambda>duplicate.
       case duplicate of
         Some c \<Rightarrow> some_result (case_result Case_duplicate_ignored (Some c) None)
       | None \<Rightarrow>
          bnd (repo_find_unresolved_case E scope (tr_thread_id trigger) Delivery_investigation
                 (tr_order_id trigger)) (\<lambda>existing.
            try_except
              (some_result (case existing of
                 Some c \<Rightarrow> append_trigger E scope c trigger decision priority
                   (Some (issue_type, connection_id))
               | None \<Rightarrow> create_delivery_case_with_command E scope customer_id trigger decision
                   priority issue_type connection_id))
              retry_on_case_conflict))"

definition record_delivery_investigation ::
  "environment \<Rightarrow> nat \<Rightarrow> access_scope \<Rightarrow> case_trigger \<Rightarrow> handoff_decision \<Rightarrow> delivery_issue_type
     \<Rightarrow> string \<Rightarrow> (world, case_service_result) prog" where
  "record_delivery_investigation E n scope trigger decision issue_type connection_id =
     (case sc_customer_id scope of
        None \<Rightarrow> throw (ValueError ''only customers may create support cases'')
      | Some customer_id \<Rightarrow>
        (case hd_priority decision of
           Some priority \<Rightarrow>
             if hd_should_create_case decision \<and> hd_case_type decision = Some Delivery_investigation
             then (if strip connection_id = []
                   then throw (ValueError ''connection_id must not be empty'')
                   else attempts n (investigation_attempt E scope customer_id trigger decision
                          priority issue_type (strip connection_id))
                        (throw ConcurrentCaseUpdateError))
             else throw (ValueError ''a delivery-investigation handoff decision is required'')
         | None \<Rightarrow> throw (ValueError ''a delivery-investigation handoff decision is required'')))"

section \<open>Status changes and assignment\<close>

text \<open>An agent action on \<open>c\<close>: the fields of \<^verbatim>\<open>SupportCaseEvent\<close> both builders share; the rest are
  the class defaults.\<close>

definition agent_event ::
  "uuid \<Rightarrow> string \<Rightarrow> support_case \<Rightarrow> case_event_type \<Rightarrow> string \<Rightarrow> instant \<Rightarrow> support_case_event" where
  "agent_event event_id key c event_type actor now =
     \<lparr>ce_event_id = event_id, ce_idempotency_key = key, ce_case_id = cs_case_id c,
      ce_event_type = event_type, ce_source_message_id = None, ce_order_id = None,
      ce_risk_level = None, ce_risk_categories = [], ce_reason_codes = [],
      ce_triggering_message_excerpt = [], ce_previous_priority = None, ce_current_priority = None,
      ce_previous_status = None, ce_current_status = None, ce_on_hold_reason = None,
      ce_previous_assigned_agent_id = None, ce_current_assigned_agent_id = None,
      ce_provider_command_id = None, ce_provider_command_status = None,
      ce_provider_reference = None, ce_provider_redrive_reason_code = None,
      ce_actor = Some actor, ce_customer_id = cs_customer_id c, ce_tenant_id = cs_tenant_id c,
      ce_created_at = now\<rparr>"

text \<open>The answer for a request already recorded: the case its event belongs to.\<close>

definition recorded_case ::
  "environment \<Rightarrow> access_scope \<Rightarrow> support_case_event \<Rightarrow> (world, case_service_result) prog" where
  "recorded_case E scope event =
     bnd (repo_get_case E scope (ce_case_id event)) (\<lambda>c.
       case c of
         None \<Rightarrow> throw CaseNotFoundError
       | Some x \<Rightarrow> case_result Case_status_unchanged (Some x) None)"

definition case_write_handler ::
  "environment \<Rightarrow> access_scope \<Rightarrow> string \<Rightarrow> exn \<Rightarrow> (world, case_service_result option) prog" where
  "case_write_handler E scope key err =
     (if err = DuplicateIdempotencyKeyError
      then bnd (repo_find_case_event_by_idempotency_key E scope key) (\<lambda>event.
             case event of
               None \<Rightarrow> ret None
             | Some e \<Rightarrow>
                bnd (repo_get_case E scope (ce_case_id e)) (\<lambda>c.
                  case c of
                    None \<Rightarrow> ret None
                  | Some x \<Rightarrow> some_result (case_result Case_status_unchanged (Some x) None)))
      else if err = ConcurrentCaseUpdateError then ret None
      else throw err)"

definition write_case ::
  "environment \<Rightarrow> access_scope \<Rightarrow> string \<Rightarrow> case_service_action \<Rightarrow> support_case \<Rightarrow> support_case
     \<Rightarrow> support_case_event \<Rightarrow> (world, case_service_result option) prog" where
  "write_case E scope key action current updated event =
     bnd (try_except
            (bnd (repo_update_case_with_event E scope updated event (cs_version current))
               (\<lambda>_. ret (Inr ())))
            (\<lambda>err. bnd (case_write_handler E scope key err) (\<lambda>r. ret (Inl r))))
       (\<lambda>outcome. case outcome of
          Inl r \<Rightarrow> ret r
        | Inr _ \<Rightarrow> some_result (case_result action (Some updated) (Some event)))"

definition status_change_attempt ::
  "environment \<Rightarrow> access_scope \<Rightarrow> uuid \<Rightarrow> case_status \<Rightarrow> on_hold_reason option \<Rightarrow> string \<Rightarrow> string
     \<Rightarrow> (world, case_service_result option) prog" where
  "status_change_attempt E scope case_id target_status on_hold_reason key actor =
     bnd (repo_get_case E scope case_id) (\<lambda>found.
       case found of
         None \<Rightarrow> throw CaseNotFoundError
       | Some current \<Rightarrow>
          bnd (lift (validate_case_status_transition (cs_status current) target_status)) (\<lambda>_.
          if cs_status current = target_status
          then some_result (case_result Case_status_unchanged (Some current) None)
          else
            bnd (lift (validate_on_hold_request target_status on_hold_reason)) (\<lambda>_.
            bnd (clock E) (\<lambda>now.
            bnd (lift (mk_support_case (current\<lparr>cs_status := target_status,
                   cs_on_hold_reason := on_hold_reason, cs_updated_at := now,
                   cs_version := cs_version current + 1\<rparr>))) (\<lambda>updated.
            bnd (id_factory E) (\<lambda>event_id.
            bnd (lift (mk_support_case_event
                   ((agent_event event_id key current Case_status_changed actor now)
                     \<lparr>ce_previous_priority := Some (cs_priority current),
                      ce_current_priority := Some (cs_priority current),
                      ce_previous_status := Some (cs_status current),
                      ce_current_status := Some target_status,
                      ce_on_hold_reason := on_hold_reason\<rparr>))) (\<lambda>event.
              write_case E scope key Case_act_status_changed current updated event)))))))"

definition change_status ::
  "environment \<Rightarrow> nat \<Rightarrow> access_scope \<Rightarrow> uuid \<Rightarrow> case_status \<Rightarrow> string \<Rightarrow> on_hold_reason option
     \<Rightarrow> (world, case_service_result) prog" where
  "change_status E n scope case_id target_status request_id on_hold_reason =
     bnd (lift (require_case_update scope)) (\<lambda>_.
     bnd (require (strip request_id \<noteq> []) (ValueError ''request_id must not be empty'')) (\<lambda>_.
     bnd (lift (sc_identity scope)) (\<lambda>actor.
       let key = case_request_key ''status'' case_id (strip request_id)
       in bnd (repo_find_case_event_by_idempotency_key E scope key) (\<lambda>previous.
            case previous of
              Some e \<Rightarrow> recorded_case E scope e
            | None \<Rightarrow>
                attempts n
                  (status_change_attempt E scope case_id target_status on_hold_reason key actor)
                  (throw ConcurrentCaseUpdateError)))))"

type_synonym find_user = "string \<Rightarrow> string \<Rightarrow> (world, directory_user option) prog"

definition eligible_assignee :: "string \<Rightarrow> string \<Rightarrow> directory_user option \<Rightarrow> bool" where
  "eligible_assignee tenant_id agent_id user \<longleftrightarrow>
     (case user of
        None \<Rightarrow> False
      | Some u \<Rightarrow> du_tenant_id u = tenant_id \<and> du_user_id u = agent_id \<and> du_active u
          \<and> du_roles u \<inter> {Support_agent, Supervisor} \<noteq> {})"

definition require_assignment_target ::
  "find_user option \<Rightarrow> string \<Rightarrow> string \<Rightarrow> (world, unit) prog" where
  "require_assignment_target directory tenant_id agent_id =
     (case directory of
        None \<Rightarrow> throw DirectoryInfrastructureUnavailableError
      | Some find_user \<Rightarrow>
         bnd (find_user tenant_id agent_id) (\<lambda>user.
           require (eligible_assignee tenant_id agent_id user) AssignmentTargetUnavailableError))"

definition assign_attempt ::
  "environment \<Rightarrow> access_scope \<Rightarrow> uuid \<Rightarrow> string \<Rightarrow> string \<Rightarrow> string
     \<Rightarrow> (world, case_service_result option) prog" where
  "assign_attempt E scope case_id agent_id key actor =
     bnd (repo_get_case E scope case_id) (\<lambda>found.
       case found of
         None \<Rightarrow> throw CaseNotFoundError
       | Some current \<Rightarrow>
          if cs_assigned_agent_id current = Some agent_id
          then some_result (case_result Case_status_unchanged (Some current) None)
          else
            bnd (clock E) (\<lambda>now.
            bnd (lift (mk_support_case (current\<lparr>cs_assigned_agent_id := Some agent_id,
                   cs_updated_at := now, cs_version := cs_version current + 1\<rparr>))) (\<lambda>updated.
            bnd (id_factory E) (\<lambda>event_id.
            bnd (lift (mk_support_case_event
                   ((agent_event event_id key current Case_assigned actor now)
                     \<lparr>ce_previous_assigned_agent_id := cs_assigned_agent_id current,
                      ce_current_assigned_agent_id := Some agent_id\<rparr>))) (\<lambda>event.
              write_case E scope key Case_act_assigned current updated event)))))"

definition assign_case ::
  "environment \<Rightarrow> nat \<Rightarrow> find_user option \<Rightarrow> access_scope \<Rightarrow> uuid \<Rightarrow> string \<Rightarrow> string
     \<Rightarrow> (world, case_service_result) prog" where
  "assign_case E n directory scope case_id agent_id request_id =
     bnd (require (has_permission scope Cases_assign)
            (ForbiddenError ''the caller cannot assign support cases'')) (\<lambda>_.
     bnd (lift (validate_agent_id agent_id)) (\<lambda>agent_id.
     bnd (require (strip request_id \<noteq> []) (ValueError ''request_id must not be empty'')) (\<lambda>_.
     bnd (lift (sc_identity scope)) (\<lambda>actor.
       let key = case_request_key ''assign'' case_id (strip request_id)
       in bnd (repo_find_case_event_by_idempotency_key E scope key) (\<lambda>previous.
            case previous of
              Some e \<Rightarrow> recorded_case E scope e
            | None \<Rightarrow>
                bnd (repo_get_case E scope case_id) (\<lambda>found.
                  case found of
                    None \<Rightarrow> throw CaseNotFoundError
                  | Some _ \<Rightarrow>
                     bnd (require_assignment_target directory (sc_tenant_id scope) agent_id) (\<lambda>_.
                       attempts n (assign_attempt E scope case_id agent_id key actor)
                         (throw ConcurrentCaseUpdateError))))))))"

section \<open>Every method keeps the contract\<close>

definition seen_case :: "db \<Rightarrow> support_case \<Rightarrow> bool" where
  "seen_case s c \<longleftrightarrow>
     (\<exists>s1 r. evolves s1 s \<and> r \<in> set (support_cases s1) \<and> mk_support_case r = Inr c)"

lemma seen_case_mono: "seen_case s c \<Longrightarrow> evolves s t \<Longrightarrow> seen_case t c"
  unfolding seen_case_def by (meson evolves_trans)

lemma seen_case_trim: "seen_case s c \<Longrightarrow> trim_support_case c = c"
  by (auto simp: seen_case_def mk_support_case_Inr)

lemma runs_fetch_case:
  assumes "rg.env_ok E" and "\<And>s r. query s = Some r \<Longrightarrow> r \<in> set (support_cases s)"
    and k: "\<And>x s1. evolves s0 s1 \<Longrightarrow> committed s1 \<Longrightarrow> (\<And>c. x = Some c \<Longrightarrow> seen_case s1 c)
      \<Longrightarrow> rg.runs s1 (k x) Q"
  shows "rg.runs s0 (bnd (fetch_case E query) k) Q"
  unfolding fetch_case_def
proof (rule rg.runs_bnd_assoc, rule rg.runs_bnd)
  show "rg.runs s0 (db_call E CasePersistenceError (\<lambda>s. Inr (query s, s))) (\<lambda>row s. row = query s)"
    by (rule rg.runs_db_call[OF assms(1)]) (simp add: evolves_refl)
  fix row s1
  assume s1: "evolves s0 s1" "committed s1" and row: "row = query s1"
  show "rg.runs s1 (bnd (case row of None \<Rightarrow> ret None
      | Some r \<Rightarrow> bnd (lift (mk_support_case r)) (\<lambda>c. ret (Some c))) k) Q"
  proof (cases row)
    case None
    then show ?thesis using k[OF s1, of None] by (simp add: bnd_def ret_def)
  next
    case (Some r)
    show ?thesis unfolding Some option.case
    proof (intro rg.runs_bnd_assoc rg.runs_bnd_lift)
      fix c
      assume "mk_support_case r = Inr c"
      moreover have "r \<in> set (support_cases s1)" using assms(2) row Some by simp
      ultimately have "seen_case s1 c" unfolding seen_case_def using evolves_refl by blast
      then show "rg.runs s1 (bnd (ret (Some c)) k) Q"
        using k[OF s1, of "Some c"] by (simp add: bnd_def ret_def)
    qed
  qed
qed

lemma runs_repo_get_case:
  assumes "rg.env_ok E"
    and "\<And>x s1. evolves s0 s1 \<Longrightarrow> committed s1 \<Longrightarrow> (\<And>c. x = Some c \<Longrightarrow> seen_case s1 c)
      \<Longrightarrow> rg.runs s1 (k x) Q"
  shows "rg.runs s0 (bnd (repo_get_case E scope u) k) Q"
  unfolding repo_get_case_def
  by (intro rg.runs_bnd_assoc rg.runs_bnd_lift runs_fetch_case[OF assms(1)] assms(2))
     (auto dest: find_SomeD)

lemma runs_get_case_option:
  assumes "rg.env_ok E" and "\<And>s1. evolves s0 s1 \<Longrightarrow> rg.runs s1 m Q"
    and "\<And>c s1. evolves s0 s1 \<Longrightarrow> committed s1 \<Longrightarrow> seen_case s1 c \<Longrightarrow> rg.runs s1 (k c) Q"
  shows "rg.runs s0 (bnd (repo_get_case E scope u) (\<lambda>found. case found of None \<Rightarrow> m | Some c \<Rightarrow> k c)) Q"
  by (rule runs_repo_get_case[OF assms(1)]) (auto split: option.split intro: assms(2,3))

lemma runs_find_case_by_source_message:
  assumes "rg.env_ok E" and "\<And>x s1. evolves s0 s1 \<Longrightarrow> rg.runs s1 (k x) Q"
  shows "rg.runs s0 (bnd (repo_find_case_by_source_message E scope th msg) k) Q"
  unfolding repo_find_case_by_source_message_def
  by (intro rg.runs_bnd_assoc rg.runs_bnd_lift runs_fetch_case[OF assms(1)] assms(2))
     (auto dest!: first_by_SomeD simp: join_case_events_def)

lemma runs_find_unresolved_case:
  assumes "rg.env_ok E"
    and "\<And>x s1. evolves s0 s1 \<Longrightarrow> committed s1 \<Longrightarrow> (\<And>c. x = Some c \<Longrightarrow> seen_case s1 c)
      \<Longrightarrow> rg.runs s1 (k x) Q"
  shows "rg.runs s0 (bnd (repo_find_unresolved_case E scope th ty ord) k) Q"
proof -
  have thr: "bnd (if b then throw e else m) k = (if b then throw e else bnd m k)"
    for b :: bool and e and m :: "(world, support_case option) prog"
    by (rule ext) (simp add: bnd_def throw_def)
  show ?thesis
    unfolding repo_find_unresolved_case_def
    by (intro rg.runs_bnd_assoc rg.runs_bnd_lift, subst thr,
        intro rg.runs_if rg.runs_throw runs_fetch_case[OF assms(1)] assms(2))
       (auto dest!: first_by_SomeD)
qed

lemma runs_find_case_event:
  assumes "rg.env_ok E" and "\<And>x s1. evolves s0 s1 \<Longrightarrow> rg.runs s1 (k x) Q"
  shows "rg.runs s0 (bnd (repo_find_case_event_by_idempotency_key E scope key) k) Q"
proof (rule rg.runs_bnd[where Q = "\<lambda>_ _. True"])
  show "rg.runs s0 (repo_find_case_event_by_idempotency_key E scope key) (\<lambda>_ _. True)"
    unfolding repo_find_case_event_by_idempotency_key_def
    by (intro rg.runs_bnd[where Q = "\<lambda>_ _. True"] rg.runs_db_call[OF assms(1)])
       (auto simp: evolves_refl split: option.split intro!: rg.runs_intros rg.runs_ret)
qed (rule assms(2))

lemma runs_case_result: "rg.runs s0 (case_result a c e) (\<lambda>_ _. True)"
  unfolding case_result_def by (rule rg.runs_lift) simp

lemma runs_some_result: "rg.runs s0 m (\<lambda>_ _. True) \<Longrightarrow> rg.runs s0 (some_result m) (\<lambda>_ _. True)"
  unfolding some_result_def by (rule rg.runs_bnd) (simp_all add: rg.runs_ret)

lemma case_copy_ofI:
  assumes "trim_support_case cur = cur" and "mk_support_case y = Inr c" and "same_origin cur y"
    and "cs_version y = cs_version cur + 1"
    and "set (cs_reason_codes cur) \<subseteq> set (cs_reason_codes y)"
    and "set (cs_risk_categories cur) \<subseteq> set (cs_risk_categories y)"
  shows "case_copy_of cur c"
proof -
  have c: "c = trim_support_case y" "valid_support_case c"
    using assms(2) unfolding mk_support_case_Inr by blast+
  have "cs_thread_id cur = trim (cs_thread_id cur)"
    "cs_source_message_id cur = trim (cs_source_message_id cur)"
    "cs_triggering_message_excerpt cur = trim (cs_triggering_message_excerpt cur)"
    "cs_customer_id cur = trim (cs_customer_id cur)" "cs_tenant_id cur = trim (cs_tenant_id cur)"
    "cs_created_by cur = trim (cs_created_by cur)"
    by (subst assms(1)[symmetric], simp add: trim_support_case_def)+
  then have "same_origin cur c"
    using assms(3) by (simp add: same_origin_def c(1) trim_support_case_def)
  then show ?thesis
    using assms(4-6) c by (simp add: case_copy_of_def trim_support_case_sel)
qed

lemma mk_support_case_event_readable: "mk_support_case_event e = Inr f \<Longrightarrow> case_event_readable f"
  by (auto simp: mk_support_case_event_Inr case_event_readable_def)

text \<open>What a write of the case service hands to the repository.\<close>

definition case_update :: "support_case \<Rightarrow> support_case \<Rightarrow> support_case_event \<Rightarrow> bool" where
  "case_update cur c e \<longleftrightarrow>
     case_copy_of cur c \<and> ce_case_id e = cs_case_id cur \<and> case_event_readable e
     \<and> replay_case (case_progress_of cur) [e] = Some (case_progress_of c)"

lemma runs_update_case:
  assumes "rg.env_ok E" and "seen_case s0 cur" and "case_update cur c e"
  shows "rg.runs s0 (repo_update_case_with_event E scope c e (cs_version cur)) (\<lambda>_ _. True)"
  unfolding repo_update_case_with_event_def
proof (intro rg.runs_intros rg.runs_db_call[OF assms(1)])
  fix v s u t
  assume s: "committed s" "evolves s0 s"
    and "commit_case (update_case_tx v c e (cs_version cur) s) = Inr (u, t)"
  then have tx: "update_case_tx v c e (cs_version cur) s = Inr t" by (simp add: commit_case_Inr)
  obtain s1 r where "evolves s1 s" "r \<in> set (support_cases s1)" "mk_support_case r = Inr cur"
    using seen_case_mono[OF assms(2) s(2)] by (auto simp: seen_case_def)
  from update_case_contract[OF s(1) this tx] assms(3)
  show "committed t \<and> evolves s t \<and> True" by (simp add: case_update_def)
qed

lemma runs_append_ensure:
  assumes "rg.env_ok E" and "seen_case s0 cur" and "case_update cur c e" and "valid_command cmd"
  shows "rg.runs s0 (repo_append_delivery_trigger_and_ensure_command E scope c e cmd (cs_version cur))
     (\<lambda>_ _. True)"
  unfolding repo_append_delivery_trigger_and_ensure_command_def
proof (intro rg.runs_intros rg.runs_db_call[OF assms(1)])
  fix v s b t
  assume s: "committed s" "evolves s0 s" and "append_ensure_tx v c e cmd (cs_version cur) s = Inr (b, t)"
  then obtain s2 where tx: "update_case_tx v c e (cs_version cur) s = Inr s2"
    and t: "t = s2 \<or> enqueue_command c e cmd s2 = Inr t"
    by (blast elim: append_ensure_tx_Inr)
  obtain s1 r where "evolves s1 s" "r \<in> set (support_cases s1)" "mk_support_case r = Inr cur"
    using seen_case_mono[OF assms(2) s(2)] by (auto simp: seen_case_def)
  from update_case_contract[OF s(1) this tx] assms(3)
  have s2: "committed s2" "evolves s s2" by (simp_all add: case_update_def)
  show "committed t \<and> evolves s t \<and> True"
    using t s2 enqueue_command_contract[OF s2(1) _ assms(4)] by (auto intro: evolves_trans)
qed

lemma merge_unique_superset: "set xs \<subseteq> set (merge_unique xs ys)" "set (merge_unique xs ys) = set xs \<union> set ys"
  by (simp_all add: merge_unique_def)

lemma merged_case_update:
  assumes "seen_case s cur"
    and "mk_support_case (merged_case cur trigger decision priority now) = Inr c"
    and "mk_support_case_event (trigger_event ev_id trigger decision (cs_case_id cur) Trigger_appended
          pp cp (cs_status cur) (cs_customer_id cur) (cs_tenant_id cur) now) = Inr e"
  shows "case_update cur c e"
proof -
  note cur = seen_case_trim[OF assms(1)]
  have c: "c = trim_support_case (merged_case cur trigger decision priority now)"
    using assms(2) unfolding mk_support_case_Inr by blast
  have "case_copy_of cur c"
    by (rule case_copy_ofI[OF cur assms(2)])
       (simp_all add: merged_case_def Let_def same_origin_def merge_unique_superset)
  moreover have "case_progress_of c = case_progress_of cur"
    unfolding c case_progress_trim by (simp add: case_progress_of_def merged_case_def Let_def)
  moreover have "ce_case_id e = cs_case_id cur" "ce_event_type e = Trigger_appended"
    "ce_current_status e = Some (cs_status cur)"
    using assms(3)
    by (auto simp: mk_support_case_event_Inr trim_support_case_event_def trigger_event_def)
  ultimately show ?thesis
    using mk_support_case_event_readable[OF assms(3)]
    by (simp add: case_update_def case_progress_of_def)
qed

lemma runs_append_trigger:
  assumes "rg.env_ok E" and "seen_case s0 cur"
  shows "rg.runs s0 (append_trigger E scope cur trigger decision priority queueing) (\<lambda>_ _. True)"
  unfolding append_trigger_def
proof (intro rg.runs_intros rg.runs_bnd[OF runs_update_case[OF assms]]
    rg.runs_bnd[OF runs_append_ensure[OF assms]] runs_case_result)
qed (rule merged_case_update[OF assms(2)] for_delivery_investigation_valid, assumption+)+

lemma created_case_readable:
  assumes "mk_support_case (new_case scope cid trigger decision ty pr cb u now) = Inr c"
    and "mk_support_case_event (trigger_event ev_id trigger decision u Case_created pp cp Open
          cust ten now) = Inr e"
  shows "case_readable c" "ce_case_id e = cs_case_id c" "case_event_readable e"
    "replay_case (Open, None) [e] = Some (case_progress_of c)" "cs_case_id c = u" "cs_status c = Open"
proof -
  have c: "c = trim_support_case (new_case scope cid trigger decision ty pr cb u now)"
    "valid_support_case c"
    using assms(1) unfolding mk_support_case_Inr by blast+
  show "case_readable c" using c by (simp add: case_readable_def)
  show id: "cs_case_id c = u" and "cs_status c = Open"
    by (simp_all add: c(1) trim_support_case_sel new_case_def)
  have e: "ce_case_id e = u" "ce_event_type e = Case_created" "ce_current_status e = Some Open"
    using assms(2)
    by (auto simp: mk_support_case_event_Inr trim_support_case_event_def trigger_event_def)
  then show "ce_case_id e = cs_case_id c" using id by simp
  have "case_progress_of c = (Open, None)"
    by (simp add: c(1) case_progress_of_def trim_support_case_sel new_case_def)
  then show "replay_case (Open, None) [e] = Some (case_progress_of c)" using e by simp
  show "case_event_readable e" by (rule mk_support_case_event_readable[OF assms(2)])
qed

lemma runs_create_case:
  assumes "rg.env_ok E"
  shows "rg.runs s0 (create_case E scope cid trigger decision ty pr) (\<lambda>_ _. True)"
  unfolding create_case_def repo_create_case_with_event_def
proof (intro rg.runs_bnd_assoc rg.runs_intros
    rg.runs_bnd[OF rg.runs_db_call[OF assms, where Q = "\<lambda>_ _. True"]] runs_case_result)
  fix now u cb c ev_id e s v t
  assume "mk_support_case (new_case scope cid trigger decision ty pr cb u now) = Inr c"
    and "mk_support_case_event (trigger_event ev_id trigger decision u Case_created None pr Open
          cid (sc_tenant_id scope) now) = Inr e"
    and "committed s" "commit_case (create_case_tx c e s) = Inr (v, t)"
  then show "committed t \<and> evolves s t \<and> True"
    using created_case_readable create_case_contract[of s c e t] by (simp add: commit_case_Inr)
qed

lemma runs_create_delivery_case:
  assumes "rg.env_ok E"
  shows "rg.runs s0 (create_delivery_case_with_command E scope cid trigger decision pr issue conn)
     (\<lambda>_ _. True)"
  unfolding create_delivery_case_with_command_def repo_create_case_with_event_and_command_def
proof (intro rg.runs_bnd_assoc rg.runs_intros
    rg.runs_bnd[OF rg.runs_db_call[OF assms, where Q = "\<lambda>_ _. True"]] runs_case_result)
  fix now u cb c ev_id e s v t cmd cmd_id
  assume c: "mk_support_case (new_case scope cid trigger decision Delivery_investigation pr cb u now) = Inr c"
    and e: "mk_support_case_event (trigger_event ev_id trigger decision (cs_case_id c) Case_created
          None (cs_priority c) (cs_status c) (cs_customer_id c) (cs_tenant_id c) now) = Inr e"
    and s: "committed s"
    and "for_delivery_investigation c issue conn cmd_id now = Inr cmd"
    and "commit_case (then_tx (create_case_tx c e) (enqueue_command c e cmd) s) = Inr (v, t)"
  then obtain s2 where tx: "create_case_tx c e s = Inr s2" and "enqueue_command c e cmd s2 = Inr t"
    by (auto simp: commit_case_Inr then_tx_Inr)
  have "cs_case_id c = u" "cs_status c = Open"
    using c unfolding mk_support_case_Inr
    by (auto simp: trim_support_case_sel new_case_def)
  then have "committed s2 \<and> evolves s s2"
    using created_case_readable[OF c] e create_case_contract[OF s tx] by simp
  then show "committed t \<and> evolves s t \<and> True"
    using enqueue_command_contract[OF _ \<open>enqueue_command c e cmd s2 = Inr t\<close>
      for_delivery_investigation_valid[OF \<open>for_delivery_investigation c issue conn cmd_id now = Inr cmd\<close>]]
    by (auto intro: evolves_trans)
qed

lemma runs_retry_on_case_conflict: "rg.runs s0 (retry_on_case_conflict err) (\<lambda>_ _. True)"
  unfolding retry_on_case_conflict_def by (intro rg.runs_intros rg.runs_ret) simp

theorem runs_record_handoff:
  assumes "rg.env_ok E"
  shows "rg.runs s0 (record_handoff E n scope trigger decision) (\<lambda>_ _. True)"
  unfolding record_handoff_def handoff_attempt_def
  by (intro rg.runs_intros runs_case_result rg.runs_attempts runs_find_case_by_source_message[OF assms]
      runs_find_unresolved_case[OF assms] rg.runs_try_except runs_some_result
      runs_create_case[OF assms] runs_append_trigger[OF assms] runs_retry_on_case_conflict)
     blast

theorem runs_record_delivery_investigation:
  assumes "rg.env_ok E"
  shows "rg.runs s0 (record_delivery_investigation E n scope trigger decision issue conn) (\<lambda>_ _. True)"
  unfolding record_delivery_investigation_def investigation_attempt_def
  by (intro rg.runs_intros runs_case_result rg.runs_attempts runs_find_case_by_source_message[OF assms]
      runs_find_unresolved_case[OF assms] rg.runs_try_except runs_some_result
      runs_create_delivery_case[OF assms] runs_append_trigger[OF assms] runs_retry_on_case_conflict)
     blast

lemma runs_case_write_handler:
  assumes "rg.env_ok E"
  shows "rg.runs s0 (case_write_handler E scope key err) (\<lambda>_ _. True)"
  unfolding case_write_handler_def
  by (intro rg.runs_intros runs_find_case_event[OF assms] runs_repo_get_case[OF assms] rg.runs_ret
      runs_some_result runs_case_result) simp_all

lemma runs_write_case:
  assumes "rg.env_ok E" and "seen_case s0 cur" and "case_update cur c e"
  shows "rg.runs s0 (write_case E scope key action cur c e) (\<lambda>_ _. True)"
  unfolding write_case_def
proof (rule rg.runs_bnd)
  show "rg.runs s0 (try_except
            (bnd (repo_update_case_with_event E scope c e (cs_version cur)) (\<lambda>_. ret (Inr ())))
            (\<lambda>err. bnd (case_write_handler E scope key err) (\<lambda>r. ret (Inl r)))) (\<lambda>_ _. True)"
    by (intro rg.runs_try_except rg.runs_bnd[OF runs_update_case[OF assms]]
        rg.runs_bnd[OF runs_case_write_handler[OF assms(1)]] rg.runs_ret) simp_all
  fix outcome s1
  show "rg.runs s1 (case outcome of Inl r \<Rightarrow> ret r
      | Inr _ \<Rightarrow> some_result (case_result action (Some c) (Some e))) (\<lambda>_ _. True)"
    by (cases outcome) (simp_all add: rg.runs_ret runs_some_result runs_case_result)
qed

lemma status_case_update:
  assumes "seen_case s cur"
    and "mk_support_case (cur\<lparr>cs_status := st, cs_on_hold_reason := h, cs_updated_at := now,
           cs_version := cs_version cur + 1\<rparr>) = Inr c" (is "mk_support_case ?y = _")
    and "mk_support_case_event ((agent_event ev_id key cur Case_status_changed actor now)
           \<lparr>ce_previous_priority := Some (cs_priority cur), ce_current_priority := Some (cs_priority cur),
            ce_previous_status := Some (cs_status cur), ce_current_status := Some st,
            ce_on_hold_reason := h\<rparr>) = Inr e"
  shows "case_update cur c e"
proof -
  have c: "c = trim_support_case ?y" using assms(2) unfolding mk_support_case_Inr by blast
  have "case_copy_of cur c"
    by (rule case_copy_ofI[OF seen_case_trim[OF assms(1)] assms(2)]) (simp_all add: same_origin_def)
  moreover have "case_progress_of c = (st, snd (case_progress_of cur))"
    unfolding c case_progress_trim by (simp add: case_progress_of_def)
  moreover have "ce_case_id e = cs_case_id cur" "ce_event_type e = Case_status_changed"
    "ce_previous_status e = Some (cs_status cur)" "ce_current_status e = Some st"
    using assms(3)
    by (auto simp: mk_support_case_event_Inr trim_support_case_event_def agent_event_def)
  ultimately show ?thesis
    using mk_support_case_event_readable[OF assms(3)]
    by (simp add: case_update_def case_progress_of_def)
qed

theorem runs_change_status:
  assumes "rg.env_ok E"
  shows "rg.runs s0 (change_status E n scope u target req reason) (\<lambda>_ _. True)"
  unfolding change_status_def status_change_attempt_def recorded_case_def Let_def
  by (intro runs_get_case_option[OF assms] rg.runs_intros rg.runs_attempts
      runs_find_case_event[OF assms] runs_some_result runs_case_result runs_write_case[OF assms])
     (assumption | rule status_case_update, assumption+)+

text \<open>A directory lookup only takes time.\<close>

definition directory_ok :: "find_user option \<Rightarrow> bool" where
  "directory_ok directory \<longleftrightarrow>
     (case directory of None \<Rightarrow> True | Some find_user \<Rightarrow>
        (\<forall>t u w. committed (w_db w) \<longrightarrow>
           committed (w_db (snd (find_user t u w))) \<and> evolves (w_db w) (w_db (snd (find_user t u w)))))"

lemma runs_require_assignment_target:
  assumes "directory_ok directory"
  shows "rg.runs s0 (require_assignment_target directory t u) (\<lambda>_ _. True)"
proof (cases directory)
  case None
  then show ?thesis by (simp add: require_assignment_target_def rg.runs_throw)
next
  case (Some find_user)
  have "rg.runs s0 (find_user t u) (\<lambda>_ _. True)"
    by (rule rg.runsI) (use assms Some in \<open>simp add: directory_ok_def, metis snd_conv\<close>)
  then show ?thesis
    unfolding require_assignment_target_def Some option.case
    by (rule rg.runs_bnd) (rule rg.runs_require, simp)
qed

lemma trim_strip: "trim (strip s) = strip s"
proof -
  have "stripped_by is_white_space (strip s)"
    using stripped_by_strip_by[of is_space s]
    by (auto simp: stripped_by_def strip_def is_space_def is_white_space_def Let_def)
  then show ?thesis unfolding trim_def by (rule strip_by_id)
qed

lemma assign_case_update:
  assumes "seen_case s cur" and "trim agent = agent"
    and "mk_support_case (cur\<lparr>cs_assigned_agent_id := Some agent, cs_updated_at := now,
           cs_version := cs_version cur + 1\<rparr>) = Inr c" (is "mk_support_case ?y = _")
    and "mk_support_case_event ((agent_event ev_id key cur Case_assigned actor now)
           \<lparr>ce_previous_assigned_agent_id := cs_assigned_agent_id cur,
            ce_current_assigned_agent_id := Some agent\<rparr>) = Inr e"
  shows "case_update cur c e"
proof -
  have c: "c = trim_support_case ?y" using assms(3) unfolding mk_support_case_Inr by blast
  have cur: "map_option trim (cs_assigned_agent_id cur) = cs_assigned_agent_id cur"
    by (subst (2) seen_case_trim[OF assms(1), symmetric]) (simp add: trim_support_case_sel)
  have "case_copy_of cur c"
    by (rule case_copy_ofI[OF seen_case_trim[OF assms(1)] assms(3)]) (simp_all add: same_origin_def)
  moreover have "case_progress_of c = (cs_status cur, Some agent)"
    unfolding c case_progress_trim by (simp add: case_progress_of_def assms(2))
  moreover have "ce_case_id e = cs_case_id cur" "ce_event_type e = Case_assigned"
    "ce_previous_assigned_agent_id e = cs_assigned_agent_id cur"
    "ce_current_assigned_agent_id e = Some agent"
    using assms(2,4) cur
    by (auto simp: mk_support_case_event_Inr trim_support_case_event_def agent_event_def)
  ultimately show ?thesis
    using mk_support_case_event_readable[OF assms(4)] cur
    unfolding case_update_def case_progress_of_def by auto
qed

lemma validate_agent_id_trim: "validate_agent_id a = Inr b \<Longrightarrow> trim b = b"
  by (auto simp: validate_agent_id_def Let_def trim_strip split: if_splits)

lemma runs_assign_attempt:
  assumes "rg.env_ok E" and "trim agent = agent"
  shows "rg.runs s0 (assign_attempt E scope u agent key actor) (\<lambda>_ _. True)"
  unfolding assign_attempt_def
  by (intro runs_get_case_option[OF assms(1)] rg.runs_intros runs_some_result runs_case_result
      runs_write_case[OF assms(1)])
     (assumption | rule assign_case_update[OF _ assms(2)], assumption+)+

theorem runs_assign_case:
  assumes "rg.env_ok E" and "directory_ok directory"
  shows "rg.runs s0 (assign_case E n directory scope u agent req) (\<lambda>_ _. True)"
  unfolding assign_case_def recorded_case_def Let_def
  by (intro rg.runs_intros rg.runs_attempts runs_find_case_event[OF assms(1)]
      runs_repo_get_case[OF assms(1)] runs_case_result runs_assign_attempt[OF assms(1)]
      rg.runs_bnd[OF runs_require_assignment_target[OF assms(2)]])
     (erule validate_agent_id_trim)

end
