(* ===== verification/Sessions.thy ===== *)
theory Sessions
  imports Operation_Service Case_Service
begin

text \<open>
  Whole sessions: any sequence of calls to the two services, by any callers, whose results go back
  to the callers. The summary lemma of this theory is that a session keeps the contract of
  \<^verbatim>\<open>History\<close> however its calls are interleaved with other sessions that keep it too; the
  consequences that matter to users of the system are stated on it.
\<close>

section \<open>Calls\<close>

datatype service_call =
    Create_operation access_scope order_operation_request order_snapshot operation_decision string
  | Confirm_operation access_scope uuid string
  | Cancel_operation access_scope uuid string
  | Submit_operation access_scope uuid string
  | Queue_operation access_scope uuid string string
  | Update_status access_scope uuid operation_record_status string string "string option"
  | Attach_case access_scope uuid uuid string
  | Record_handoff access_scope case_trigger handoff_decision
  | Record_investigation access_scope case_trigger handoff_decision delivery_issue_type string
  | Change_case_status access_scope uuid case_status string "on_hold_reason option"
  | Assign_case access_scope uuid string string

text \<open>The deployment: environment, attempts per write, order provider and personnel directory.\<close>

record deployment =
  dp_env :: environment
  dp_attempts :: nat
  dp_submit :: submit_operation
  dp_directory :: "find_user option"

definition discard :: "(world, 'a) prog \<Rightarrow> (world, unit) prog" where
  "discard m = bnd m (\<lambda>_. ret ())"

fun exec_call :: "deployment \<Rightarrow> service_call \<Rightarrow> (world, unit) prog" where
  "exec_call D (Create_operation sc rq os od ex) =
     discard (create_pending_operation (dp_env D) (dp_attempts D) sc rq os od ex)"
| "exec_call D (Confirm_operation sc u req) =
     discard (confirm_operation (dp_env D) (dp_attempts D) sc u req)"
| "exec_call D (Cancel_operation sc u req) =
     discard (cancel_pending_operation (dp_env D) (dp_attempts D) sc u req)"
| "exec_call D (Submit_operation sc u req) =
     discard (submit_confirmed_operation (dp_env D) (dp_attempts D) sc u req (dp_submit D))"
| "exec_call D (Queue_operation sc u req conn) =
     discard (queue_confirmed_operation (dp_env D) sc u req conn)"
| "exec_call D (Update_status sc u st req actor ref) =
     discard (update_operation_status (dp_env D) (dp_attempts D) sc u st req actor ref)"
| "exec_call D (Attach_case sc u c req) =
     discard (attach_support_case (dp_env D) (dp_attempts D) sc u c req)"
| "exec_call D (Record_handoff sc tr d) =
     discard (record_handoff (dp_env D) (dp_attempts D) sc tr d)"
| "exec_call D (Record_investigation sc tr d ty conn) =
     discard (record_delivery_investigation (dp_env D) (dp_attempts D) sc tr d ty conn)"
| "exec_call D (Change_case_status sc u st req reason) =
     discard (change_status (dp_env D) (dp_attempts D) sc u st req reason)"
| "exec_call D (Assign_case sc u agent req) =
     discard (assign_case (dp_env D) (dp_attempts D) (dp_directory D) sc u agent req)"

text \<open>A session goes on whether a call returned or raised.\<close>

fun exec_session :: "deployment \<Rightarrow> service_call list \<Rightarrow> world \<Rightarrow> world" where
  "exec_session D [] w = w"
| "exec_session D (c # cs) w = exec_session D cs (snd (exec_call D c w))"

section \<open>A session keeps the contract\<close>

text \<open>What is assumed of everything around the session: other sessions commit only lawful changes,
  and the provider and the directory do not touch the tables themselves.\<close>

definition lawful :: "deployment \<Rightarrow> bool" where
  "lawful D \<longleftrightarrow>
     (\<forall>n s. committed s \<longrightarrow> committed (en_interfere (dp_env D) n s) \<and> evolves s (en_interfere (dp_env D) n s))
     \<and> provider_ok (dp_submit D) \<and> directory_ok (dp_directory D)"

lemma runs_discard: "rg.runs s0 m (\<lambda>_ _. True) \<Longrightarrow> rg.runs s0 (discard m) (\<lambda>_ _. True)"
  unfolding discard_def by (rule rg.runs_bnd) (simp_all add: rg.runs_ret)

lemma lawfulD:
  assumes "lawful D"
  shows "rg.env_ok (dp_env D)" "provider_ok (dp_submit D)" "directory_ok (dp_directory D)"
  using assms by (simp_all add: lawful_def rg.env_ok_def)

lemmas service_contracts = runs_create_pending_operation runs_confirm_operation
  runs_cancel_pending_operation runs_submit_confirmed_operation runs_queue_confirmed_operation
  runs_update_operation_status runs_attach_support_case runs_record_handoff
  runs_record_delivery_investigation runs_change_status runs_assign_case

lemma runs_exec_call:
  assumes "lawful D"
  shows "rg.runs s0 (exec_call D c) (\<lambda>_ _. True)"
  by (cases c) (simp_all add: runs_discard service_contracts lawfulD[OF assms])

lemma session_contract:
  assumes "lawful D" and "committed (w_db w)"
  shows "committed (w_db (exec_session D cs w)) \<and> evolves (w_db w) (w_db (exec_session D cs w))"
  using assms(2)
proof (induction cs arbitrary: w)
  case Nil
  then show ?case by (simp add: evolves_refl)
next
  case (Cons c cs)
  have step: "committed (w_db (snd (exec_call D c w)))" "evolves (w_db w) (w_db (snd (exec_call D c w)))"
    using rg.runsD[OF runs_exec_call[OF assms(1)] Cons.prems] by auto
  from Cons.IH[OF step(1)] step(2) show ?case by (auto intro: evolves_trans)
qed

lemma session_committed:
  assumes "lawful D" and "committed (w_db w)" and "s = w_db (exec_session D cs w)"
  shows "committed s"
  using session_contract[OF assms(1,2), of cs] assms(3) by simp

lemma session_evolves:
  assumes "lawful D" and "committed (w_db w)" and "s = w_db (exec_session D cs w)"
  shows "evolves (w_db w) s"
  using session_contract[OF assms(1,2), of cs] assms(3) by simp

end
