(* ===== verification/Isolation.thy ===== *)
theory Isolation
  imports Sessions
begin

text \<open>
  Tenant isolation of writes. Whatever a caller asks of the services, rows of other tenants (for
  operations: of other customers too) are left exactly as they were. The claim is an instance of the
  rely-guarantee interface whose guarantee is \<open>spares scope\<close>; the other sessions are assumed not to
  touch those rows either, so that a change could only come from the caller.
\<close>

section \<open>Foreign rows\<close>

definition owns_operation :: "access_scope \<Rightarrow> string \<Rightarrow> string \<Rightarrow> bool" where
  "owns_operation scope tenant_id customer_id \<longleftrightarrow>
     tenant_id = sc_tenant_id scope \<and> Some customer_id = sc_customer_id scope"

definition spares :: "access_scope \<Rightarrow> db \<Rightarrow> db \<Rightarrow> bool" where
  "spares scope s t \<longleftrightarrow>
     filter (\<lambda>r. \<not> owns_operation scope (op_tenant_id r) (op_customer_id r)) (order_operations t)
       = filter (\<lambda>r. \<not> owns_operation scope (op_tenant_id r) (op_customer_id r)) (order_operations s)
     \<and> filter (\<lambda>e. \<not> owns_operation scope (oe_tenant_id e) (oe_customer_id e)) (order_operation_events t)
       = filter (\<lambda>e. \<not> owns_operation scope (oe_tenant_id e) (oe_customer_id e)) (order_operation_events s)
     \<and> filter (\<lambda>c. cs_tenant_id c \<noteq> sc_tenant_id scope) (support_cases t)
       = filter (\<lambda>c. cs_tenant_id c \<noteq> sc_tenant_id scope) (support_cases s)
     \<and> filter (\<lambda>e. ce_tenant_id e \<noteq> sc_tenant_id scope) (support_case_events t)
       = filter (\<lambda>e. ce_tenant_id e \<noteq> sc_tenant_id scope) (support_case_events s)
     \<and> filter (\<lambda>m. ob_tenant_id m \<noteq> sc_tenant_id scope) (outbox_messages t)
       = filter (\<lambda>m. ob_tenant_id m \<noteq> sc_tenant_id scope) (outbox_messages s)"

lemma spares_refl [simp]: "spares scope s s"
  by (simp add: spares_def)

lemma spares_trans: "spares scope s t \<Longrightarrow> spares scope t u \<Longrightarrow> spares scope s u"
  by (simp add: spares_def)

interpretation iso: rely_guarantee "\<lambda>_. True" "spares scope" for scope :: access_scope
  by unfold_locales (simp, erule spares_trans)

lemma filter_update_rows:
  "(\<And>r. sel r \<Longrightarrow> \<not> P r \<and> \<not> P (upd r)) \<Longrightarrow> filter P (update_rows sel upd rows) = filter P rows"
  by (induction rows) (auto simp: update_rows_def)

section \<open>Transactions\<close>

lemma insert_operation_events_spares:
  assumes "insert_operation_events es s = Inr t"
    and "\<And>e. e \<in> set es \<Longrightarrow> owns_operation scope (oe_tenant_id e) (oe_customer_id e)"
  shows "spares scope s t"
proof -
  have "filter (\<lambda>e. \<not> owns_operation scope (oe_tenant_id e) (oe_customer_id e)) es = []"
    using assms(2) by (auto simp: filter_empty_conv)
  then show ?thesis using insert_operation_events_Inr[OF assms(1)] by (simp add: spares_def)
qed

lemma ownership_Inr:
  "validate_operation_ownership scope x = Inr u \<longleftrightarrow> owns_operation scope (op_tenant_id x) (op_customer_id x)"
  "validate_event_ownership scope e = Inr u \<longleftrightarrow> owns_operation scope (oe_tenant_id e) (oe_customer_id e)"
  by (auto simp: validate_operation_ownership_def validate_event_ownership_def owns_operation_def)

lemma create_operation_spares:
  assumes "create_operation_tx x es s = Inr t"
    and "validate_operation_ownership scope x = Inr u"
    and "validate_all (validate_event_ownership scope) es = Inr u'"
  shows "spares scope s t"
proof -
  obtain s1 where ins: "insert_order_operation x s = Inr s1"
    and ev: "insert_operation_events es s1 = Inr t"
    using assms(1) by (auto simp: create_operation_tx_def split: sum.splits)
  have "spares scope s s1"
    using ins assms(2) by (auto simp: spares_def insert_order_operation_Inr ownership_Inr)
  moreover have "spares scope s1 t"
    using insert_operation_events_spares[OF ev] assms(3)
    by (simp add: validate_all_Inr ownership_Inr)
  ultimately show ?thesis by (rule spares_trans)
qed

lemma update_operation_spares:
  assumes "update_operation_tx v x es n s = Inr t"
    and "customer_owned_visibility scope = Inr v"
    and "validate_all (validate_event_ownership scope) es = Inr u'"
  shows "spares scope s t"
proof -
  obtain k s1 where u: "update_order_operations (\<lambda>r. op_operation_id r = op_operation_id x
      \<and> op_version r = n \<and> operation_visible v r) (set_operation_columns x) s = Inr (k, s1)"
    and e: "insert_operation_events es s1 = Inr t"
    using assms(1) by (auto simp: update_operation_tx_def split: sum.splits if_splits)
  have own: "owns_operation scope (op_tenant_id r) (op_customer_id r)" if "operation_visible v r" for r
    using that assms(2) by (auto simp: operation_visible_def customer_owned_visibility_def
        owns_operation_def split: option.splits)
  have "spares scope s s1"
    using u own by (auto simp: update_order_operations_def Let_def spares_def
        intro!: filter_update_rows split: if_splits)
  then show ?thesis
    using insert_operation_events_spares[OF e] assms(3)
    by (auto simp: validate_all_Inr ownership_Inr intro: spares_trans)
qed

lemma insert_outbox_spares:
  assumes "insert_outbox_message c st a n s = Inr t" and "pc_tenant_id c = sc_tenant_id scope"
  shows "spares scope s t"
  using assms by (simp add: insert_outbox_message_Inr spares_def outbox_of_command_def)

lemma visible_tenant: "case_visibility scope = Inr v \<Longrightarrow> case_visible v c \<Longrightarrow> cs_tenant_id c = sc_tenant_id scope"
  by (auto simp: case_visibility_def case_visible_def split: if_splits option.splits)

lemma insert_case_event_spares:
  assumes "insert_case_event e s = Inr t" and "ce_tenant_id e = sc_tenant_id scope"
  shows "spares scope s t"
  using assms by (simp add: insert_case_event_Inr spares_def)

lemma create_case_spares:
  assumes "create_case_tx c e s = Inr t" and "cs_tenant_id c = sc_tenant_id scope"
    and "ce_tenant_id e = sc_tenant_id scope"
  shows "spares scope s t"
proof -
  obtain s1 where "insert_support_case c s = Inr s1" "insert_case_event e s1 = Inr t"
    using assms(1) by (auto simp: create_case_tx_def split: sum.splits)
  moreover from this(1) have "spares scope s s1"
    using assms(2) by (auto simp: spares_def insert_support_case_def Let_def split: if_splits option.splits)
  ultimately show ?thesis using assms(3) by (auto intro: spares_trans insert_case_event_spares)
qed

lemma update_case_spares:
  assumes "update_case_tx v c e n s = Inr t" and "case_visibility scope = Inr v"
    and "ce_tenant_id e = sc_tenant_id scope"
  shows "spares scope s t"
proof -
  obtain k s1 where u: "update_support_cases (\<lambda>r. cs_case_id r = cs_case_id c
      \<and> cs_version r = n \<and> case_visible v r) (set_case_columns c) s = Inr (k, s1)"
    and e: "insert_case_event e s1 = Inr t"
    using assms(1) by (auto simp: update_case_tx_def split: sum.splits if_splits)
  have "spares scope s s1"
    using u visible_tenant[OF assms(2)]
    by (auto simp: update_support_cases_def Let_def spares_def
        intro!: filter_update_rows split: if_splits option.splits)
  then show ?thesis using insert_case_event_spares[OF e assms(3)] by (rule spares_trans)
qed

section \<open>Repository calls\<close>

definition confined :: "access_scope \<Rightarrow> (world, 'a) prog \<Rightarrow> bool" where
  "confined scope m \<longleftrightarrow> (\<forall>s0. iso.runs scope s0 m (\<lambda>_ _. True))"

lemma confined_bnd [intro]: "confined scope m \<Longrightarrow> (\<And>x. confined scope (k x)) \<Longrightarrow> confined scope (bnd m k)"
  by (auto simp: confined_def intro: iso.runs_bnd)

lemma confined_try [intro]:
  "confined scope m \<Longrightarrow> (\<And>e. confined scope (h e)) \<Longrightarrow> confined scope (try_except m h)"
  by (auto simp: confined_def intro: iso.runs_try_except)

lemma confined_attempts [intro]:
  "confined scope m \<Longrightarrow> confined scope n \<Longrightarrow> confined scope (attempts k m n)"
  by (auto simp: confined_def intro: iso.runs_attempts)

lemma confined_basic [intro]:
  "confined scope (ret x)" "confined scope (throw e)" "confined scope (lift r)"
  "confined scope (require b e)" "confined scope (clock E)" "confined scope (id_factory E)"
  by (auto simp: confined_def intro: iso.runs_ret iso.runs_throw iso.runs_lift iso.runs_require iso.runs_clock
      iso.runs_id_factory)

lemma confined_lift [intro]: "(\<And>x. r = Inr x \<Longrightarrow> confined scope (k x)) \<Longrightarrow> confined scope (bnd (lift r) k)"
  by (auto simp: confined_def intro: iso.runs_bnd_lift)

lemma confined_branch [intro]:
  "(b \<Longrightarrow> confined scope m) \<Longrightarrow> (\<not> b \<Longrightarrow> confined scope n) \<Longrightarrow> confined scope (if b then m else n)"
  "(x = None \<Longrightarrow> confined scope m) \<Longrightarrow> (\<And>y. x = Some y \<Longrightarrow> confined scope (q y))
   \<Longrightarrow> confined scope (case x of None \<Rightarrow> m | Some y \<Rightarrow> q y)"
  by (auto split: option.split)

lemma confined_prod [intro]: "(\<And>a b. confined scope (m a b)) \<Longrightarrow> confined scope (case p of (a, b) \<Rightarrow> m a b)"
  by (simp split: prod.split)

lemma confined_sum [intro]:
  "(\<And>a. confined scope (m a)) \<Longrightarrow> (\<And>b. confined scope (n b))
   \<Longrightarrow> confined scope (case p of Inl a \<Rightarrow> m a | Inr b \<Rightarrow> n b)"
  by (simp split: sum.split)

text \<open>Nobody else writes to the rows the caller must not touch.\<close>

abbreviation others_confined :: "access_scope \<Rightarrow> environment \<Rightarrow> bool" where
  "others_confined scope E \<equiv> \<forall>n s. spares scope s (en_interfere E n s)"

lemma confined_db_call:
  assumes "others_confined scope E" and "\<And>s x t. f s = Inr (x, t) \<Longrightarrow> spares scope s t"
  shows "confined scope (db_call E e f)"
  using assms by (auto simp: confined_def iso.env_ok_def intro!: iso.runs_db_call)

lemma confined_read: "others_confined scope E \<Longrightarrow> confined scope (db_call E e (\<lambda>s. Inr (q s, s)))"
  by (rule confined_db_call) auto

lemma confined_reads:
  assumes E: "others_confined scope E"
  shows "confined scope (repo_get_operation E sc u)"
  "confined scope (repo_find_by_source_message E sc th msg)"
  "confined scope (repo_find_event_by_idempotency_key E sc key)"
  "confined scope (repo_find_active_by_order_id E sc ord)"
  "confined scope (repo_get_case E sc u)"
  "confined scope (repo_find_case_by_source_message E sc th msg)"
  "confined scope (repo_find_case_event_by_idempotency_key E sc key)"
  "confined scope (repo_find_unresolved_case E sc th ty ord')"
  unfolding repo_get_operation_def repo_find_by_source_message_def repo_find_active_by_order_id_def
    repo_find_event_by_idempotency_key_def fetch_operation_def repo_get_case_def
    repo_find_case_by_source_message_def repo_find_case_event_by_idempotency_key_def
    repo_find_unresolved_case_def fetch_case_def
  by (intro confined_bnd confined_basic confined_branch confined_read[OF E])+

lemma case_ownership_Inr:
  "validate_case_ownership scope c = Inr u \<Longrightarrow> cs_tenant_id c = sc_tenant_id scope"
  "validate_case_event_ownership scope e = Inr u \<Longrightarrow> ce_tenant_id e = sc_tenant_id scope"
  by (auto simp: validate_case_ownership_def validate_case_event_ownership_def split: if_splits)

lemma confined_operation_writes:
  assumes E: "others_confined scope E"
  shows "confined scope (repo_create_operation_with_events E scope x es)"
    "confined scope (repo_update_operation_with_events E scope x es n)"
  unfolding repo_create_operation_with_events_def repo_update_operation_with_events_def
  by (intro confined_lift confined_db_call[OF E];
      auto simp: commit_Inr dest: create_operation_spares update_operation_spares)+

lemma confined_case_writes:
  assumes E: "others_confined scope E"
  shows "confined scope (repo_create_case_with_event E scope c e)"
    "confined scope (repo_update_case_with_event E scope c e n)"
  unfolding repo_create_case_with_event_def repo_update_case_with_event_def
  by (intro confined_lift confined_bnd[OF confined_basic(4)] confined_db_call[OF E];
      auto simp: commit_case_Inr dest: create_case_spares update_case_spares case_ownership_Inr)+

lemma command_tenant:
  assumes "trim_command c = c"
  shows "validate_operation_command_association x es c n = Inr u \<Longrightarrow> pc_tenant_id c = op_tenant_id x"
    "validate_case_command_association d e c = Inr u \<Longrightarrow> pc_tenant_id c = cs_tenant_id d"
  using assms
  by (auto simp: validate_operation_command_association_def validate_case_command_association_def
      revalidate_command_envelope_def mk_command_def split: sum.splits if_splits)

lemma confined_queue:
  assumes E: "others_confined scope E" and c: "trim_command c = c"
  shows "confined scope (repo_queue_operation_with_events_and_command E scope x es c n)"
  unfolding repo_queue_operation_with_events_and_command_def
proof (intro confined_lift confined_db_call[OF E])
  fix u1 u2 u3 u4 v s t
  assume a: "validate_operation_command_association x es c n = Inr u1"
    "validate_operation_ownership scope x = Inr u2"
    "validate_all (validate_event_ownership scope) es = Inr u3"
    "customer_owned_visibility scope = Inr v"
    and "commit (queue_operation_tx v x es c n s) = Inr (u4, t)"
  then obtain s1 where "update_operation_tx v x es n s = Inr s1"
    "insert_outbox_message c Out_pending (op_updated_at x) (op_updated_at x) s1 = Inr t"
    unfolding commit_Inr by (blast elim: queue_operation_tx_Inr)
  moreover have "pc_tenant_id c = sc_tenant_id scope"
    using command_tenant(1)[OF c a(1)] a(2) by (simp add: ownership_Inr owns_operation_def)
  ultimately show "spares scope s t"
    using update_operation_spares[OF _ a(4,3)] insert_outbox_spares spares_trans by blast
qed

lemma confined_create_case_command:
  assumes E: "others_confined scope E" and c: "trim_command cmd = cmd"
  shows "confined scope (repo_create_case_with_event_and_command E scope c e cmd)"
  unfolding repo_create_case_with_event_and_command_def
proof (intro confined_lift confined_db_call[OF E])
  fix u1 u2 u3 u4 s t
  assume a: "validate_case_command_association c e cmd = Inr u1"
    "validate_case_ownership scope c = Inr u2" "validate_case_event_ownership scope e = Inr u3"
    and "commit_case (then_tx (create_case_tx c e) (enqueue_command c e cmd) s) = Inr (u4, t)"
  then obtain s1 where "create_case_tx c e s = Inr s1"
    "insert_outbox_message cmd Out_pending (cs_updated_at c) (cs_updated_at c) s1 = Inr t"
    by (auto simp: commit_case_Inr then_tx_Inr enqueue_command_Inr)
  then show "spares scope s t"
    using create_case_spares case_ownership_Inr(1)[OF a(2)] case_ownership_Inr(2)[OF a(3)]
      command_tenant(2)[OF c a(1)] insert_outbox_spares spares_trans by metis
qed

lemma confined_append_ensure:
  assumes E: "others_confined scope E" and c: "trim_command cmd = cmd"
  shows "confined scope (repo_append_delivery_trigger_and_ensure_command E scope c e cmd n)"
  unfolding repo_append_delivery_trigger_and_ensure_command_def
proof (intro confined_lift confined_bnd[OF confined_basic(4)] confined_db_call[OF E])
  fix u1 u2 u3 v s b t
  assume a: "validate_case_command_association c e cmd = Inr u1"
    "validate_case_ownership scope c = Inr u2" "validate_case_event_ownership scope e = Inr u3"
    "case_visibility scope = Inr v" and "append_ensure_tx v c e cmd n s = Inr (b, t)"
  then obtain s1 where u: "update_case_tx v c e n s = Inr s1"
    and t: "t = s1 \<or> insert_outbox_message cmd Out_pending (cs_updated_at c) (cs_updated_at c) s1 = Inr t"
    by (auto elim!: append_ensure_tx_Inr simp: enqueue_command_Inr)
  have "spares scope s s1" by (rule update_case_spares[OF u a(4) case_ownership_Inr(2)[OF a(3)]])
  with t show "spares scope s t"
    using command_tenant(2)[OF c a(1)] case_ownership_Inr(1)[OF a(2)] insert_outbox_spares spares_trans
    by metis
qed

lemma built_commands_trimmed:
  "for_order_operation x conn u t = Inr c \<Longrightarrow> trim_command c = c"
  "for_delivery_investigation d ty conn u t = Inr c \<Longrightarrow> trim_command c = c"
  by (auto simp: for_order_operation_def for_delivery_investigation_def mk_command_Inr
      split: sum.splits if_splits option.splits)

section \<open>Services\<close>

lemmas operation_programs = get_operation_def unchanged_result_def build_status_update_def
  replay_or_retry_def write_or_replay_def unless_recorded_def build_pending_operation_def
  find_duplicate_request_def create_attempt_def create_pending_operation_def change_attempt_def
  change_from_pending_def confirm_operation_def cancel_pending_operation_def submit_attempt_def
  submit_confirmed_operation_def queue_confirmed_operation_def status_attempt_def
  update_operation_status_def attach_attempt_def attach_support_case_def

lemmas case_programs = case_result_def some_result_def create_case_def
  create_delivery_case_with_command_def append_trigger_def retry_on_case_conflict_def
  handoff_attempt_def record_handoff_def investigation_attempt_def record_delivery_investigation_def
  recorded_case_def case_write_handler_def write_case_def status_change_attempt_def change_status_def
  require_assignment_target_def assign_attempt_def assign_case_def

lemmas confined_intros = confined_lift confined_bnd confined_try confined_attempts confined_basic
  confined_branch confined_prod confined_sum

lemma confined_operation_service:
  assumes E: "others_confined scope E"
  shows "confined scope (create_pending_operation E n scope rq os od ex)"
    "confined scope (confirm_operation E n scope u req)"
    "confined scope (cancel_pending_operation E n scope u req)"
    "confined scope (queue_confirmed_operation E scope u req conn)"
    "confined scope (update_operation_status E n scope u st req actor ref)"
    "confined scope (attach_support_case E n scope u c req)"
  unfolding operation_programs Let_def
  by (intro confined_intros confined_reads[OF E] confined_operation_writes[OF E]
      confined_queue[OF E] built_commands_trimmed; assumption)+

lemma confined_submit:
  assumes E: "others_confined scope E" and P: "\<And>rq v key. confined scope (submit rq v key)"
  shows "confined scope (submit_confirmed_operation E n scope u req submit)"
  unfolding operation_programs Let_def
  by (intro confined_intros confined_reads[OF E] confined_operation_writes[OF E] P)

lemma confined_case_service:
  assumes E: "others_confined scope E"
  shows "confined scope (record_handoff E n scope tr d)"
    "confined scope (record_delivery_investigation E n scope tr d ty conn)"
    "confined scope (change_status E n scope u st req reason)"
  unfolding case_programs Let_def
  by (intro confined_intros confined_reads[OF E] confined_case_writes[OF E]
      confined_create_case_command[OF E] confined_append_ensure[OF E] built_commands_trimmed; assumption)+

lemma confined_assign:
  assumes E: "others_confined scope E"
    and P: "\<And>f t a. directory = Some f \<Longrightarrow> confined scope (f t a)"
  shows "confined scope (assign_case E n directory scope u agent req)"
  unfolding case_programs Let_def
  by (intro confined_intros confined_reads[OF E] confined_case_writes[OF E] P; assumption)

fun caller :: "service_call \<Rightarrow> access_scope" where
  "caller (Create_operation sc _ _ _ _) = sc"
| "caller (Confirm_operation sc _ _) = sc"
| "caller (Cancel_operation sc _ _) = sc"
| "caller (Submit_operation sc _ _) = sc"
| "caller (Queue_operation sc _ _ _) = sc"
| "caller (Update_status sc _ _ _ _ _) = sc"
| "caller (Attach_case sc _ _ _) = sc"
| "caller (Record_handoff sc _ _) = sc"
| "caller (Record_investigation sc _ _ _ _) = sc"
| "caller (Change_case_status sc _ _ _ _) = sc"
| "caller (Assign_case sc _ _ _) = sc"

text \<open>The surroundings of a call by \<open>scope\<close>: others keep off the foreign rows, the provider and the
  directory do not write to the tables.\<close>

definition surroundings_confined :: "access_scope \<Rightarrow> deployment \<Rightarrow> bool" where
  "surroundings_confined scope D \<longleftrightarrow>
     (\<forall>n s. spares scope s (en_interfere (dp_env D) n s))
     \<and> (\<forall>rq v key w. w_db (snd (dp_submit D rq v key w)) = w_db w)
     \<and> (\<forall>f t u w. dp_directory D = Some f \<longrightarrow> w_db (snd (f t u w)) = w_db w)"

lemma confined_silent: "(\<And>w. w_db (snd (m w)) = w_db w) \<Longrightarrow> confined scope m"
  by (auto simp: confined_def intro!: iso.runs_local)

lemma confined_discard: "confined scope m \<Longrightarrow> confined scope (discard m)"
  unfolding discard_def by (intro confined_bnd confined_basic)

lemma confined_exec_call:
  assumes "surroundings_confined (caller c) D"
  shows "confined (caller c) (exec_call D c)"
proof -
  have E: "others_confined (caller c) (dp_env D)"
    and P: "\<And>rq v key. confined (caller c) (dp_submit D rq v key)"
    and F: "\<And>f t a. dp_directory D = Some f \<Longrightarrow> confined (caller c) (f t a)"
    using assms by (simp_all add: surroundings_confined_def confined_silent)
  show ?thesis
    using E P F by (cases c) (simp_all add: confined_discard confined_operation_service
        confined_submit confined_case_service confined_assign)
qed

lemma exec_call_spares:
  assumes "surroundings_confined (caller c) D"
  shows "spares (caller c) (w_db w) (w_db (snd (exec_call D c w)))"
  using iso.runsD[of "caller c" "exec_call D c" "\<lambda>_ _. True" w] confined_exec_call[OF assms]
  by (simp add: confined_def)

end
