(* ===== verification/Progress.thy ===== *)
theory Progress
  imports Isolation
begin

text \<open>
  What bounds a call: how many round trips to the database it may make before it returns or raises,
  and which of the repository's exceptions can reach its caller. Both hold in every environment,
  with any interference and any faults.
\<close>

section \<open>Round trips\<close>

definition trips_le :: "nat \<Rightarrow> (world, 'a) prog \<Rightarrow> bool" where
  "trips_le k m \<longleftrightarrow> (\<forall>w. w_calls (snd (m w)) \<le> w_calls w + k)"

lemma trips_mono: "trips_le a m \<Longrightarrow> a \<le> b \<Longrightarrow> trips_le b m"
  unfolding trips_le_def by (meson add_left_mono order_trans)

lemma trips_basic:
  "trips_le 0 (ret x)" "trips_le 0 (throw e)" "trips_le 0 (lift r)" "trips_le 0 (require b e)"
  "trips_le 0 (clock E)" "trips_le 0 (id_factory E)"
  by (simp_all add: trips_le_def ret_def throw_def lift_def require_def clock_def id_factory_def)

lemma trips_db_call: "trips_le 1 (db_call E e f)"
  by (auto simp: trips_le_def db_call_def Let_def split: fault.split sum.split)

lemma trips_bnd:
  assumes "trips_le a m" and "\<And>x. trips_le b (k x)"
  shows "trips_le (a + b) (bnd m k)"
  unfolding trips_le_def
proof
  fix w
  obtain r w1 where m: "m w = (r, w1)" by fastforce
  have "w_calls w1 \<le> w_calls w + a" using assms(1) m by (metis snd_conv trips_le_def)
  moreover have "w_calls (snd (k x w1)) \<le> w_calls w1 + b" for x
    using assms(2) by (simp add: trips_le_def)
  ultimately show "w_calls (snd (bnd m k w)) \<le> w_calls w + (a + b)"
    by (auto simp: bnd_def m split: sum.split intro: order_trans)
       (metis add.assoc add_le_cancel_right order_trans)
qed

lemma trips_try:
  assumes "trips_le a m" and "\<And>e. trips_le b (h e)"
  shows "trips_le (a + b) (try_except m h)"
  unfolding trips_le_def
proof
  fix w
  obtain r w1 where m: "m w = (r, w1)" by fastforce
  have "w_calls w1 \<le> w_calls w + a" using assms(1) m by (metis snd_conv trips_le_def)
  moreover have "w_calls (snd (h x w1)) \<le> w_calls w1 + b" for x
    using assms(2) by (simp add: trips_le_def)
  ultimately show "w_calls (snd (try_except m h w)) \<le> w_calls w + (a + b)"
    by (auto simp: try_except_def m split: sum.split intro: order_trans)
       (metis add.assoc add_le_cancel_right order_trans)
qed

lemma trips_branch:
  "trips_le a m \<Longrightarrow> trips_le b n \<Longrightarrow> trips_le (max a b) (if c then m else n)"
  "trips_le a m \<Longrightarrow> (\<And>y. trips_le b (q y)) \<Longrightarrow> trips_le (max a b) (case x of None \<Rightarrow> m | Some y \<Rightarrow> q y)"
  "(\<And>c d. trips_le a (p c d)) \<Longrightarrow> trips_le a (case z of (c, d) \<Rightarrow> p c d)"
  "(\<And>c. trips_le a (f c)) \<Longrightarrow> (\<And>d. trips_le b (g d)) \<Longrightarrow> trips_le (max a b) (case u of Inl c \<Rightarrow> f c | Inr d \<Rightarrow> g d)"
  by (auto intro: trips_mono[of a] trips_mono[of b] split: option.split prod.split sum.split)

lemma trips_attempts:
  assumes "trips_le a body" and "trips_le b after"
  shows "trips_le (n * a + b) (attempts n body after)"
proof (induction n)
  case 0
  then show ?case by (simp add: assms)
next
  case (Suc n)
  have "trips_le (n * a + b) (case r of Some x \<Rightarrow> ret x | None \<Rightarrow> attempts n body after)" for r
    using Suc by (auto split: option.split intro: trips_mono[OF trips_basic(1)])
  from trips_bnd[OF assms(1) this] show ?case by (simp add: add.assoc)
qed

lemmas trips_intros = trips_basic trips_db_call trips_bnd trips_try trips_branch trips_attempts

lemmas operation_repository = repo_get_operation_def repo_find_by_source_message_def
  repo_find_active_by_order_id_def repo_find_event_by_idempotency_key_def fetch_operation_def
  repo_create_operation_with_events_def repo_update_operation_with_events_def
  repo_queue_operation_with_events_and_command_def

lemmas case_repository = repo_get_case_def repo_find_case_by_source_message_def
  repo_find_case_event_by_idempotency_key_def repo_find_unresolved_case_def fetch_case_def
  repo_create_case_with_event_def repo_update_case_with_event_def
  repo_create_case_with_event_and_command_def repo_append_delivery_trigger_and_ensure_command_def

lemma trips_repository:
  "trips_le 1 (repo_get_operation E sc u)"
  "trips_le 1 (repo_find_by_source_message E sc th msg)"
  "trips_le 1 (repo_find_event_by_idempotency_key E sc key)"
  "trips_le 1 (repo_find_active_by_order_id E sc ord)"
  "trips_le 1 (repo_create_operation_with_events E sc x es)"
  "trips_le 1 (repo_update_operation_with_events E sc x es k)"
  "trips_le 1 (repo_queue_operation_with_events_and_command E sc x es c k)"
  unfolding operation_repository
  by (rule trips_mono, (rule trips_intros)+, simp)+

lemma trips_case_repository:
  "trips_le 1 (repo_get_case E sc u)"
  "trips_le 1 (repo_find_case_by_source_message E sc th msg)"
  "trips_le 1 (repo_find_case_event_by_idempotency_key E sc key)"
  "trips_le 1 (repo_find_unresolved_case E sc th ty ord)"
  "trips_le 1 (repo_create_case_with_event E sc c e)"
  "trips_le 1 (repo_update_case_with_event E sc c e k)"
  "trips_le 1 (repo_create_case_with_event_and_command E sc c e cmd)"
  "trips_le 1 (repo_append_delivery_trigger_and_ensure_command E sc c e cmd k)"
  unfolding case_repository
  by (rule trips_mono, (rule trips_intros)+, simp)+


lemma trips_operation_service:
  "trips_le (3 * n + 2) (create_pending_operation E n sc rq os od ex)"
  "trips_le (4 * n + 3) (confirm_operation E n sc u req)"
  "trips_le (4 * n + 2) (cancel_pending_operation E n sc u req)"
  "trips_le 2 (queue_confirmed_operation E sc u req conn)"
  "trips_le (4 * n + 2) (update_operation_status E n sc u st req actor ref)"
  "trips_le (4 * n + 2) (attach_support_case E n sc u c req)"
  unfolding operation_programs Let_def
  by (rule trips_mono, (rule trips_intros trips_repository)+, simp)+

lemma trips_submit:
  assumes "\<And>rq v key. trips_le 0 (submit rq v key)"
  shows "trips_le (4 * n + 2) (submit_confirmed_operation E n sc u req submit)"
  unfolding operation_programs Let_def
  by (rule trips_mono, (rule trips_intros trips_repository assms)+, simp)

lemma trips_case_service:
  "trips_le (3 * n) (record_handoff E n sc tr d)"
  "trips_le (3 * n) (record_delivery_investigation E n sc tr d ty conn)"
  "trips_le (4 * n + 2) (change_status E n sc u st req reason)"
  unfolding case_programs Let_def
  by (rule trips_mono, (rule trips_intros trips_case_repository)+, simp)+

lemma trips_assign:
  assumes "\<And>f t a. directory = Some f \<Longrightarrow> trips_le 0 (f t a)"
  shows "trips_le (4 * n + 2) (assign_case E n directory sc u agent req)"
proof -
  have target: "trips_le 0 (require_assignment_target directory t a)" for t a
    unfolding require_assignment_target_def
  proof (cases directory)
    case (Some f)
    then show "trips_le 0 (case directory of None \<Rightarrow> throw DirectoryInfrastructureUnavailableError
        | Some find_user \<Rightarrow> bnd (find_user t a) (\<lambda>user.
            require (eligible_assignee t a user) AssignmentTargetUnavailableError))"
      using trips_bnd[OF assms trips_basic(4), of f t a] by simp
  qed (simp add: trips_basic)
  show ?thesis
    unfolding assign_case_def assign_attempt_def write_case_def case_write_handler_def recorded_case_def
      case_result_def some_result_def Let_def
    by (rule trips_mono, (rule trips_intros trips_case_repository target)+, simp)
qed

text \<open>The bound on a whole call, for a provider and a directory that do not use the database.\<close>

fun round_trip_bound :: "nat \<Rightarrow> service_call \<Rightarrow> nat" where
  "round_trip_bound n (Create_operation _ _ _ _ _) = 3 * n + 2"
| "round_trip_bound n (Confirm_operation _ _ _) = 4 * n + 3"
| "round_trip_bound n (Queue_operation _ _ _ _) = 2"
| "round_trip_bound n (Record_handoff _ _ _) = 3 * n"
| "round_trip_bound n (Record_investigation _ _ _ _ _) = 3 * n"
| "round_trip_bound n _ = 4 * n + 2"

definition off_database :: "deployment \<Rightarrow> bool" where
  "off_database D \<longleftrightarrow>
     (\<forall>rq v key w. w_calls (snd (dp_submit D rq v key w)) = w_calls w)
     \<and> (\<forall>f t u w. dp_directory D = Some f \<longrightarrow> w_calls (snd (f t u w)) = w_calls w)"

lemma trips_discard: "trips_le a m \<Longrightarrow> trips_le a (discard m)"
  unfolding discard_def using trips_bnd[OF _ trips_basic(1), of a m] by simp

lemma exec_call_round_trips:
  assumes "off_database D"
  shows "trips_le (round_trip_bound (dp_attempts D) c) (exec_call D c)"
proof -
  have P: "\<And>rq v key. trips_le 0 (dp_submit D rq v key)"
    and F: "\<And>f t a. dp_directory D = Some f \<Longrightarrow> trips_le 0 (f t a)"
    using assms by (auto simp: off_database_def trips_le_def)
  show ?thesis
    by (cases c; simp only: exec_call.simps round_trip_bound.simps; rule trips_discard;
        (rule trips_operation_service trips_case_service trips_submit[OF P] | rule trips_assign, erule F))
qed

section \<open>Which exceptions escape\<close>

definition avoids :: "exn set \<Rightarrow> (world, 'a) prog \<Rightarrow> bool" where
  "avoids X m \<longleftrightarrow> (\<forall>w e. fst (m w) = Inl e \<longrightarrow> e \<notin> X)"

lemma avoids_basic:
  "avoids X (ret x)" "e \<notin> X \<Longrightarrow> avoids X (throw e)" "e \<notin> X \<Longrightarrow> avoids X (require b e)"
  "avoids X (clock E)" "avoids X (id_factory E)"
  by (simp_all add: avoids_def ret_def throw_def require_def clock_def id_factory_def)

lemma avoids_lift: "(\<And>e. r = Inl e \<Longrightarrow> e \<notin> X) \<Longrightarrow> avoids X (lift r)"
  by (simp add: avoids_def lift_def)

lemma avoids_bnd: "avoids X m \<Longrightarrow> (\<And>x. avoids X (k x)) \<Longrightarrow> avoids X (bnd m k)"
  by (auto simp: avoids_def bnd_def split: prod.splits sum.splits) (metis fst_conv)+

lemma avoids_try: "(\<And>e. avoids X (h e)) \<Longrightarrow> avoids X (try_except m h)"
  by (auto simp: avoids_def try_except_def split: prod.splits sum.splits)

lemma avoids_attempts: "avoids X body \<Longrightarrow> avoids X after \<Longrightarrow> avoids X (attempts n body after)"
  by (induction n) (auto intro!: avoids_bnd avoids_basic split: option.split)

lemma avoids_branch:
  "(c \<Longrightarrow> avoids X m) \<Longrightarrow> (\<not> c \<Longrightarrow> avoids X n) \<Longrightarrow> avoids X (if c then m else n)"
  "avoids X m \<Longrightarrow> (\<And>y. avoids X (q y)) \<Longrightarrow> avoids X (case x of None \<Rightarrow> m | Some y \<Rightarrow> q y)"
  "(\<And>c d. avoids X (p c d)) \<Longrightarrow> avoids X (case z of (c, d) \<Rightarrow> p c d)"
  by (auto split: option.split prod.split)

lemma avoids_db_call:
  "failure \<notin> X \<Longrightarrow> (\<And>s e. f s = Inl e \<Longrightarrow> e \<notin> X) \<Longrightarrow> avoids X (db_call E failure f)"
  by (auto simp: avoids_def db_call_def Let_def split: fault.splits sum.splits)

text \<open>The errors of the model constructors and of the scope checks.\<close>

definition input_error :: "exn \<Rightarrow> bool" where
  "input_error e \<longleftrightarrow>
     (case e of ValueError _ \<Rightarrow> True | ValidationError _ \<Rightarrow> True | ForbiddenError _ \<Rightarrow> True | _ \<Rightarrow> False)"

lemma constructor_errors:
  "mk_order_operation x = Inl e \<Longrightarrow> input_error e"
  "mk_order_operation_event y = Inl e \<Longrightarrow> input_error e"
  "mk_support_case c = Inl e \<Longrightarrow> input_error e"
  "mk_support_case_event d = Inl e \<Longrightarrow> input_error e"
  "mk_case_service_result r = Inl e \<Longrightarrow> input_error e"
  "customer_owned_visibility sc = Inl e \<Longrightarrow> input_error e"
  "case_visibility sc = Inl e \<Longrightarrow> input_error e"
  "sc_identity sc = Inl e \<Longrightarrow> input_error e"
  by (auto simp: input_error_def mk_order_operation_def mk_order_operation_event_def mk_support_case_def
      mk_support_case_event_def mk_case_service_result_def customer_owned_visibility_def case_visibility_def
      sc_identity_def encode_identity_key_def validate_identity_part_def Let_def
      split: if_splits option.splits sum.splits)

lemma command_errors:
  "for_delivery_investigation cs ty conn u t = Inl e \<Longrightarrow> input_error e"
  by (auto simp: input_error_def for_delivery_investigation_def mk_command_def mk_payload_def
      split: if_splits option.splits sum.splits)

text \<open>What the creation loops catch.\<close>

definition creation_conflicts :: "exn set" where
  "creation_conflicts = {ActiveOrderOperationConflictError, DuplicateOperationIdempotencyError,
     DuplicateOperationSourceMessageError}"

definition handoff_conflicts :: "exn set" where
  "handoff_conflicts = {ActiveCaseConflictError, DuplicateIdempotencyKeyError, DuplicateSourceMessageError}"

lemma avoids_models:
  assumes "\<And>e. e \<in> X \<Longrightarrow> \<not> input_error e"
  shows "avoids X (lift (mk_order_operation x))" "avoids X (lift (mk_order_operation_event y))"
    "avoids X (lift (mk_support_case c))" "avoids X (lift (mk_support_case_event d))"
    "avoids X (lift (mk_case_service_result r))" "avoids X (lift (customer_owned_visibility sc))"
    "avoids X (lift (case_visibility sc))" "avoids X (lift (sc_identity sc))"
    "avoids X (lift (for_delivery_investigation cs ty conn u t))"
  using assms constructor_errors command_errors by (fastforce intro!: avoids_lift)+

lemma avoids_reads:
  assumes "\<And>e. e \<in> X \<Longrightarrow> \<not> input_error e" and "OperationPersistenceError \<notin> X" "CasePersistenceError \<notin> X"
  shows "avoids X (fetch_operation E q)" "avoids X (fetch_case E q')"
  unfolding fetch_operation_def fetch_case_def
  by (intro avoids_bnd avoids_branch avoids_basic avoids_models assms avoids_db_call; simp add: assms)+

lemma conflicts_not_input:
  "e \<in> creation_conflicts \<Longrightarrow> \<not> input_error e" "e \<in> handoff_conflicts \<Longrightarrow> \<not> input_error e"
  by (auto simp: input_error_def creation_conflicts_def handoff_conflicts_def)

lemma create_conflicts_absorbed:
  "avoids creation_conflicts (create_pending_operation E n sc rq os od ex)"
  unfolding create_pending_operation_def create_attempt_def find_duplicate_request_def Let_def
    build_pending_operation_def repo_find_by_source_message_def repo_find_active_by_order_id_def
  by (intro avoids_bnd avoids_branch avoids_attempts avoids_try avoids_models avoids_reads
      avoids_basic conflicts_not_input; simp add: creation_conflicts_def)

lemma handoff_conflicts_absorbed:
  "avoids handoff_conflicts (record_handoff E n sc tr d)"
  "avoids handoff_conflicts (record_delivery_investigation E n sc tr d ty conn)"
  unfolding record_handoff_def record_delivery_investigation_def handoff_attempt_def investigation_attempt_def
    retry_on_case_conflict_def some_result_def case_result_def
    repo_find_case_by_source_message_def repo_find_unresolved_case_def Let_def
  by (intro avoids_bnd avoids_branch avoids_attempts avoids_try avoids_models avoids_reads
      avoids_basic conflicts_not_input; simp add: handoff_conflicts_def)+

end
