(* ===== verification/Atomicity.thy ===== *)
theory Atomicity
  imports Isolation
begin

text \<open>
  What a caller may conclude from an answer when nobody else is writing and no round trip is lost.
  \<open>reports C m\<close>: if \<open>m\<close> raises, the tables are untouched; if it returns and the tables changed, the
  result says so (\<open>C\<close>).
\<close>

section \<open>Truthful programs\<close>

definition reports :: "('a \<Rightarrow> bool) \<Rightarrow> (world, 'a) prog \<Rightarrow> bool" where
  "reports C m \<longleftrightarrow>
     (\<forall>w e w'. m w = (Inl e, w') \<longrightarrow> w_db w' = w_db w)
     \<and> (\<forall>w x w'. m w = (Inr x, w') \<longrightarrow> C x \<or> w_db w' = w_db w)"

lemma reportsI:
  assumes "\<And>w r w'. m w = (r, w') \<Longrightarrow> case r of Inl e \<Rightarrow> w_db w' = w_db w | Inr x \<Rightarrow> C x \<or> w_db w' = w_db w"
  shows "reports C m"
  using assms unfolding reports_def by fastforce

lemma reportsD:
  assumes "reports C m"
  shows "m w = (Inl e, w') \<Longrightarrow> w_db w' = w_db w" "m w = (Inr x, w') \<Longrightarrow> \<not> C x \<Longrightarrow> w_db w' = w_db w"
  using assms unfolding reports_def by blast+

abbreviation silent :: "(world, 'a) prog \<Rightarrow> bool" where
  "silent \<equiv> reports (\<lambda>_. False)"

abbreviation some_change :: "('a \<Rightarrow> bool) \<Rightarrow> 'a option \<Rightarrow> bool" where
  "some_change C r \<equiv> (case r of None \<Rightarrow> False | Some x \<Rightarrow> C x)"

lemma reports_same: "m w = (Inr x, w') \<Longrightarrow> reports C m \<Longrightarrow> \<not> C x \<Longrightarrow> w_db w' = w_db w"
  by (erule reportsD(2)[rotated 1])

lemma reports_mono: "reports C m \<Longrightarrow> (\<And>x. C x \<Longrightarrow> C' x) \<Longrightarrow> reports C' m"
  unfolding reports_def by blast

lemma silent_reports: "silent m \<Longrightarrow> reports C m"
  by (erule reports_mono) simp

lemma reports_basic:
  "reports C (ret x)" "reports C (throw e)" "reports C (lift r)" "reports C' (require b e)"
  "reports D (clock E)" "reports D' (id_factory E)"
  by (auto simp: reports_def ret_def throw_def lift_def require_def clock_def id_factory_def
      split: sum.split)

text \<open>After a write only a result that announces it may follow.\<close>

lemma reports_bnd_write:
  assumes "reports D m" and "\<And>x. D x \<Longrightarrow> \<exists>y. k x = ret y \<and> C y" and "\<And>x. \<not> D x \<Longrightarrow> reports C (k x)"
  shows "reports C (bnd m k)"
proof (rule reportsI)
  fix w r w'
  assume run: "bnd m k w = (r, w')"
  obtain a w1 where m: "m w = (a, w1)" by fastforce
  show "case r of Inl e \<Rightarrow> w_db w' = w_db w | Inr x \<Rightarrow> C x \<or> w_db w' = w_db w"
  proof (cases a)
    case (Inl e)
    then show ?thesis using run m reportsD(1)[OF assms(1)] by (auto simp: bnd_def)
  next
    case (Inr x)
    then have k: "k x w1 = (r, w')" using run m by (simp add: bnd_def)
    show ?thesis
    proof (cases "D x")
      case True
      then obtain y where "k x = ret y" "C y" using assms(2) by blast
      then show ?thesis using k by (auto simp: ret_def)
    next
      case False
      then have "w_db w1 = w_db w" using reportsD(2)[OF assms(1)] m Inr by blast
      then show ?thesis using k reportsD[OF assms(3)[OF False]] by (cases r) (simp_all, metis+)
    qed
  qed
qed

lemma reports_bnd: "silent m \<Longrightarrow> (\<And>x. reports C (k x)) \<Longrightarrow> reports C (bnd m k)"
  by (rule reports_bnd_write[where D = "\<lambda>_. False"]) auto

lemma reports_then: "reports D m \<Longrightarrow> (\<And>x. C (f x)) \<Longrightarrow> reports C (bnd m (\<lambda>x. ret (f x)))"
  by (rule reports_bnd_write[where D = "\<lambda>_. True"]) (auto intro: reports_mono)

lemma reports_try:
  assumes "reports C m" and "\<And>e. reports C (h e)"
  shows "reports C (try_except m h)"
proof (rule reportsI)
  fix w r w'
  assume run: "try_except m h w = (r, w')"
  obtain a w1 where m: "m w = (a, w1)" by fastforce
  show "case r of Inl e \<Rightarrow> w_db w' = w_db w | Inr x \<Rightarrow> C x \<or> w_db w' = w_db w"
  proof (cases a)
    case (Inl e)
    then have "h e w1 = (r, w')" "w_db w1 = w_db w"
      using run m reportsD(1)[OF assms(1)] by (auto simp: try_except_def)
    then show ?thesis using reportsD[OF assms(2)] by (cases r) (simp_all, metis+)
  next
    case (Inr x)
    then show ?thesis using run m reportsD(2)[OF assms(1), of w x w1] by (cases "C x") (auto simp: try_except_def)
  qed
qed

lemma reports_branch:
  "(c \<Longrightarrow> reports C m) \<Longrightarrow> (\<not> c \<Longrightarrow> reports C n) \<Longrightarrow> reports C (if c then m else n)"
  "reports C m \<Longrightarrow> (\<And>y. reports C (q y)) \<Longrightarrow> reports C (case x of None \<Rightarrow> m | Some y \<Rightarrow> q y)"
  "(\<And>c d. reports C (p c d)) \<Longrightarrow> reports C (case z of (c, d) \<Rightarrow> p c d)"
  by (auto split: option.split prod.split)

lemma reports_attempts:
  assumes "reports (some_change C) body" and "reports C after"
  shows "reports C (attempts n body after)"
proof (induction n)
  case (Suc n)
  have "reports C (bnd body (\<lambda>r. case r of Some x \<Rightarrow> ret x | None \<Rightarrow> attempts n body after))"
    by (rule reports_bnd_write[OF assms(1)]) (auto split: option.splits intro: reports_basic Suc)
  then show ?case by simp
qed (simp add: assms)

lemma reports_db_call: "quiet E \<Longrightarrow> reports (\<lambda>_. True) (db_call E e f)"
  by (auto simp: reports_def db_call_def quiet_def Let_def split: sum.splits prod.splits)

lemma silent_read:
  assumes "quiet E" and "\<And>s. \<exists>x. f s = Inr (x, s)"
  shows "silent (db_call E e f)"
proof (rule reportsI)
  fix w r w'
  assume "db_call E e f w = (r, w')"
  moreover obtain x where "f (w_db w) = Inr (x, w_db w)" using assms(2) by blast
  ultimately show "case r of Inl e \<Rightarrow> w_db w' = w_db w | Inr x \<Rightarrow> False \<or> w_db w' = w_db w"
    using assms(1) by (auto simp: db_call_def quiet_def Let_def)
qed

section \<open>Repositories\<close>

lemma silent_reads:
  assumes "quiet E"
  shows "silent (repo_get_operation E sc u)" "silent (repo_find_by_source_message E sc th msg)"
    "silent (repo_find_event_by_idempotency_key E sc key)" "silent (repo_find_active_by_order_id E sc ord)"
    "silent (repo_get_case E sc u)" "silent (repo_find_case_by_source_message E sc th msg)"
    "silent (repo_find_case_event_by_idempotency_key E sc key)"
    "silent (repo_find_unresolved_case E sc th ty ord')"
  unfolding repo_get_operation_def repo_find_by_source_message_def repo_find_event_by_idempotency_key_def
    repo_find_active_by_order_id_def fetch_operation_def repo_get_case_def fetch_case_def
    repo_find_case_by_source_message_def repo_find_case_event_by_idempotency_key_def
    repo_find_unresolved_case_def
  by (intro reports_bnd reports_branch reports_basic silent_read[OF assms]; simp)+

lemma reporting_writes:
  assumes "quiet E"
  shows "reports (\<lambda>_. True) (repo_create_operation_with_events E sc x es)"
    "reports (\<lambda>_. True) (repo_update_operation_with_events E sc x es n)"
    "reports (\<lambda>_. True) (repo_queue_operation_with_events_and_command E sc x es c n)"
    "reports (\<lambda>_. True) (repo_create_case_with_event E sc cs e)"
    "reports (\<lambda>_. True) (repo_update_case_with_event E sc cs e n)"
    "reports (\<lambda>_. True) (repo_create_case_with_event_and_command E sc cs e c)"
    "reports (\<lambda>_. True) (repo_append_delivery_trigger_and_ensure_command E sc cs e c n)"
  unfolding repo_create_operation_with_events_def repo_update_operation_with_events_def
    repo_queue_operation_with_events_and_command_def repo_create_case_with_event_def
    repo_update_case_with_event_def repo_create_case_with_event_and_command_def
    repo_append_delivery_trigger_and_ensure_command_def
  by (intro reports_bnd reports_basic reports_db_call[OF assms])+

section \<open>Services\<close>

definition operation_changed :: "operation_service_result \<Rightarrow> bool" where
  "operation_changed r \<longleftrightarrow> sr_action r \<notin> {Act_status_unchanged, Act_duplicate_ignored}"

definition case_changed :: "case_service_result \<Rightarrow> bool" where
  "case_changed r \<longleftrightarrow>
     cv_action r \<in> {Case_act_created, Case_event_appended, Case_act_status_changed, Case_act_assigned}"

lemmas reports_intros = reports_bnd reports_branch reports_attempts reports_try reports_basic

lemma reports_write_or_replay:
  assumes "quiet E" and "action \<notin> {Act_status_unchanged, Act_duplicate_ignored}"
  shows "reports (some_change operation_changed) (write_or_replay E sc key action cur x es)"
  unfolding write_or_replay_def replay_or_retry_def unchanged_result_def get_operation_def
  by (intro reports_try reports_then[OF reporting_writes(2)] reports_intros silent_reads assms(1))
     (use assms(2) in \<open>simp add: operation_changed_def service_result_def\<close>)

lemma reports_unchanged: "quiet E \<Longrightarrow> reports C (unchanged_result E sc u)"
  unfolding unchanged_result_def get_operation_def by (intro reports_intros silent_reads)

lemma silent_get_operation: "quiet E \<Longrightarrow> silent (get_operation E sc u)"
  unfolding get_operation_def by (intro reports_intros silent_reads)

lemma silent_build_status_update: "silent (build_status_update E cur st key actor ref)"
  unfolding build_status_update_def Let_def by (intro reports_intros)

lemma silent_build_pending: "silent (build_pending_operation E sc cid rq os od ex)"
  unfolding build_pending_operation_def by (intro reports_intros)

lemma silent_find_duplicate: "quiet E \<Longrightarrow> silent (find_duplicate_request E sc rq)"
  unfolding find_duplicate_request_def by (intro reports_intros silent_reads)

lemmas operation_parts = reports_write_or_replay reports_unchanged silent_get_operation
  silent_build_status_update silent_build_pending silent_find_duplicate silent_reads

lemma reports_operation_service:
  assumes E: "quiet E"
  shows "reports operation_changed (create_pending_operation E n sc rq os od ex)"
    "reports operation_changed (confirm_operation E n sc u req)"
    "reports operation_changed (cancel_pending_operation E n sc u req)"
    "reports operation_changed (queue_confirmed_operation E sc u req conn)"
    "reports operation_changed (update_operation_status E n sc u st req actor ref)"
    "reports operation_changed (attach_support_case E n sc u c req)"
  unfolding create_pending_operation_def create_attempt_def confirm_operation_def
    cancel_pending_operation_def change_from_pending_def change_attempt_def unless_recorded_def
    queue_confirmed_operation_def update_operation_status_def status_attempt_def
    attach_support_case_def attach_attempt_def Let_def
  by (intro reports_bnd reports_branch reports_attempts reports_try reports_basic
      reports_then[OF reporting_writes(1)] reports_then[OF reporting_writes(3)] operation_parts E;
      simp add: operation_changed_def service_result_def)+

lemma reports_submit:
  assumes E: "quiet E" and "\<And>rq v key. silent (submit rq v key)"
  shows "reports operation_changed (submit_confirmed_operation E n sc u req submit)"
  unfolding submit_confirmed_operation_def submit_attempt_def unless_recorded_def Let_def
  by (intro reports_bnd reports_branch reports_attempts reports_basic operation_parts assms;
      simp add: operation_changed_def service_result_def)

text \<open>After a committed write the case service's own result is always well formed.\<close>

lemma case_result_write:
  assumes "action \<in> {Case_act_created, Case_event_appended, Case_act_status_changed, Case_act_assigned}"
  shows "\<exists>y. case_result action (Some c) (Some e) = ret y \<and> case_changed y"
    "\<exists>y. some_result (case_result action (Some c) (Some e)) = ret y \<and> some_change case_changed y"
  using assms
  by (auto simp: case_result_def some_result_def mk_case_service_result_def validate_result_def lift_def
      ret_def bnd_def case_changed_def)

lemma reports_case_then:
  assumes "reports D m"
    and "action \<in> {Case_act_created, Case_event_appended, Case_act_status_changed, Case_act_assigned}"
  shows "reports case_changed (bnd m (\<lambda>_. case_result action (Some c) (Some e)))"
  by (rule reports_bnd_write[where D = "\<lambda>_. True"]) (use assms case_result_write in \<open>auto intro: reports_mono\<close>)

lemma reports_some_result: "reports C m \<Longrightarrow> reports (some_change C) (some_result m)"
  unfolding some_result_def by (rule reports_bnd_write[where D = C]) (auto intro: reports_basic)

lemma reports_case_result: "reports C (case_result action c e)"
  unfolding case_result_def by (rule reports_basic)

lemma reports_create_case:
  assumes "quiet E"
  shows "reports case_changed (create_case E sc cid tr d ty p)"
    "reports case_changed (create_delivery_case_with_command E sc cid tr d p it conn)"
  unfolding create_case_def create_delivery_case_with_command_def
  by (intro reports_bnd reports_basic reports_case_then[OF reporting_writes(4)[OF assms]]
      reports_case_then[OF reporting_writes(6)[OF assms]]; simp)+

lemma reports_append_trigger:
  assumes "quiet E"
  shows "reports case_changed (append_trigger E sc c tr d p q)"
  unfolding append_trigger_def
  by (intro reports_bnd reports_branch reports_basic reports_case_then[OF reporting_writes(5)[OF assms]]
      reports_case_then[OF reporting_writes(7)[OF assms]]; simp)

lemma reports_write_case:
  assumes "quiet E"
    and "action \<in> {Case_act_created, Case_event_appended, Case_act_status_changed, Case_act_assigned}"
  shows "reports (some_change case_changed) (write_case E sc key action cur x e)"
proof -
  have h: "silent (case_write_handler E sc key err)" for err
    unfolding case_write_handler_def some_result_def
    by (intro reports_bnd reports_branch reports_basic reports_case_result silent_reads assms(1))
  show ?thesis
    unfolding write_case_def
  proof (rule reports_bnd_write[where D = "\<lambda>r. r = Inr ()"])
    show "reports (\<lambda>r. r = Inr ()) (try_except
        (bnd (repo_update_case_with_event E sc x e (cs_version cur)) (\<lambda>_. ret (Inr ())))
        (\<lambda>err. bnd (case_write_handler E sc key err) (\<lambda>r. ret (Inl r))))"
      by (intro reports_try reports_then[OF reporting_writes(5)[OF assms(1)]] reports_bnd reports_basic h) simp
  qed (use case_result_write(2)[OF assms(2)] in \<open>auto split: sum.split intro: reports_basic\<close>)
qed

lemma reports_case_service:
  assumes E: "quiet E"
  shows "reports case_changed (record_handoff E n sc tr d)"
    "reports case_changed (record_delivery_investigation E n sc tr d ty conn)"
    "reports case_changed (change_status E n sc u st req reason)"
  unfolding record_handoff_def handoff_attempt_def record_delivery_investigation_def
    investigation_attempt_def retry_on_case_conflict_def change_status_def status_change_attempt_def
    recorded_case_def Let_def
  by (intro reports_bnd reports_branch reports_attempts reports_try reports_basic reports_case_result
      reports_some_result reports_create_case reports_append_trigger reports_write_case silent_reads E; simp)+

lemma reports_assign:
  assumes E: "quiet E" and "\<And>f t a. directory = Some f \<Longrightarrow> silent (f t a)"
  shows "reports case_changed (assign_case E n directory sc u agent req)"
proof -
  have target: "silent (require_assignment_target directory t a)" for t a
    unfolding require_assignment_target_def
    by (cases directory) (auto intro!: reports_bnd reports_basic assms(2))
  show ?thesis
    unfolding assign_case_def assign_attempt_def recorded_case_def Let_def
    by (intro reports_bnd reports_branch reports_attempts reports_basic reports_case_result
        reports_some_result reports_write_case silent_reads target E; simp)
qed

section \<open>Whole calls\<close>

text \<open>The provider and the directory do not write to the tables.\<close>

definition off_tables :: "deployment \<Rightarrow> bool" where
  "off_tables D \<longleftrightarrow>
     (\<forall>rq v key w. w_db (snd (dp_submit D rq v key w)) = w_db w)
     \<and> (\<forall>f t u w. dp_directory D = Some f \<longrightarrow> w_db (snd (f t u w)) = w_db w)"

lemma silentI: "(\<And>w. w_db (snd (m w)) = w_db w) \<Longrightarrow> silent m"
  by (metis reports_def snd_conv)

lemma reports_discard: "reports C m \<Longrightarrow> reports (\<lambda>_. True) (discard m)"
  unfolding discard_def by (rule reports_then) simp_all

lemma reports_exec_call:
  assumes "quiet (dp_env D)" and "off_tables D"
  shows "reports (\<lambda>_. True) (exec_call D c)"
proof -
  have P: "\<And>rq v key. silent (dp_submit D rq v key)"
    and F: "\<And>f t a. dp_directory D = Some f \<Longrightarrow> silent (f t a)"
    using assms(2) by (auto simp: off_tables_def intro: silentI)
  show ?thesis
    by (cases c; simp only: exec_call.simps; rule reports_discard;
        (rule reports_operation_service[OF assms(1)] reports_case_service[OF assms(1)]
           reports_submit[OF assms(1) P] | rule reports_assign[OF assms(1)], erule F))
qed

end
