(* ===== verification/Replay.thy ===== *)
theory Replay
  imports Atomicity
begin

text \<open>
  What the operation service does for one caller in a quiet environment: a request whose key is
  already recorded is answered from the tables, and a customer's cancellation of a pending
  operation succeeds at the first attempt.
\<close>

section \<open>Reads in a quiet environment\<close>

text \<open>A scope as \<^verbatim>\<open>AccessScope\<close> builds it, for a customer.\<close>

definition customer_scope :: "access_scope \<Rightarrow> bool" where
  "customer_scope sc \<longleftrightarrow>
     sc_role sc = Customer
     \<and> mk_access_scope (sc_tenant_id sc) (sc_user_id sc) (sc_role sc) (sc_permissions sc) = Inr sc"

definition own_row :: "access_scope \<Rightarrow> order_operation \<Rightarrow> bool" where
  "own_row sc r \<longleftrightarrow> op_tenant_id r = sc_tenant_id sc \<and> op_customer_id r = sc_user_id sc"

definition own_event :: "access_scope \<Rightarrow> order_operation_event \<Rightarrow> bool" where
  "own_event sc e \<longleftrightarrow> oe_tenant_id e = sc_tenant_id sc \<and> oe_customer_id e = sc_user_id sc"

abbreviation called :: "world \<Rightarrow> world" where
  "called w \<equiv> w\<lparr>w_calls := Suc (w_calls w)\<rparr>"

lemma customer_scopeD:
  assumes "customer_scope sc"
  shows "customer_owned_visibility sc = Inr (Tenant_customer (sc_tenant_id sc) (sc_user_id sc))"
    "sc_customer_id sc = Some (sc_user_id sc)"
    "trim (sc_tenant_id sc) = sc_tenant_id sc" "trim (sc_user_id sc) = sc_user_id sc"
    "sc_identity sc = Inr (sc_tenant_id sc @ '':'' @ sc_user_id sc)"
    "sc_tenant_id sc \<noteq> []" "sc_user_id sc \<noteq> []"
proof -
  have t: "trim (sc_tenant_id sc) = sc_tenant_id sc \<and> trim (sc_user_id sc) = sc_user_id sc
      \<and> valid_identity_parts (sc_tenant_id sc) (sc_user_id sc)
      \<and> sc_tenant_id sc \<noteq> [] \<and> sc_user_id sc \<noteq> [] \<and> sc_role sc = Customer"
    using assms by (cases sc) (auto simp: customer_scope_def mk_access_scope_def Let_def split: if_splits)
  then show "customer_owned_visibility sc = Inr (Tenant_customer (sc_tenant_id sc) (sc_user_id sc))"
    "sc_customer_id sc = Some (sc_user_id sc)"
    "trim (sc_tenant_id sc) = sc_tenant_id sc" "trim (sc_user_id sc) = sc_user_id sc"
    "sc_identity sc = Inr (sc_tenant_id sc @ '':'' @ sc_user_id sc)"
    "sc_tenant_id sc \<noteq> []" "sc_user_id sc \<noteq> []"
    by (simp_all add: customer_owned_visibility_def sc_customer_id_def sc_identity_def encode_identity_key_eq)
qed

lemma visible_own:
  "operation_visible (Tenant_customer (sc_tenant_id sc) (sc_user_id sc)) r \<longleftrightarrow> own_row sc r"
  "operation_event_visible (Tenant_customer (sc_tenant_id sc) (sc_user_id sc)) e \<longleftrightarrow> own_event sc e"
  by (auto simp: operation_visible_def operation_event_visible_def own_row_def own_event_def)

lemma read_back:
  assumes "committed s"
  shows "r \<in> set (order_operations s) \<Longrightarrow> mk_order_operation r = Inr (trim_order_operation r)"
    "e \<in> set (order_operation_events s) \<Longrightarrow> mk_order_operation_event e = Inr (trim_order_operation_event e)"
  using committedD(2)[OF assms]
  by (auto simp: readable_def list_all_iff operation_readable_def operation_event_readable_def
      mk_order_operation_Inr mk_order_operation_event_Inr)

lemma wp_get_operation:
  assumes "quiet E" "committed (w_db w)" "customer_scope sc"
    and r: "r \<in> set (order_operations (w_db w))" "op_operation_id r = u" "own_row sc r"
  shows "wp (get_operation E sc u) Q X w = Q (trim_order_operation r) (called w)"
proof -
  have "find (\<lambda>r. op_operation_id r = u \<and> own_row sc r) (order_operations (w_db w)) = Some r"
    by (rule find_unique[where k = op_operation_id]) (use assms committedD(5) in auto)
  then show ?thesis
    by (simp add: get_operation_def repo_get_operation_def fetch_operation_def wp_rules
        wp_db_call_quiet[OF assms(1)] customer_scopeD[OF assms(3)] visible_own
        read_back[OF assms(2)] r(1) Let_def)
qed

lemma wp_find_event:
  assumes "quiet E" "committed (w_db w)" "customer_scope sc"
  shows "e \<in> set (order_operation_events (w_db w)) \<Longrightarrow> oe_idempotency_key e = key \<Longrightarrow> own_event sc e \<Longrightarrow>
      wp (repo_find_event_by_idempotency_key E sc key) Q X w = Q (Some (trim_order_operation_event e)) (called w)"
    and "key \<notin> oe_idempotency_key ` set (order_operation_events (w_db w)) \<Longrightarrow>
      wp (repo_find_event_by_idempotency_key E sc key) Q X w = Q None (called w)"
proof -
  have keys: "distinct (map oe_idempotency_key (order_operation_events (w_db w)))"
    using committedD(1)[OF assms(2)] by (simp add: db_ok_def operation_events_ok_def unique_all)
  note unfold = repo_find_event_by_idempotency_key_def wp_rules wp_db_call_quiet[OF assms(1)]
    customer_scopeD[OF assms(3)] visible_own read_back[OF assms(2)] Let_def
  {
    assume e: "e \<in> set (order_operation_events (w_db w))" "oe_idempotency_key e = key" "own_event sc e"
    have "find (\<lambda>e. oe_idempotency_key e = key \<and> own_event sc e) (order_operation_events (w_db w)) = Some e"
      by (rule find_unique[OF keys]) (use e in auto)
    then show "wp (repo_find_event_by_idempotency_key E sc key) Q X w
        = Q (Some (trim_order_operation_event e)) (called w)"
      by (simp add: unfold e(1))
  }
  assume "key \<notin> oe_idempotency_key ` set (order_operation_events (w_db w))"
  then have "find (\<lambda>e. oe_idempotency_key e = key \<and> own_event sc e) (order_operation_events (w_db w)) = None"
    by (auto simp: find_None_iff)
  then show "wp (repo_find_event_by_idempotency_key E sc key) Q X w = Q None (called w)"
    by (simp add: unfold)
qed

section \<open>Recorded requests\<close>

definition recorded :: "access_scope \<Rightarrow> string \<Rightarrow> db \<Rightarrow> order_operation \<Rightarrow> bool" where
  "recorded sc key s r \<longleftrightarrow>
     r \<in> set (order_operations s) \<and> own_row sc r
     \<and> (\<exists>e\<in>set (order_operation_events s).
          oe_idempotency_key e = key \<and> own_event sc e \<and> oe_operation_id e = op_operation_id r)"

lemma wp_unless_recorded:
  assumes "quiet E" "committed (w_db w)" "customer_scope sc" "recorded sc key (w_db w) r"
  shows "wp (unless_recorded E sc key body) Q X w =
     Q (service_result Act_status_unchanged (trim_order_operation r) []) (called (called w))"
proof -
  obtain e where e: "e \<in> set (order_operation_events (w_db w))" "oe_idempotency_key e = key"
      "own_event sc e" "oe_operation_id e = op_operation_id r"
    and r: "r \<in> set (order_operations (w_db w))" "own_row sc r"
    using assms(4) by (auto simp: recorded_def)
  show ?thesis
    unfolding unless_recorded_def unchanged_result_def
    by (simp add: wp_rules wp_find_event(1)[OF assms(1-3) e(1-3)] e(4)
        wp_get_operation[OF assms(1) _ assms(3), of "called w" r, simplified, OF assms(2) r(1) refl r(2)])
qed

text \<open>Whatever the caller asks again under a recorded key is answered with the operation as it is,
  without writing and, for a submission, without calling the provider.\<close>

lemma recorded_requests_replayed:
  assumes "quiet E" "committed (w_db w)" "customer_scope sc" "strip req \<noteq> []"
  shows "recorded sc (operation_request_key u ''cancelled'' (strip req)) (w_db w) r \<Longrightarrow>
      cancel_pending_operation E n sc u req w =
        (Inr (service_result Act_status_unchanged (trim_order_operation r) []), called (called w))"
    and "recorded sc (operation_request_key u ''submitted'' (strip req)) (w_db w) r \<Longrightarrow>
      submit_confirmed_operation E n sc u req submit w =
        (Inr (service_result Act_status_unchanged (trim_order_operation r) []), called (called w))"
    and "recorded sc (operation_request_key u ''support-case'' (strip req)) (w_db w) r \<Longrightarrow>
      attach_support_case E n sc u c req w =
        (Inr (service_result Act_status_unchanged (trim_order_operation r) []), called (called w))"
proof -
  have wpD: "m w = (Inr x, w')" if "wp m (\<lambda>y w1. y = x \<and> w1 = w') (\<lambda>_ _. False) w" for m :: "(world, operation_service_result) prog" and x w'
    using that by (auto simp: wp_def split: prod.splits sum.splits)
  show "recorded sc (operation_request_key u ''cancelled'' (strip req)) (w_db w) r \<Longrightarrow>
      cancel_pending_operation E n sc u req w =
        (Inr (service_result Act_status_unchanged (trim_order_operation r) []), called (called w))"
    by (rule wpD) (simp add: cancel_pending_operation_def change_from_pending_def wp_rules
        customer_scopeD[OF assms(3)] assms Let_def wp_unless_recorded)
  show "recorded sc (operation_request_key u ''submitted'' (strip req)) (w_db w) r \<Longrightarrow>
      submit_confirmed_operation E n sc u req submit w =
        (Inr (service_result Act_status_unchanged (trim_order_operation r) []), called (called w))"
    by (rule wpD) (simp add: submit_confirmed_operation_def wp_rules
        customer_scopeD[OF assms(3)] assms Let_def wp_unless_recorded)
  show "recorded sc (operation_request_key u ''support-case'' (strip req)) (w_db w) r \<Longrightarrow>
      attach_support_case E n sc u c req w =
        (Inr (service_result Act_status_unchanged (trim_order_operation r) []), called (called w))"
    by (rule wpD) (simp add: attach_support_case_def wp_rules assms Let_def wp_unless_recorded)
qed

section \<open>A transaction that commits\<close>

definition event_insertable :: "db \<Rightarrow> order_operation_event \<Rightarrow> bool" where
  "event_insertable s e \<longleftrightarrow>
     operation_event_row_ok e \<and> oe_event_id e \<notin> oe_event_id ` set (order_operation_events s)
     \<and> oe_idempotency_key e \<notin> oe_idempotency_key ` set (order_operation_events s)
     \<and> oe_operation_id e \<in> op_operation_id ` set (order_operations s)
     \<and> case_exists s (oe_support_case_id e)"

lemma insert_event_commits:
  "event_insertable s e \<Longrightarrow>
   insert_operation_event e s = Inr (s\<lparr>order_operation_events := order_operation_events s @ [e]\<rparr>)"
  by (auto simp: insert_operation_event_Inr event_insertable_def key_taken_def list_ex_iff
      intro: rev_image_eqI)

lemma filter_only: "distinct xs \<Longrightarrow> x \<in> set xs \<Longrightarrow> filter (\<lambda>y. y = x) xs = [x]"
  by (induction xs) (auto simp: filter_empty_conv)

lemma update_operation_commits:
  assumes "committed s" and r: "r \<in> set (order_operations s)" "op_operation_id x = op_operation_id r"
    "operation_visible v r" and row: "operation_row_ok (set_operation_columns x r)"
    and active: "operation_active x \<Longrightarrow> operation_active r" and cas: "case_exists s (op_support_case_id x)"
    and e: "event_insertable s e"
  shows "update_operation_tx v x [e] (op_version r) s =
     Inr (s\<lparr>order_operations := update_rows (\<lambda>q. q = r) (set_operation_columns x) (order_operations s),
            order_operation_events := order_operation_events s @ [e]\<rparr>)"
proof -
  let ?rows = "order_operations s"
  let ?sel = "\<lambda>q. op_operation_id q = op_operation_id x \<and> op_version q = op_version r \<and> operation_visible v q"
  have ids: "distinct (map op_operation_id ?rows)" by (rule committedD(5)[OF assms(1)])
  have sel: "?sel q \<longleftrightarrow> q = r" if "q \<in> set ?rows" for q
    using that r ids by (metis distinct_map inj_onD)
  have hit: "filter ?sel ?rows = [r]"
  proof -
    have "filter ?sel ?rows = filter (\<lambda>q. q = r) ?rows" by (rule filter_cong) (simp_all add: sel)
    also have "\<dots> = [r]"
      using r(1) ids by (simp add: distinct_map filter_only)
    finally show ?thesis .
  qed
  have uniq: "unique_on operation_active (\<lambda>r. (op_tenant_id r, op_order_id r)) ?rows"
    using committedD(1)[OF assms(1)] by (simp add: db_ok_def operations_ok_def)
  have free: "\<not> key_taken operation_active (\<lambda>r. (op_tenant_id r, op_order_id r))
      (filter (\<lambda>q. \<not> ?sel q) ?rows) (set_operation_columns x r)"
  proof
    assume "key_taken operation_active (\<lambda>r. (op_tenant_id r, op_order_id r))
      (filter (\<lambda>q. \<not> ?sel q) ?rows) (set_operation_columns x r)"
    then obtain q where "q \<in> set ?rows" "\<not> ?sel q" "operation_active q" "operation_active x"
      "op_tenant_id q = op_tenant_id r" "op_order_id q = op_order_id r"
      by (auto simp: key_taken_def list_ex_iff operation_active_def)
    then show False
      using active sel r(1) unique_on_eqD[OF uniq, of q r] by auto
  qed
  have upd: "update_order_operations ?sel (set_operation_columns x) s =
      Inr (1, s\<lparr>order_operations := update_rows (\<lambda>q. q = r) (set_operation_columns x) ?rows\<rparr>)"
  proof -
    have "update_rows ?sel (set_operation_columns x) ?rows = update_rows (\<lambda>q. q = r) (set_operation_columns x) ?rows"
      unfolding update_rows_def by (rule map_cong) (use sel in auto)
    moreover have "op_support_case_id (set_operation_columns x r) = op_support_case_id x"
      by (simp add: set_operation_columns_def)
    ultimately show ?thesis
      using row free cas by (simp add: update_order_operations_def Let_def hit)
  qed
  have "event_insertable (s\<lparr>order_operations := update_rows (\<lambda>q. q = r) (set_operation_columns x) ?rows\<rparr>) e"
    using e map_update_rows_id[of ?rows "\<lambda>q. q = r" op_operation_id "set_operation_columns x"]
    by (simp add: event_insertable_def flip: set_map)
  then show ?thesis
    unfolding update_operation_tx_def upd by (simp add: insert_event_commits)
qed

section \<open>A customer can cancel a pending operation\<close>

lemma not_blank_append: "not_blank a \<or> not_blank b \<Longrightarrow> not_blank (a @ b)"
  by (auto simp: not_blank_def btrim_def strip_by_eq_Nil)

lemma not_blank_literal: "c \<in> set a \<Longrightarrow> c \<noteq> CHR '' '' \<Longrightarrow> not_blank a"
  by (auto simp: not_blank_def btrim_def strip_by_eq_Nil)

lemma not_blank_trim:
  assumes "trim a \<noteq> []"
  shows "not_blank a"
proof -
  obtain c where "c \<in> set a" "\<not> is_white_space c" using assms by (auto simp: trim_def strip_by_eq_Nil)
  moreover have "is_white_space (CHR '' '')" by code_simp
  ultimately show ?thesis using not_blank_literal by metis
qed

lemma not_blank_request_key: "not_blank (operation_request_key u verb req)"
  by (rule not_blank_literal[of "CHR ''o''"]) (simp_all add: operation_request_key_def)

text \<open>What the change writes: the row as it was read, moved to the target status.\<close>

lemma changed_row_ok:
  assumes "operation_row_ok r" and "operation_readable r"
    and "op_created_at r \<le> now" and "op_version r < 2 ^ 31 - 1"
  shows "operation_row_ok (set_operation_columns ((trim_order_operation r)\<lparr>op_status := st,
     op_provider_reference := ref, op_updated_at := now, op_version := op_version r + 1\<rparr>) r)"
proof -
  have "valid_order_operation (trim_order_operation r)" using assms(2) by (simp add: operation_readable_def)
  then have "trim (op_display_reason r) \<noteq> []" "op_policy_reason_codes (trim_order_operation r) \<noteq> []"
    by (simp_all add: valid_order_operation_def trim_order_operation_def)
  then have "not_blank (trim (op_display_reason r))" using not_blank_trim[of "trim (op_display_reason r)"] by simp
  then show ?thesis
    using assms \<open>op_policy_reason_codes (trim_order_operation r) \<noteq> []\<close>
    by (auto simp: operation_row_ok_def set_operation_columns_def trim_order_operation_def int4_def)
qed

definition status_event ::
  "order_operation \<Rightarrow> operation_record_status \<Rightarrow> string \<Rightarrow> string \<Rightarrow> uuid \<Rightarrow> instant \<Rightarrow> order_operation_event" where
  "status_event current target key actor event_id now =
     (operation_event event_id key current Status_changed actor now)
       \<lparr>oe_previous_status := Some (op_status current), oe_current_status := Some target,
        oe_provider_reference := op_provider_reference current\<rparr>"

definition moved_operation :: "order_operation \<Rightarrow> operation_record_status \<Rightarrow> instant \<Rightarrow> order_operation" where
  "moved_operation current target now =
     current\<lparr>op_status := target, op_updated_at := now, op_version := op_version current + 1\<rparr>"

lemma trim_literal: "c \<in> set a \<Longrightarrow> \<not> is_white_space c \<Longrightarrow> trim a \<noteq> []"
  by (auto simp: trim_def strip_by_eq_Nil)

lemma status_event_built:
  assumes "valid_order_operation x" "trim_order_operation x = x" "trim key \<noteq> []" "trim actor \<noteq> []"
  shows "mk_order_operation_event (status_event x target key actor event_id now)
     = Inr (status_event x target (trim key) (trim actor) event_id now)"
proof -
  have "trim (op_customer_id x) = op_customer_id x" "trim (op_tenant_id x) = op_tenant_id x"
    "map_option trim (op_provider_reference x) = op_provider_reference x"
    using assms(2) by (cases x; simp add: trim_order_operation_def)+
  then show ?thesis
    using assms
    by (simp add: mk_order_operation_event_Inr status_event_def operation_event_def
        trim_order_operation_event_def valid_order_operation_event_def valid_order_operation_def
        validate_event_shape_def)
qed

lemma wp_build_status_update:
  assumes "valid_order_operation x" "trim_order_operation x = x" "trim key \<noteq> []" "trim actor \<noteq> []"
  shows "wp (build_status_update E x target key actor None) Q X w =
     Q (moved_operation x target (en_clock E (w_ticks w)),
        status_event x target (trim key) (trim actor) (en_uuid E (w_ids w)) (en_clock E (w_ticks w)))
       (w\<lparr>w_ticks := Suc (w_ticks w), w_ids := Suc (w_ids w)\<rparr>)"
  using status_event_built[OF assms]
  by (simp add: build_status_update_def Let_def wp_rules moved_operation_def status_event_def)

lemma cancel_succeeds:
  assumes quiet: "quiet E" and ok: "committed (w_db w)" and sc: "customer_scope sc" and "strip req \<noteq> []"
    and r: "r \<in> set (order_operations (w_db w))" "op_operation_id r = u" "own_row sc r"
      "op_status r = Pending_confirmation"
    and fresh: "operation_request_key u ''cancelled'' (strip req)
          \<notin> oe_idempotency_key ` set (order_operation_events (w_db w))"
      "en_uuid E (w_ids w) \<notin> oe_event_id ` set (order_operation_events (w_db w))"
    and room: "op_created_at r \<le> en_clock E (w_ticks w)" "op_version r < 2 ^ 31 - 1"
  shows "\<exists>x w'. cancel_pending_operation E (Suc n) sc u req w = (Inr x, w')
     \<and> sr_action x = Act_cancelled
     \<and> order_operations (w_db w') = update_rows (\<lambda>q. q = r)
          (set_operation_columns (moved_operation (trim_order_operation r) Cancelled_by_customer
             (en_clock E (w_ticks w)))) (order_operations (w_db w))
     \<and> length (order_operation_events (w_db w')) = Suc (length (order_operation_events (w_db w)))"
proof -
  let ?x = "trim_order_operation r" and ?now = "en_clock E (w_ticks w)"
  let ?key = "operation_request_key u ''cancelled'' (strip req)"
  obtain actor where actor: "sc_identity sc = Inr actor" "trim actor \<noteq> []"
    using customer_scopeD(5)[OF sc] trim_literal[of "CHR '':''" "sc_tenant_id sc @ '':'' @ sc_user_id sc"]
    by (simp add: is_white_space_def)
  let ?m = "moved_operation ?x Cancelled_by_customer ?now"
  let ?e = "(status_event ?x Cancelled_by_customer (trim (?key @ '':status'')) (trim actor)
              (en_uuid E (w_ids w)) ?now)\<lparr>oe_idempotency_key := ?key\<rparr>"
  note S = customer_scopeD(1-4,6,7)[OF sc]
  have colon: "\<not> is_white_space (CHR '':'')" by code_simp
  have valid: "valid_order_operation ?x"
    using read_back(1)[OF ok r(1)] by (simp add: mk_order_operation_Inr)
  have "trim (?key @ '':status'') \<noteq> []" by (rule trim_literal[OF _ colon]) simp
  note build = wp_build_status_update[OF valid trim_order_operation_idem this actor(2)]
  have own: "op_tenant_id ?x = sc_tenant_id sc" "op_customer_id ?x = sc_user_id sc"
    using r(3) by (simp_all add: own_row_def S)
  have event: "event_insertable (w_db w) ?e"
    using fresh r(1,2) S actor(2) own
    by (auto simp: event_insertable_def operation_event_row_ok_def status_event_def operation_event_def
        not_blank_request_key case_exists_def intro!: not_blank_trim)
  have row: "operation_row_ok (set_operation_columns ?m r)"
  proof -
    have "operation_row_ok r" "operation_readable r"
      using committedD(1,2)[OF ok] r(1)
      by (auto simp: db_ok_def operations_ok_def readable_def list_all_iff)
    from changed_row_ok[OF this room, where st = Cancelled_by_customer and ref = "op_provider_reference ?x"]
    show ?thesis by (simp add: moved_operation_def)
  qed
  have exists: "case_exists (w_db w) (op_support_case_id ?m)"
    using committedD(1)[OF ok] r(1) by (auto simp: db_ok_def operations_ok_def list_all_iff moved_operation_def)
  have commit: "update_operation_tx (Tenant_customer (sc_tenant_id sc) (sc_user_id sc)) ?m [?e] (op_version r) (w_db w)
      = Inr ((w_db w)\<lparr>order_operations := update_rows (\<lambda>q. q = r) (set_operation_columns ?m) (order_operations (w_db w)),
            order_operation_events := order_operation_events (w_db w) @ [?e]\<rparr>)"
    by (rule update_operation_commits[OF ok r(1) _ _ row _ exists event])
       (simp_all add: moved_operation_def visible_own r operation_active_def active_statuses_def)
  have guards: "validate_operation_ownership sc ?m = Inr ()" "validate_event_ownership sc ?e = Inr ()"
    by (simp_all add: validate_operation_ownership_def validate_event_ownership_def moved_operation_def
        status_event_def operation_event_def own[simplified] S)
  have "wp (cancel_pending_operation E (Suc n) sc u req)
     (\<lambda>x w'. sr_action x = Act_cancelled
       \<and> order_operations (w_db w') = update_rows (\<lambda>q. q = r) (set_operation_columns ?m) (order_operations (w_db w))
       \<and> length (order_operation_events (w_db w')) = Suc (length (order_operation_events (w_db w))))
     (\<lambda>_ _. False) w"
    unfolding cancel_pending_operation_def change_from_pending_def unless_recorded_def change_attempt_def
      write_or_replay_def repo_update_operation_with_events_def Let_def service_action_str.simps
    by (simp add: wp_rules Let_def S actor(1) assms(4) wp_find_event(2)[OF quiet ok sc fresh(1)]
        wp_get_operation[OF quiet _ sc _ r(2,3)] ok r(1,4) build
        wp_db_call_quiet[OF quiet] guards commit service_result_def)
  then show ?thesis by (auto simp: wp_def split: prod.splits sum.splits)
qed

end
