(* ===== verification/Retry.thy ===== *)
theory Retry
  imports Provider_Status
begin

text \<open>
  Retry classification and delays of provider deliveries
  (\<^verbatim>\<open>src/agent/integrations/retry.py\<close>, \<^verbatim>\<open>RetryDecision\<close> of \<^verbatim>\<open>models.py\<close>).
\<close>

section \<open>Failures\<close>

definition mk_HTTPStatusError :: "int \<Rightarrow> py_float option \<Rightarrow> exn + exn" where
  "mk_HTTPStatusError status_code retry_after =
     (case retry_after of
        None \<Rightarrow> Inr (HTTPStatusError status_code None)
      | Some r \<Rightarrow>
          if \<not> isfinite r \<or> fval r < 0
          then Inl (ValueError ''retry_after_seconds must be a finite non-negative value'')
          else Inr (HTTPStatusError status_code (Some r)))"

definition MAX_ATTEMPTS :: int where "MAX_ATTEMPTS = 8"
definition BASE_BACKOFF_SECONDS :: py_float where "BASE_BACKOFF_SECONDS = Finite 1"
definition BACKOFF_MULTIPLIER :: py_float where "BACKOFF_MULTIPLIER = Finite 2"

definition classify_http_status :: "int \<Rightarrow> exn + provider_failure_kind" where
  "classify_http_status status_code =
     (if status_code \<in> {408, 429} \<or> (500 \<le> status_code \<and> status_code \<le> 599) then Inr Http_retryable
      else if 400 \<le> status_code \<and> status_code \<le> 499 then Inr Http_client_error
      else Inl (ValueError ''unexpected HTTP status code''))"

fun classify_failure :: "exn \<Rightarrow> exn + provider_failure_kind" where
  "classify_failure ProviderRejectionError = Inr Provider_rejection"
| "classify_failure ProviderTimeoutError = Inr Timeout"
| "classify_failure ProviderConnectionError = Inr Network_error"
| "classify_failure (HTTPStatusError status_code _) = classify_http_status status_code"
| "classify_failure e =
     (if is_value_error e then Inr Validation_failure
      else Inl (ValueError ''cannot classify failure type''))"

section \<open>Delays\<close>

record retry_config =
  rt_base_delay_seconds :: py_float
  rt_backoff_multiplier :: py_float
  rt_jitter_seconds :: py_float
  rt_max_delay_seconds :: "py_float option"

text \<open>The parameters' defaults.\<close>

definition default_retry_config :: retry_config where
  "default_retry_config = \<lparr>rt_base_delay_seconds = BASE_BACKOFF_SECONDS,
     rt_backoff_multiplier = BACKOFF_MULTIPLIER, rt_jitter_seconds = Finite 0,
     rt_max_delay_seconds = None\<rparr>"

definition validate_retry_parameters :: "int \<Rightarrow> retry_config \<Rightarrow> py_float option \<Rightarrow> exn + unit" where
  "validate_retry_parameters attempts_so_far c retry_after =
     (if attempts_so_far < 0 then Inl (ValueError ''attempts_so_far must not be negative'')
      else if \<not> isfinite (rt_base_delay_seconds c)
      then Inl (ValueError ''base_delay_seconds must be finite'')
      else if fval (rt_base_delay_seconds c) \<le> 0
      then Inl (ValueError ''base_delay_seconds must be positive'')
      else if \<not> isfinite (rt_backoff_multiplier c)
      then Inl (ValueError ''backoff_multiplier must be finite'')
      else if fval (rt_backoff_multiplier c) < 1
      then Inl (ValueError ''backoff_multiplier must be at least 1.0'')
      else if \<not> isfinite (rt_jitter_seconds c)
      then Inl (ValueError ''jitter_seconds must be finite'')
      else if fval (rt_jitter_seconds c) < 0
      then Inl (ValueError ''jitter_seconds must not be negative'')
      else case (case rt_max_delay_seconds c of
                   None \<Rightarrow> Inr ()
                 | Some m \<Rightarrow>
                     if \<not> isfinite m then Inl (ValueError ''max_delay_seconds must be finite'')
                     else if fval m \<le> 0
                     then Inl (ValueError ''max_delay_seconds must be positive when set'')
                     else Inr ()) of
             Inl e \<Rightarrow> Inl e
           | Inr _ \<Rightarrow>
              (case retry_after of
                 None \<Rightarrow> Inr ()
               | Some r \<Rightarrow>
                   if \<not> isfinite r then Inl (ValueError ''retry_after_seconds must be finite'')
                   else if fval r < 0
                   then Inl (ValueError ''retry_after_seconds must not be negative'')
                   else Inr ()))"

text \<open>The random source is what it would return, if one is injected.\<close>

definition retry_delay_seconds ::
  "int \<Rightarrow> retry_config \<Rightarrow> py_float option \<Rightarrow> rat option \<Rightarrow> exn + rat" where
  "retry_delay_seconds attempts_so_far c retry_after random_source =
     (case validate_retry_parameters attempts_so_far c retry_after of
        Inl e \<Rightarrow> Inl e
      | Inr _ \<Rightarrow>
         let delay = fval (rt_base_delay_seconds c)
                       * fval (rt_backoff_multiplier c) ^ nat (max (attempts_so_far - 1) 0) in
         case (case random_source of
                 Some sample \<Rightarrow>
                   if 0 < fval (rt_jitter_seconds c)
                   then (if 0 \<le> sample \<and> sample < 1
                         then Inr (delay + fval (rt_jitter_seconds c) * sample)
                         else Inl (ValueError ''random_source must return values in [0, 1)''))
                   else Inr delay
               | None \<Rightarrow> Inr delay) of
           Inl e \<Rightarrow> Inl e
         | Inr delay \<Rightarrow>
            let capped = (case rt_max_delay_seconds c of None \<Rightarrow> delay | Some m \<Rightarrow> min delay (fval m))
            in Inr (case retry_after of None \<Rightarrow> capped | Some r \<Rightarrow> max capped (fval r)))"

record retry_decision =
  rd_retryable :: bool
  rd_kind :: provider_failure_kind
  rd_attempts_so_far :: int
  rd_max_attempts :: int
  rd_delay_seconds :: "rat option"
  rd_retry_after_seconds :: "py_float option"
  rd_exhausted :: bool

text \<open>The fields' constraints of \<^verbatim>\<open>RetryDecision\<close>.\<close>

definition mk_retry_decision :: "retry_decision \<Rightarrow> exn + retry_decision" where
  "mk_retry_decision d =
     (if 0 \<le> rd_attempts_so_far d \<and> 1 \<le> rd_max_attempts d
         \<and> (case rd_delay_seconds d of None \<Rightarrow> True | Some x \<Rightarrow> 0 \<le> x)
         \<and> (case rd_retry_after_seconds d of None \<Rightarrow> True | Some r \<Rightarrow> isfinite r \<and> 0 \<le> fval r)
      then Inr d else Inl (ValidationError ''RetryDecision''))"

definition decide_retry ::
  "provider_failure_kind \<Rightarrow> int \<Rightarrow> int \<Rightarrow> retry_config \<Rightarrow> py_float option \<Rightarrow> rat option
     \<Rightarrow> exn + retry_decision" where
  "decide_retry kind attempts_so_far max_attempts c retry_after random_source =
     (if attempts_so_far < 0 then Inl (ValueError ''attempts_so_far must not be negative'')
      else if max_attempts < 1 then Inl (ValueError ''max_attempts must be at least 1'')
      else case validate_retry_parameters attempts_so_far c retry_after of
        Inl e \<Rightarrow> Inl e
      | Inr _ \<Rightarrow>
         let exhausted = (max_attempts \<le> attempts_so_far);
             retryable = (kind \<in> retryable_failure_kinds \<and> \<not> exhausted) in
         case (if retryable
               then map_sum id Some (retry_delay_seconds attempts_so_far c retry_after random_source)
               else Inr None) of
           Inl e \<Rightarrow> Inl e
         | Inr delay \<Rightarrow> mk_retry_decision
             \<lparr>rd_retryable = retryable, rd_kind = kind, rd_attempts_so_far = attempts_so_far,
              rd_max_attempts = max_attempts, rd_delay_seconds = delay,
              rd_retry_after_seconds = retry_after, rd_exhausted = exhausted\<rparr>)"

section \<open>Lemmas\<close>

definition retry_parameters_ok :: "int \<Rightarrow> retry_config \<Rightarrow> py_float option \<Rightarrow> bool" where
  "retry_parameters_ok n c retry_after \<longleftrightarrow>
     0 \<le> n \<and> isfinite (rt_base_delay_seconds c) \<and> 0 < fval (rt_base_delay_seconds c)
     \<and> isfinite (rt_backoff_multiplier c) \<and> 1 \<le> fval (rt_backoff_multiplier c)
     \<and> isfinite (rt_jitter_seconds c) \<and> 0 \<le> fval (rt_jitter_seconds c)
     \<and> (\<forall>m. rt_max_delay_seconds c = Some m \<longrightarrow> isfinite m \<and> 0 < fval m)
     \<and> (\<forall>r. retry_after = Some r \<longrightarrow> isfinite r \<and> 0 \<le> fval r)"

lemma validate_retry_parameters_Inr:
  "validate_retry_parameters n c ra = Inr u \<longleftrightarrow> retry_parameters_ok n c ra"
  by (auto simp: validate_retry_parameters_def retry_parameters_ok_def split: option.split)

text \<open>The backoff without jitter and cap: doubling, in general geometric.\<close>

definition backoff :: "retry_config \<Rightarrow> int \<Rightarrow> rat" where
  "backoff c n = fval (rt_base_delay_seconds c) * fval (rt_backoff_multiplier c) ^ nat (n - 1)"

lemma backoff_mono:
  assumes "retry_parameters_ok m c ra" and "m \<le> n"
  shows "backoff c m \<le> backoff c n"
  using assms unfolding backoff_def retry_parameters_ok_def
  by (intro mult_left_mono power_increasing) auto

lemma retry_delay_bounds:
  assumes ok: "retry_parameters_ok n c ra"
    and sample: "\<And>s. rnd = Some s \<Longrightarrow> 0 \<le> s \<and> s < 1"
  shows "\<exists>d. retry_delay_seconds n c ra rnd = Inr d \<and> 0 < d
     \<and> (\<forall>r. ra = Some r \<longrightarrow> fval r \<le> d)
     \<and> (rt_max_delay_seconds c = None \<longrightarrow> backoff c n \<le> d)
     \<and> (ra = None \<longrightarrow> d \<le> backoff c n + fval (rt_jitter_seconds c)
         \<and> (\<forall>m. rt_max_delay_seconds c = Some m \<longrightarrow> d \<le> fval m))"
proof -
  have v: "validate_retry_parameters n c ra = Inr ()" using ok by (simp add: validate_retry_parameters_Inr)
  define j where "j = fval (rt_jitter_seconds c)"
  define d0 where "d0 = backoff c n"
  have nat: "nat (max (n - 1) 0) = nat (n - 1)" by simp
  have pos: "0 < d0" using ok by (simp add: d0_def backoff_def retry_parameters_ok_def)
  have j: "0 \<le> j" using ok by (simp add: j_def retry_parameters_ok_def)
  obtain d1 where d1: "(case rnd of Some sample \<Rightarrow> if 0 < j then if 0 \<le> sample \<and> sample < 1
        then Inr (d0 + j * sample) else Inl (ValueError ''random_source must return values in [0, 1)'')
        else Inr d0 | None \<Rightarrow> Inr d0) = Inr d1" "d0 \<le> d1" "d1 \<le> d0 + j"
  proof (cases "\<exists>s. rnd = Some s \<and> 0 < j")
    case True
    then obtain s where s: "rnd = Some s" "0 < j" by blast
    with sample have "0 \<le> s" "s < 1" by auto
    then have "0 \<le> j * s" "j * s \<le> j" using s(2) by (simp_all add: mult_left_le)
    then show ?thesis using that[of "d0 + j * s"] s \<open>0 \<le> s\<close> \<open>s < 1\<close> by simp
  next
    case False
    then show ?thesis using that[of d0] j by (cases rnd) auto
  qed
  have "retry_delay_seconds n c ra rnd = Inr
      (let capped = (case rt_max_delay_seconds c of None \<Rightarrow> d1 | Some m \<Rightarrow> min d1 (fval m))
       in case ra of None \<Rightarrow> capped | Some r \<Rightarrow> max capped (fval r))"
    using d1(1) unfolding j_def d0_def backoff_def by (simp add: retry_delay_seconds_def v nat Let_def)
  moreover have "0 < fval m" if "rt_max_delay_seconds c = Some m" for m
    using ok that by (simp add: retry_parameters_ok_def)
  ultimately show ?thesis
    using pos d1(2,3) unfolding d0_def[symmetric] j_def[symmetric]
    by (cases "rt_max_delay_seconds c"; cases ra) (auto simp: Let_def less_max_iff_disj min_le_iff_disj)
qed

lemma decide_retry_spec:
  assumes ok: "retry_parameters_ok n c ra" and "1 \<le> mx"
    and sample: "\<And>s. rnd = Some s \<Longrightarrow> 0 \<le> s \<and> s < 1"
  shows "\<exists>d. decide_retry kind n mx c ra rnd = Inr d
     \<and> (rd_retryable d \<longleftrightarrow> kind \<in> retryable_failure_kinds \<and> n < mx)
     \<and> (rd_exhausted d \<longleftrightarrow> mx \<le> n)
     \<and> (rd_delay_seconds d \<noteq> None \<longleftrightarrow> rd_retryable d)
     \<and> (\<forall>x. rd_delay_seconds d = Some x \<longrightarrow> retry_delay_seconds n c ra rnd = Inr x \<and> 0 < x)"
proof -
  obtain x where x: "retry_delay_seconds n c ra rnd = Inr x" "0 < x"
    using retry_delay_bounds[OF ok sample] by blast
  have v: "validate_retry_parameters n c ra = Inr ()" using ok by (simp add: validate_retry_parameters_Inr)
  have "0 \<le> n" "\<And>r. ra = Some r \<Longrightarrow> isfinite r \<and> 0 \<le> fval r"
    using ok by (auto simp: retry_parameters_ok_def)
  then show ?thesis
    using x assms(2)
    by (auto simp: decide_retry_def v Let_def mk_retry_decision_def split: option.split)
qed

end
