(* ===== verification/Callback_Policy.thy ===== *)
theory Callback_Policy
  imports History
begin

text \<open>
  What a verified provider callback does to the operation it is about
  (\<^verbatim>\<open>src/agent/integrations/inbox_policy.py\<close>). Callbacks arrive late, twice and out of order; the
  lemmas say that the policy only ever moves an operation along its lifecycle and that the outcome
  does not depend on the order of delivery as long as the provider does not contradict itself.
\<close>

section \<open>Decisions\<close>

datatype inbox_action = Apply | Duplicate | Stale | Conflict

datatype outbox_readiness = Ready | Retry_later | Command_dead

record inbox_decision =
  ix_action :: inbox_action
  ix_target_status :: "operation_record_status option"

definition provider_reference_is_compatible :: "string option \<Rightarrow> string option \<Rightarrow> bool" where
  "provider_reference_is_compatible current incoming \<longleftrightarrow>
     current = None \<or> incoming = None \<or> current = incoming"

definition decide_inbox_outbox_readiness :: "outbox_delivery_status \<Rightarrow> outbox_readiness" where
  "decide_inbox_outbox_readiness outbox_status =
     (if outbox_status \<in> {Out_pending, Out_processing, Out_retry_scheduled} then Retry_later
      else if outbox_status = Out_published then Ready
      else Command_dead)"

primrec inbox_target :: "provider_command_execution_status \<Rightarrow> operation_record_status" where
  "inbox_target Exec_accepted = Submitted"
| "inbox_target Exec_processing = Processing"
| "inbox_target Exec_completed = Completed"
| "inbox_target Exec_rejected = Rejected"

definition decide_order_operation_callback ::
  "operation_record_status \<Rightarrow> provider_command_execution_status \<Rightarrow> string option \<Rightarrow> string option
     \<Rightarrow> inbox_decision" where
  "decide_order_operation_callback local_status provider_status current_reference incoming_reference =
     (let conflict = \<lparr>ix_action = Conflict, ix_target_status = None\<rparr>;
          decide = (\<lambda>a. \<lparr>ix_action = a, ix_target_status = Some (inbox_target provider_status)\<rparr>) in
      if \<not> provider_reference_is_compatible current_reference incoming_reference then conflict
      else if local_status \<in> {Pending_confirmation, Queued, Manual_review, Cancelled_by_customer}
      then conflict
      else if local_status = inbox_target provider_status then decide Duplicate
      else case local_status of
        Submitted \<Rightarrow> if provider_status = Exec_accepted then decide Stale else decide Apply
      | Processing \<Rightarrow>
          if provider_status = Exec_accepted then decide Stale
          else if provider_status = Exec_processing then decide Duplicate else decide Apply
      | Completed \<Rightarrow>
          if provider_status \<in> {Exec_accepted, Exec_processing} then decide Stale else conflict
      | _ \<Rightarrow> conflict)"

section \<open>Lemmas\<close>

text \<open>The table of targets is the mapping the finalizer uses.\<close>

lemma inbox_target_is_mapping: "inbox_target p = map_provider_command_status p"
  by (cases p) simp_all

text \<open>The policy is the lifecycle restricted to what a provider may report.\<close>

lemma callback_applies_iff:
  "ix_action (decide_order_operation_callback st p cur inc) = Apply \<longleftrightarrow>
     provider_reference_is_compatible cur inc \<and> st \<in> {Submitted, Processing}
     \<and> map_provider_command_status p \<in> allowed_status_transitions st"
  by (cases st; cases p) (auto simp: decide_order_operation_callback_def Let_def inbox_target_is_mapping)

lemma callback_apply_target:
  "ix_action (decide_order_operation_callback st p cur inc) = Apply \<Longrightarrow>
   ix_target_status (decide_order_operation_callback st p cur inc) = Some (map_provider_command_status p)"
  by (cases st; cases p) (auto simp: decide_order_operation_callback_def Let_def inbox_target_is_mapping split: if_splits)

lemma callback_terminal_never_applies:
  "terminal_status st \<Longrightarrow> ix_action (decide_order_operation_callback st p cur inc) \<noteq> Apply"
  by (auto simp: callback_applies_iff terminal_status_def)

lemma callback_duplicate_iff:
  "ix_action (decide_order_operation_callback st p cur inc) = Duplicate \<longleftrightarrow>
     provider_reference_is_compatible cur inc \<and> st = map_provider_command_status p"
  by (cases st; cases p) (auto simp: decide_order_operation_callback_def Let_def inbox_target_is_mapping)

section \<open>Order of delivery\<close>

text \<open>The status after a sequence of callbacks that agree on the provider's reference.\<close>

fun after_callbacks ::
  "operation_record_status \<Rightarrow> provider_command_execution_status list \<Rightarrow> operation_record_status" where
  "after_callbacks st [] = st"
| "after_callbacks st (p # ps) =
     (case ix_target_status (decide_order_operation_callback st p None None) of
        Some t \<Rightarrow>
          if ix_action (decide_order_operation_callback st p None None) = Apply
          then after_callbacks t ps else after_callbacks st ps
      | None \<Rightarrow> after_callbacks st ps)"

lemma after_callbacks_Cons:
  "after_callbacks st (p # ps) =
     after_callbacks (if st \<in> {Submitted, Processing}
                         \<and> map_provider_command_status p \<in> allowed_status_transitions st
                      then map_provider_command_status p else st) ps"
  by (cases "ix_action (decide_order_operation_callback st p None None) = Apply")
     (auto simp: callback_apply_target callback_applies_iff provider_reference_is_compatible_def
       split: option.split)

declare after_callbacks.simps(2) [simp del]

lemma after_callbacks_lifecycle: "lifecycle st (after_callbacks st ps)"
proof (induction ps arbitrary: st)
  case (Cons p ps)
  have "lifecycle_edge st (map_provider_command_status p)"
    if "map_provider_command_status p \<in> allowed_status_transitions st"
    using that by (simp add: lifecycle_edge_def)
  then show ?case unfolding after_callbacks_Cons using Cons.IH by (auto intro: converse_rtranclp_into_rtranclp)
qed simp

lemma after_callbacks_final: "terminal_status st \<Longrightarrow> after_callbacks st ps = st"
  using lifecycle_terminal[OF after_callbacks_lifecycle] .

text \<open>How far a provider without a rejection got.\<close>

definition progress_of :: "provider_command_execution_status set \<Rightarrow> operation_record_status" where
  "progress_of S =
     (if Exec_completed \<in> S then Completed else if Exec_processing \<in> S then Processing else Submitted)"

lemma after_callbacks_progress:
  "Exec_rejected \<notin> set ps \<Longrightarrow> after_callbacks Submitted ps = progress_of (set ps)"
  "Exec_rejected \<notin> set ps \<Longrightarrow>
     after_callbacks Processing ps = (if Exec_completed \<in> set ps then Completed else Processing)"
proof (induction ps)
  case (Cons p ps)
  have fin: "after_callbacks Completed ps = Completed"
    by (rule after_callbacks_final) (simp add: terminal_status_def)
  case 1
  then show ?case using Cons fin by (cases p) (auto simp: after_callbacks_Cons progress_of_def)
  case 2
  then show ?case using Cons fin by (cases p) (auto simp: after_callbacks_Cons)
qed (simp_all add: progress_of_def)

lemma callbacks_order_irrelevant:
  "set ps = set qs \<Longrightarrow> Exec_rejected \<notin> set ps \<Longrightarrow> after_callbacks Submitted ps = after_callbacks Submitted qs"
  by (simp add: after_callbacks_progress)

end
