(* ===== verification/Messaging_Models.thy ===== *)
theory Messaging_Models
  imports Database
begin

text \<open>
  The persistence models of provider messaging
  (\<^verbatim>\<open>src/agent/integrations/persistence_models.py\<close>, outbox side, and the results and events of
  \<^verbatim>\<open>models.py\<close>): how an outbox row, a delivery attempt and a claimed message are validated when
  they are read, and the command envelope rebuilt from a row.
\<close>

section \<open>Provider results\<close>

record provider_command_result =
  pr_command_id :: uuid
  pr_provider_operation_id :: "string option"
  pr_provider_reference :: "string option"
  pr_status :: provider_command_acceptance_status
  pr_received_at :: instant

text \<open>The class does not strip white space.\<close>

definition valid_command_result :: "provider_command_result \<Rightarrow> bool" where
  "valid_command_result r \<longleftrightarrow>
     non_empty_option (pr_provider_operation_id r) \<and> non_empty_option (pr_provider_reference r)"

section \<open>Outbox messages\<close>

definition trim_outbox_message :: "outbox_message \<Rightarrow> outbox_message" where
  "trim_outbox_message m =
     m\<lparr>ob_idempotency_key := trim (ob_idempotency_key m),
       ob_tenant_id := trim (ob_tenant_id m),
       ob_customer_id := trim (ob_customer_id m),
       ob_source_message_id := trim (ob_source_message_id m),
       ob_provider_connection_id := trim (ob_provider_connection_id m),
       ob_payload := trim_payload (ob_payload m),
       ob_lease_owner := map_option trim (ob_lease_owner m),
       ob_last_error_code := map_option trim (ob_last_error_code m),
       ob_last_error_message := map_option trim (ob_last_error_message m)\<rparr>"

definition validate_outbox_state :: "outbox_message \<Rightarrow> exn + unit" where
  "validate_outbox_state m =
     (if ob_updated_at m < ob_created_at m
      then Inl (ValueError ''updated_at must not be earlier than created_at'')
      else if ob_status m = Out_processing \<and> (ob_lease_id m = None \<or> ob_lease_owner m = None)
      then Inl (ValueError ''processing requires lease_id and lease_owner'')
      else if ob_status m = Out_processing \<and> ob_lease_expires_at m = None
      then Inl (ValueError ''processing requires lease_expires_at'')
      else if ob_status m \<noteq> Out_processing
              \<and> (ob_lease_id m \<noteq> None \<or> ob_lease_owner m \<noteq> None \<or> ob_lease_expires_at m \<noteq> None)
      then Inl (ValueError ''non-processing status must not carry a lease'')
      else if ob_status m = Out_published \<and> ob_published_at m = None
      then Inl (ValueError ''published requires published_at'')
      else if ob_status m \<noteq> Out_published \<and> ob_published_at m \<noteq> None
      then Inl (ValueError ''only published may carry published_at'')
      else if ob_status m = Out_dead \<and> ob_dead_at m = None
      then Inl (ValueError ''dead requires dead_at'')
      else if ob_status m \<noteq> Out_dead \<and> ob_dead_at m \<noteq> None
      then Inl (ValueError ''only dead may carry dead_at'')
      else if ob_aggregate_type m = Agg_order_operation
      then (if ob_expected_order_version m = None
            then Inl (ValueError ''order_operation requires expected_order_version'')
            else if ob_command_type m = Delivery_investigation_command
            then Inl (ValueError ''order_operation aggregate cannot carry a delivery command'')
            else Inr ())
      else if ob_expected_order_version m \<noteq> None
      then Inl (ValueError ''support_case must not carry expected_order_version'')
      else if ob_command_type m \<noteq> Delivery_investigation_command
      then Inl (ValueError ''support_case aggregate requires a delivery_investigation command'')
      else Inr ())"

text \<open>\<^verbatim>\<open>_parse_payload\<close> validates the stored payload with the class the command type selects, so a
  payload of the other kind is rejected.\<close>

definition payload_parses :: "outbox_message \<Rightarrow> bool" where
  "payload_parses m \<longleftrightarrow>
     (ob_command_type m = Delivery_investigation_command \<longleftrightarrow> is_delivery_payload (ob_payload m))
     \<and> valid_payload (ob_payload m)"

definition valid_outbox_message :: "outbox_message \<Rightarrow> bool" where
  "valid_outbox_message m \<longleftrightarrow>
     ob_idempotency_key m \<noteq> [] \<and> ob_tenant_id m \<noteq> [] \<and> ob_customer_id m \<noteq> []
     \<and> ob_source_message_id m \<noteq> [] \<and> ob_provider_connection_id m \<noteq> []
     \<and> (case ob_expected_order_version m of None \<Rightarrow> True | Some v \<Rightarrow> 1 \<le> v)
     \<and> payload_parses m
     \<and> 1 \<le> ob_delivery_cycle m \<and> 0 \<le> ob_attempts_in_cycle m
     \<and> non_empty_option (ob_lease_owner m)
     \<and> varchar500 (ob_last_error_code m) \<and> varchar500 (ob_last_error_message m)
     \<and> validate_outbox_state m = Inr ()"

definition outbox_from_row :: "outbox_message \<Rightarrow> exn + outbox_message" where
  "outbox_from_row m =
     (let m' = trim_outbox_message m in
      if valid_outbox_message m' then Inr m' else Inl (ValidationError ''OutboxMessage''))"

definition to_envelope :: "outbox_message \<Rightarrow> exn + provider_command_envelope" where
  "to_envelope m = mk_command
     \<lparr>pc_command_id = ob_command_id m, pc_idempotency_key = ob_idempotency_key m,
      pc_source_message_id = ob_source_message_id m, pc_aggregate_type = ob_aggregate_type m,
      pc_aggregate_id = ob_aggregate_id m, pc_expected_order_version = ob_expected_order_version m,
      pc_tenant_id = ob_tenant_id m, pc_customer_id = ob_customer_id m,
      pc_connection_id = ob_provider_connection_id m, pc_command_type = ob_command_type m,
      pc_payload = ob_payload m, pc_created_at = ob_created_at m\<rparr>"

section \<open>Delivery attempts and claims\<close>

datatype delivery_attempt_outcome =
    Att_accepted
  | Att_provider_rejected
  | Att_retry_scheduled
  | Att_terminal_failure
  | Att_lease_expired

record delivery_attempt =
  at_attempt_id :: uuid
  at_command_id :: uuid
  at_delivery_cycle :: int
  at_attempt_number :: int
  at_lease_id :: uuid
  at_worker_id :: string
  at_started_at :: instant
  at_finished_at :: "instant option"
  at_outcome :: "delivery_attempt_outcome option"
  at_failure_kind :: "provider_failure_kind option"
  at_http_status :: "int option"
  at_provider_operation_id :: "string option"
  at_provider_reference :: "string option"
  at_safe_error_code :: "string option"
  at_safe_error_message :: "string option"
  at_retry_after_seconds :: "py_float option"
  at_next_available_at :: "instant option"

definition validate_attempt_state :: "delivery_attempt \<Rightarrow> exn + unit" where
  "validate_attempt_state a =
     (if (case at_finished_at a of None \<Rightarrow> False | Some f \<Rightarrow> f < at_started_at a)
      then Inl (ValueError ''finished_at must not be earlier than started_at'')
      else if (at_outcome a = None) \<noteq> (at_finished_at a = None)
      then Inl (ValueError ''outcome and finished_at must be present together'')
      else if at_outcome a \<in> {Some Att_provider_rejected, Some Att_retry_scheduled, Some Att_terminal_failure}
      then (if at_failure_kind a = None then Inl (ValueError ''requires failure_kind'') else Inr ())
      else if at_failure_kind a \<noteq> None
      then Inl (ValueError ''accepted and lease_expired must not carry failure_kind'')
      else Inr ())"

definition trim_delivery_attempt :: "delivery_attempt \<Rightarrow> delivery_attempt" where
  "trim_delivery_attempt a =
     a\<lparr>at_worker_id := trim (at_worker_id a),
       at_provider_operation_id := map_option trim (at_provider_operation_id a),
       at_provider_reference := map_option trim (at_provider_reference a),
       at_safe_error_code := map_option trim (at_safe_error_code a),
       at_safe_error_message := map_option trim (at_safe_error_message a)\<rparr>"

definition valid_delivery_attempt :: "delivery_attempt \<Rightarrow> bool" where
  "valid_delivery_attempt a \<longleftrightarrow>
     1 \<le> at_delivery_cycle a \<and> 1 \<le> at_attempt_number a \<and> at_worker_id a \<noteq> []
     \<and> (case at_http_status a of None \<Rightarrow> True | Some h \<Rightarrow> 100 \<le> h)
     \<and> non_empty_option (at_provider_operation_id a) \<and> non_empty_option (at_provider_reference a)
     \<and> varchar500 (at_safe_error_code a) \<and> varchar500 (at_safe_error_message a)
     \<and> (case at_retry_after_seconds a of None \<Rightarrow> True | Some r \<Rightarrow> isfinite r \<and> 0 \<le> fval r)
     \<and> validate_attempt_state a = Inr ()"

definition attempt_from_row :: "delivery_attempt \<Rightarrow> exn + delivery_attempt" where
  "attempt_from_row a =
     (let a' = trim_delivery_attempt a in
      if valid_delivery_attempt a' then Inr a' else Inl (ValidationError ''OutboxDeliveryAttempt''))"

text \<open>\<^verbatim>\<open>ClaimedOutboxMessage\<close> is the message with its attempt.\<close>

record claimed_outbox_message =
  cl_message :: outbox_message
  cl_attempt :: delivery_attempt

definition validate_claim :: "claimed_outbox_message \<Rightarrow> exn + unit" where
  "validate_claim c =
     (if ob_status (cl_message c) \<noteq> Out_processing
      then Inl (ValueError ''a claimed message must be processing'')
      else if at_command_id (cl_attempt c) \<noteq> ob_command_id (cl_message c)
      then Inl (ValueError ''attempt command_id must match the message'')
      else if Some (at_lease_id (cl_attempt c)) \<noteq> ob_lease_id (cl_message c)
      then Inl (ValueError ''attempt lease_id must match the message lease'')
      else if Some (at_worker_id (cl_attempt c)) \<noteq> ob_lease_owner (cl_message c)
      then Inl (ValueError ''attempt worker_id must match the lease owner'')
      else Inr ())"

definition mk_claimed :: "outbox_message \<Rightarrow> delivery_attempt \<Rightarrow> exn + claimed_outbox_message" where
  "mk_claimed m attempt =
     (let c = \<lparr>cl_message = trim_outbox_message m, cl_attempt = attempt\<rparr> in
      if valid_outbox_message (cl_message c) \<and> validate_claim c = Inr () then Inr c
      else Inl (ValidationError ''ClaimedOutboxMessage''))"

section \<open>Lemmas\<close>

lemma trim_outbox_message_sel [simp]:
  "ob_command_id (trim_outbox_message m) = ob_command_id m"
  "ob_status (trim_outbox_message m) = ob_status m"
  "ob_delivery_cycle (trim_outbox_message m) = ob_delivery_cycle m"
  "ob_attempts_in_cycle (trim_outbox_message m) = ob_attempts_in_cycle m"
  "ob_lease_id (trim_outbox_message m) = ob_lease_id m"
  "ob_lease_owner (trim_outbox_message m) = map_option trim (ob_lease_owner m)"
  "ob_lease_expires_at (trim_outbox_message m) = ob_lease_expires_at m"
  "ob_aggregate_type (trim_outbox_message m) = ob_aggregate_type m"
  "ob_aggregate_id (trim_outbox_message m) = ob_aggregate_id m"
  "ob_command_type (trim_outbox_message m) = ob_command_type m"
  "ob_tenant_id (trim_outbox_message m) = trim (ob_tenant_id m)"
  "ob_created_at (trim_outbox_message m) = ob_created_at m"
  "ob_updated_at (trim_outbox_message m) = ob_updated_at m"
  by (simp_all add: trim_outbox_message_def)

lemma trim_delivery_attempt_sel [simp]:
  "at_attempt_id (trim_delivery_attempt a) = at_attempt_id a"
  "at_command_id (trim_delivery_attempt a) = at_command_id a"
  "at_delivery_cycle (trim_delivery_attempt a) = at_delivery_cycle a"
  "at_attempt_number (trim_delivery_attempt a) = at_attempt_number a"
  "at_lease_id (trim_delivery_attempt a) = at_lease_id a"
  "at_worker_id (trim_delivery_attempt a) = trim (at_worker_id a)"
  "at_started_at (trim_delivery_attempt a) = at_started_at a"
  "at_finished_at (trim_delivery_attempt a) = at_finished_at a"
  by (simp_all add: trim_delivery_attempt_def)

lemma mk_claimed_Inr:
  "mk_claimed m a = Inr c \<longleftrightarrow>
     c = \<lparr>cl_message = trim_outbox_message m, cl_attempt = a\<rparr>
     \<and> valid_outbox_message (trim_outbox_message m) \<and> validate_claim c = Inr ()"
  by (auto simp: mk_claimed_def Let_def)

text \<open>A row written from a valid command is read back as a message, and the envelope rebuilt from it
  is the command that was enqueued.\<close>

lemma outbox_of_command_readable:
  assumes "valid_command c" and "trim_command c = c" and "st \<in> {Out_pending, Out_retry_scheduled}"
  shows "outbox_from_row (outbox_of_command c st a n) = Inr (outbox_of_command c st a n)"
proof -
  let ?m = "outbox_of_command c st a n"
  have t: "trim (pc_idempotency_key c) = pc_idempotency_key c" "trim (pc_source_message_id c) = pc_source_message_id c"
    "trim (pc_tenant_id c) = pc_tenant_id c" "trim (pc_customer_id c) = pc_customer_id c"
    "trim (pc_connection_id c) = pc_connection_id c" "trim_payload (pc_payload c) = pc_payload c"
    by (subst (2) assms(2)[symmetric], simp add: trim_command_def)+
  have trim: "trim_outbox_message ?m = ?m"
    by (simp add: trim_outbox_message_def outbox_of_command_def t)
  have ty: "pc_command_type c = Delivery_investigation_command \<longleftrightarrow> operation_type_by_command (pc_command_type c) = None"
    by (cases "pc_command_type c") simp_all
  have v: "validate_payload_type c = Inr ()" using assms(1) by (simp add: valid_command_def)
  then have p: "pc_command_type c = Delivery_investigation_command \<longleftrightarrow> is_delivery_payload (pc_payload c)"
    "pc_command_type c = Delivery_investigation_command \<longleftrightarrow> pc_aggregate_type c = Agg_support_case"
    "pc_command_type c = Delivery_investigation_command \<longleftrightarrow> pc_expected_order_version c = None"
    unfolding ty by (auto simp: validate_payload_type_def split: option.splits if_splits)
  have agg: "pc_aggregate_type c = Agg_order_operation \<longleftrightarrow> pc_aggregate_type c \<noteq> Agg_support_case"
    by (cases "pc_aggregate_type c") simp_all
  have "valid_outbox_message ?m"
    using assms(1,3) p agg
    by (auto simp: valid_outbox_message_def outbox_of_command_def valid_command_def payload_parses_def
        varchar500_def validate_outbox_state_def)
  then show ?thesis by (simp add: outbox_from_row_def trim)
qed

lemma to_envelope_of_command:
  assumes "valid_command c" and "trim_command c = c" and "pc_created_at c = n"
  shows "to_envelope (outbox_of_command c st a n) = Inr c"
proof -
  have "\<lparr>pc_command_id = ob_command_id (outbox_of_command c st a n),
      pc_idempotency_key = ob_idempotency_key (outbox_of_command c st a n),
      pc_source_message_id = ob_source_message_id (outbox_of_command c st a n),
      pc_aggregate_type = ob_aggregate_type (outbox_of_command c st a n),
      pc_aggregate_id = ob_aggregate_id (outbox_of_command c st a n),
      pc_expected_order_version = ob_expected_order_version (outbox_of_command c st a n),
      pc_tenant_id = ob_tenant_id (outbox_of_command c st a n),
      pc_customer_id = ob_customer_id (outbox_of_command c st a n),
      pc_connection_id = ob_provider_connection_id (outbox_of_command c st a n),
      pc_command_type = ob_command_type (outbox_of_command c st a n),
      pc_payload = ob_payload (outbox_of_command c st a n),
      pc_created_at = ob_created_at (outbox_of_command c st a n)\<rparr> = c"
    using assms(3) by (simp add: outbox_of_command_def)
  then show ?thesis using assms(1,2) by (simp only: to_envelope_def) (simp add: mk_command_Inr)
qed

end
