(* ===== verification/Messaging_Tables.thy ===== *)
theory Messaging_Tables
  imports Messaging_Models Operation_Store
begin

text \<open>
  The tables of the \<^verbatim>\<open>integration\<close> schema beside the aggregates
  (\<^verbatim>\<open>sql/migrations/0007_provider_messaging.sql\<close>), the statements on them, and the contract that
  every messaging transaction keeps: a message is being processed exactly while it has an open attempt,
  which carries the message's lease, cycle and attempt number.
\<close>

section \<open>Tables and statements\<close>

record idb =
  core :: db
  outbox_delivery_attempts :: "delivery_attempt list"

definition empty_idb :: idb where
  "empty_idb = \<lparr>core = empty_db, outbox_delivery_attempts = []\<rparr>"

abbreviation outbox :: "idb \<Rightarrow> outbox_message list" where
  "outbox s \<equiv> outbox_messages (core s)"

definition attempt_row_ok :: "delivery_attempt \<Rightarrow> bool" where
  "attempt_row_ok a \<longleftrightarrow>
     1 \<le> at_delivery_cycle a \<and> int4 (at_delivery_cycle a)
     \<and> 1 \<le> at_attempt_number a \<and> int4 (at_attempt_number a) \<and> not_blank (at_worker_id a)
     \<and> (case at_http_status a of None \<Rightarrow> True | Some h \<Rightarrow> 100 \<le> h \<and> int4 h)
     \<and> not_blank_option (at_provider_operation_id a) \<and> not_blank_option (at_provider_reference a)
     \<and> not_blank_option (at_safe_error_code a) \<and> varchar500 (at_safe_error_code a)
     \<and> not_blank_option (at_safe_error_message a) \<and> varchar500 (at_safe_error_message a)
     \<and> (case at_retry_after_seconds a of None \<Rightarrow> True | Some r \<Rightarrow> isfinite r \<and> 0 \<le> fval r)
     \<and> (at_outcome a = None \<longleftrightarrow> at_finished_at a = None)"

abbreviation attempt_key :: "delivery_attempt \<Rightarrow> uuid \<times> int \<times> int" where
  "attempt_key a \<equiv> (at_command_id a, at_delivery_cycle a, at_attempt_number a)"

definition insert_delivery_attempt :: "delivery_attempt \<Rightarrow> idb \<Rightarrow> sql_error + unit \<times> idb" where
  "insert_delivery_attempt a s =
     (let rows = outbox_delivery_attempts s in
      if \<not> attempt_row_ok a then Inl Check_violation
      else if taken at_attempt_id rows a
      then Inl (Unique_violation ''outbox_delivery_attempts_pkey'')
      else if taken attempt_key rows a
      then Inl (Unique_violation ''uq_outbox_delivery_attempts_cycle_number'')
      else if \<not> list_ex (\<lambda>m. ob_command_id m = at_command_id a) (outbox s)
      then Inl Foreign_key_violation
      else Inr ((), s\<lparr>outbox_delivery_attempts := rows @ [a]\<rparr>))"

definition update_delivery_attempts ::
  "(delivery_attempt \<Rightarrow> bool) \<Rightarrow> (delivery_attempt \<Rightarrow> delivery_attempt) \<Rightarrow> idb \<Rightarrow> sql_error + nat \<times> idb" where
  "update_delivery_attempts sel upd s =
     (let rows = outbox_delivery_attempts s; hit = map upd (filter sel rows) in
      if list_ex (\<lambda>a. \<not> attempt_row_ok a) hit then Inl Check_violation
      else Inr (length hit, s\<lparr>outbox_delivery_attempts := update_rows sel upd rows\<rparr>))"

definition update_outbox_messages ::
  "(outbox_message \<Rightarrow> bool) \<Rightarrow> (outbox_message \<Rightarrow> outbox_message) \<Rightarrow> idb \<Rightarrow> sql_error + nat \<times> idb" where
  "update_outbox_messages sel upd s =
     (let rows = outbox s; hit = map upd (filter sel rows) in
      if list_ex (\<lambda>m. \<not> outbox_row_ok m) hit then Inl Check_violation
      else Inr (length hit, s\<lparr>core := (core s)\<lparr>outbox_messages := update_rows sel upd rows\<rparr>\<rparr>))"

text \<open>A statement on the aggregate tables.\<close>

definition on_core :: "(db \<Rightarrow> sql_error + 'a \<times> db) \<Rightarrow> idb \<Rightarrow> sql_error + 'a \<times> idb" where
  "on_core f s =
     (case f (core s) of Inl e \<Rightarrow> Inl e | Inr (x, d) \<Rightarrow> Inr (x, s\<lparr>core := d\<rparr>))"

section \<open>The contract\<close>

definition attempt_open :: "delivery_attempt \<Rightarrow> bool" where
  "attempt_open a \<longleftrightarrow> at_finished_at a = None"

definition lease_matches :: "outbox_message \<Rightarrow> delivery_attempt \<Rightarrow> bool" where
  "lease_matches m a \<longleftrightarrow>
     ob_command_id m = at_command_id a \<and> ob_lease_id m = Some (at_lease_id a)
     \<and> ob_lease_owner m = Some (at_worker_id a) \<and> ob_delivery_cycle m = at_delivery_cycle a
     \<and> ob_attempts_in_cycle m = at_attempt_number a"

definition attempt_counted :: "outbox_message \<Rightarrow> delivery_attempt \<Rightarrow> bool" where
  "attempt_counted m a \<longleftrightarrow>
     ob_command_id m = at_command_id a
     \<and> (at_delivery_cycle a < ob_delivery_cycle m
        \<or> at_delivery_cycle a = ob_delivery_cycle m \<and> at_attempt_number a \<le> ob_attempts_in_cycle m)"

definition attempts_ok :: "idb \<Rightarrow> bool" where
  "attempts_ok s \<longleftrightarrow>
     list_all attempt_row_ok (outbox_delivery_attempts s)
     \<and> list_all (\<lambda>a. at_attempt_number a \<le> 8) (outbox_delivery_attempts s)
     \<and> unique_on (\<lambda>_. True) at_attempt_id (outbox_delivery_attempts s)
     \<and> unique_on (\<lambda>_. True) attempt_key (outbox_delivery_attempts s)"

definition leases_ok :: "idb \<Rightarrow> bool" where
  "leases_ok s \<longleftrightarrow>
     list_all (\<lambda>m. ob_status m = Out_processing \<longrightarrow>
       list_ex (\<lambda>a. attempt_open a \<and> lease_matches m a) (outbox_delivery_attempts s)) (outbox s)
     \<and> list_all (\<lambda>a. attempt_open a \<longrightarrow>
         list_ex (\<lambda>m. ob_status m = Out_processing \<and> lease_matches m a) (outbox s))
         (outbox_delivery_attempts s)
     \<and> list_all (\<lambda>a. list_ex (\<lambda>m. attempt_counted m a) (outbox s)) (outbox_delivery_attempts s)"

definition message_readable :: "outbox_message \<Rightarrow> bool" where
  "message_readable m \<longleftrightarrow> valid_outbox_message (trim_outbox_message m)"

definition messaging_ok :: "idb \<Rightarrow> bool" where
  "messaging_ok s \<longleftrightarrow>
     committed (core s) \<and> attempts_ok s \<and> leases_ok s \<and> list_all message_readable (outbox s)"

text \<open>
  The abstract delivery machine of one message: its cycle, its status and the attempts spent in the
  cycle. A message is taken for its next attempt while fewer than eight are spent, and every attempt
  ends published, rescheduled or dead; only a redrive opens a new cycle.
\<close>

type_synonym delivery_state = "int \<times> outbox_delivery_status \<times> int"

inductive delivery_step :: "delivery_state \<Rightarrow> delivery_state \<Rightarrow> bool" where
  take: "st \<in> {Out_pending, Out_retry_scheduled} \<Longrightarrow> n < 8 \<Longrightarrow> delivery_step (c, st, n) (c, Out_processing, n + 1)"
| publish: "delivery_step (c, Out_processing, n) (c, Out_published, n)"
| reschedule: "n < 8 \<Longrightarrow> delivery_step (c, Out_processing, n) (c, Out_retry_scheduled, n)"
| bury: "delivery_step (c, Out_processing, n) (c, Out_dead, n)"
| redrive: "delivery_step (c, Out_dead, n) (c + 1, Out_pending, 0)"

inductive_cases delivery_stepE: "delivery_step a b"

definition delivery_of :: "outbox_message \<Rightarrow> delivery_state" where
  "delivery_of m = (ob_delivery_cycle m, ob_status m, ob_attempts_in_cycle m)"

text \<open>How messages and attempts move. A message follows the machine, and a published one never changes
  again; nor does a finished attempt.\<close>

definition delivery_edge :: "outbox_delivery_status \<Rightarrow> outbox_delivery_status \<Rightarrow> bool" where
  "delivery_edge a b \<longleftrightarrow> b \<in> outbox_delivery_transitions a"

definition message_advances :: "outbox_message \<Rightarrow> outbox_message \<Rightarrow> bool" where
  "message_advances m m' \<longleftrightarrow>
     m' = m \<or>
     (same_command m m' \<and> ob_status m \<noteq> Out_published
      \<and> delivery_step\<^sup>*\<^sup>* (delivery_of m) (delivery_of m'))"

definition attempt_advances :: "delivery_attempt \<Rightarrow> delivery_attempt \<Rightarrow> bool" where
  "attempt_advances a a' \<longleftrightarrow>
     a' = a \<or>
     (attempt_open a \<and> \<not> attempt_open a' \<and> at_attempt_id a' = at_attempt_id a
      \<and> at_command_id a' = at_command_id a \<and> at_delivery_cycle a' = at_delivery_cycle a
      \<and> at_attempt_number a' = at_attempt_number a \<and> at_lease_id a' = at_lease_id a
      \<and> at_worker_id a' = at_worker_id a \<and> at_started_at a' = at_started_at a)"

definition messaging_evolves :: "idb \<Rightarrow> idb \<Rightarrow> bool" where
  "messaging_evolves s t \<longleftrightarrow>
     evolves (core s) (core t)
     \<and> rows_evolve message_advances (outbox s) (outbox t)
     \<and> rows_evolve attempt_advances (outbox_delivery_attempts s) (outbox_delivery_attempts t)"

lemma message_advances_refl [simp]: "message_advances m m"
  by (simp add: message_advances_def)

lemma message_advances_trans: "message_advances a b \<Longrightarrow> message_advances b c \<Longrightarrow> message_advances a c"
  unfolding message_advances_def
  by (elim disjE conjE; auto intro: same_command_trans rtranclp_trans)

lemma attempt_advances_refl [simp]: "attempt_advances a a"
  by (simp add: attempt_advances_def)

lemma attempt_advances_trans: "attempt_advances a b \<Longrightarrow> attempt_advances b c \<Longrightarrow> attempt_advances a c"
  unfolding attempt_advances_def by auto

lemma messaging_evolves_refl: "messaging_evolves s s"
  by (simp add: messaging_evolves_def evolves_refl rows_evolve_refl)

lemma messaging_evolves_trans:
  "messaging_evolves s t \<Longrightarrow> messaging_evolves t u \<Longrightarrow> messaging_evolves s u"
  unfolding messaging_evolves_def
  by (auto intro: evolves_trans rows_evolve_trans[OF message_advances_trans]
      rows_evolve_trans[OF attempt_advances_trans])

lemma messaging_ok_empty: "messaging_ok empty_idb"
  by (simp add: messaging_ok_def empty_idb_def committed_empty attempts_ok_def leases_ok_def)
     (simp add: empty_db_def)

lemma messaging_okD:
  assumes "messaging_ok s"
  shows "committed (core s)" "attempts_ok s" "leases_ok s" "list_all message_readable (outbox s)"
    "distinct (map ob_command_id (outbox s))" "list_all outbox_row_ok (outbox s)"
    "distinct (map at_attempt_id (outbox_delivery_attempts s))"
    "distinct (map attempt_key (outbox_delivery_attempts s))"
  using assms by (simp_all add: messaging_ok_def committed_def db_ok_def outbox_ok_def unique_all attempts_ok_def)

section \<open>The delivery machine\<close>

text \<open>Every step but the redrive is in the status table.\<close>

lemma delivery_step_edge:
  "delivery_step (c, st, n) (c', st', n') \<Longrightarrow> delivery_edge st st' \<and> c' = c \<and> n \<le> n' \<or> st = Out_dead \<and> c' = c + 1"
  by (auto elim!: delivery_stepE simp: delivery_edge_def)

text \<open>Within a cycle the machine terminates: every step costs some of the budget.\<close>

fun delivery_budget :: "delivery_state \<Rightarrow> nat" where
  "delivery_budget (c, st, n) =
     (if st \<in> {Out_pending, Out_retry_scheduled} then 2 * nat (8 - n)
      else if st = Out_processing then 2 * nat (8 - n) + 1 else 0)"

lemma delivery_step_budget:
  assumes "delivery_step a b" and "fst b = fst a" and "snd (snd a) \<le> 8"
  shows "delivery_budget b < delivery_budget a" "snd (snd b) \<le> 8"
  using assms by (auto elim!: delivery_stepE)

section \<open>Consequences of the contract\<close>

lemma distinct_map_eqD: "distinct (map f xs) \<Longrightarrow> a \<in> set xs \<Longrightarrow> b \<in> set xs \<Longrightarrow> f a = f b \<Longrightarrow> a = b"
  by (simp add: distinct_map inj_on_def)

lemma message_unique:
  "messaging_ok s \<Longrightarrow> m \<in> set (outbox s) \<Longrightarrow> m' \<in> set (outbox s) \<Longrightarrow> ob_command_id m = ob_command_id m'
   \<Longrightarrow> m = m'"
  by (rule distinct_map_eqD[OF messaging_okD(5)])

lemma attempt_unique:
  "messaging_ok s \<Longrightarrow> a \<in> set (outbox_delivery_attempts s) \<Longrightarrow> a' \<in> set (outbox_delivery_attempts s)
   \<Longrightarrow> at_attempt_id a = at_attempt_id a' \<Longrightarrow> a = a'"
  by (rule distinct_map_eqD[OF messaging_okD(7)])

lemma open_attempt_message:
  assumes "messaging_ok s" and "a \<in> set (outbox_delivery_attempts s)" and "attempt_open a"
  obtains m where "m \<in> set (outbox s)" "ob_status m = Out_processing" "lease_matches m a"
  using messaging_okD(3)[OF assms(1)] assms(2,3) by (auto simp: leases_ok_def list_all_iff list_ex_iff)

lemma processing_message_attempt:
  assumes "messaging_ok s" and "m \<in> set (outbox s)" and "ob_status m = Out_processing"
  obtains a where "a \<in> set (outbox_delivery_attempts s)" "attempt_open a" "lease_matches m a"
  using messaging_okD(3)[OF assms(1)] assms(2,3) by (auto simp: leases_ok_def list_all_iff list_ex_iff)

text \<open>A command has at most one open attempt: no two workers hold it.\<close>

lemma one_open_attempt:
  assumes "messaging_ok s"
    and "a \<in> set (outbox_delivery_attempts s)" "attempt_open a"
    and "b \<in> set (outbox_delivery_attempts s)" "attempt_open b"
    and "at_command_id a = at_command_id b"
  shows "a = b"
proof -
  obtain m where m: "m \<in> set (outbox s)" "lease_matches m a" by (rule open_attempt_message[OF assms(1-3)])
  obtain n where n: "n \<in> set (outbox s)" "lease_matches n b" by (rule open_attempt_message[OF assms(1,4,5)])
  have "m = n"
    using m n assms(6) by (intro message_unique[OF assms(1)]) (simp_all add: lease_matches_def)
  then have "attempt_key a = attempt_key b" using m(2) n(2) by (simp add: lease_matches_def)
  then show ?thesis
    by (rule distinct_map_eqD[OF messaging_okD(8)[OF assms(1)] assms(2,4)])
qed

lemma attempts_numbered:
  assumes "messaging_ok s" and "a \<in> set (outbox_delivery_attempts s)"
  shows "1 \<le> at_attempt_number a \<and> at_attempt_number a \<le> 8"
  using messaging_okD(2)[OF assms(1)] assms(2) by (simp add: attempts_ok_def list_all_iff attempt_row_ok_def)

end
