(* ===== verification/Lease_Protocol.thy ===== *)
theory Lease_Protocol
  imports Messaging_Tables
begin

text \<open>
  The steps of the lease protocol on the tables, independent of the code that performs them: acquiring
  a due message, extending a lease, releasing a message together with its attempt, and any change of
  the aggregates alone. Each keeps the contract.
\<close>

definition replace_row :: "'r \<Rightarrow> 'r \<Rightarrow> 'r list \<Rightarrow> 'r list" where
  "replace_row r r' rows = map (\<lambda>q. if q = r then r' else q) rows"

lemma set_replace_row: "set (replace_row r r' rows) = (\<lambda>q. if q = r then r' else q) ` set rows"
  by (simp add: replace_row_def)

lemma map_replace_row: "f r' = f r \<Longrightarrow> map f (replace_row r r' rows) = map f rows"
  by (simp add: replace_row_def)

lemma list_all_replace_row: "list_all P rows \<Longrightarrow> P r' \<Longrightarrow> list_all P (replace_row r r' rows)"
  by (auto simp: list_all_iff set_replace_row)

lemma rows_evolve_replace: "(\<And>x. adv x x) \<Longrightarrow> adv r r' \<Longrightarrow> rows_evolve adv rows (replace_row r r' rows)"
  by (auto simp: rows_evolve_def set_replace_row)

lemma bex_replace_row: "\<exists>q\<in>set rows. P q \<Longrightarrow> (P r \<Longrightarrow> P r') \<Longrightarrow> \<exists>q\<in>set (replace_row r r' rows). P q"
  by (auto simp: set_replace_row)

text \<open>An update that hits one row replaces it.\<close>

lemma update_one_row:
  assumes "length (filter sel rows) = 1"
  obtains r where "r \<in> set rows" "sel r" "update_rows sel upd rows = replace_row r (upd r) rows"
proof -
  obtain r where f: "filter sel rows = [r]" using assms by (auto simp: length_Suc_conv)
  then have r: "r \<in> set (filter sel rows)" by simp
  have eq: "sel q \<longleftrightarrow> q = r" if "q \<in> set rows" for q
  proof
    assume "sel q"
    then have "q \<in> set (filter sel rows)" using that by simp
    then show "q = r" by (simp add: f)
  qed (use r in simp)
  have "update_rows sel upd rows = replace_row r (upd r) rows"
    unfolding update_rows_def replace_row_def by (rule map_cong) (auto simp: eq)
  then show ?thesis using that[of r] r by simp
qed

lemma update_outbox_messages_one:
  assumes "update_outbox_messages sel upd s = Inr (1, t)"
  obtains m where "m \<in> set (outbox s)" "sel m" "outbox_row_ok (upd m)"
    "t = s\<lparr>core := (core s)\<lparr>outbox_messages := replace_row m (upd m) (outbox s)\<rparr>\<rparr>"
proof -
  have len: "length (filter sel (outbox s)) = 1"
    and rows: "\<And>m. m \<in> set (outbox s) \<Longrightarrow> sel m \<Longrightarrow> outbox_row_ok (upd m)"
    and t: "t = s\<lparr>core := (core s)\<lparr>outbox_messages := update_rows sel upd (outbox s)\<rparr>\<rparr>"
    using assms by (auto simp: update_outbox_messages_def Let_def list_ex_iff split: if_splits)
  from len obtain m where "m \<in> set (outbox s)" "sel m"
    "update_rows sel upd (outbox s) = replace_row m (upd m) (outbox s)" by (rule update_one_row)
  then show ?thesis using that[of m] rows t by simp
qed

lemma update_delivery_attempts_one:
  assumes "update_delivery_attempts sel upd s = Inr (1, t)"
  obtains a where "a \<in> set (outbox_delivery_attempts s)" "sel a" "attempt_row_ok (upd a)"
    "t = s\<lparr>outbox_delivery_attempts := replace_row a (upd a) (outbox_delivery_attempts s)\<rparr>"
proof -
  have len: "length (filter sel (outbox_delivery_attempts s)) = 1"
    and rows: "\<And>a. a \<in> set (outbox_delivery_attempts s) \<Longrightarrow> sel a \<Longrightarrow> attempt_row_ok (upd a)"
    and t: "t = s\<lparr>outbox_delivery_attempts := update_rows sel upd (outbox_delivery_attempts s)\<rparr>"
    using assms by (auto simp: update_delivery_attempts_def Let_def list_ex_iff split: if_splits)
  from len obtain a where "a \<in> set (outbox_delivery_attempts s)" "sel a"
    "update_rows sel upd (outbox_delivery_attempts s) = replace_row a (upd a) (outbox_delivery_attempts s)"
    by (rule update_one_row)
  then show ?thesis using that[of a] rows t by simp
qed

section \<open>Rewriting one message\<close>

lemma committed_replace_message:
  assumes "committed d" and "same_command m m'" and "outbox_row_ok m'"
  shows "committed (d\<lparr>outbox_messages := replace_row m m' (outbox_messages d)\<rparr>)"
    and "evolves d (d\<lparr>outbox_messages := replace_row m m' (outbox_messages d)\<rparr>)"
proof -
  let ?t = "d\<lparr>outbox_messages := replace_row m m' (outbox_messages d)\<rparr>"
  have ob: "outbox_ok d" and keyed: "list_all command_keyed (outbox_messages d)"
    using assms(1) by (simp_all add: committed_def db_ok_def commands_keyed_def)
  have "outbox_ok ?t"
    using ob assms(2,3)
    by (simp add: outbox_ok_def unique_all list_all_replace_row map_replace_row same_command_def)
  moreover have "commands_keyed ?t"
  proof -
    have "command_keyed m'" if "m \<in> set (outbox_messages d)"
      using keyed that assms(2)
      by (auto simp: list_all_iff command_keyed_def same_command_def split: provider_aggregate_type.splits)
    then show ?thesis using keyed by (auto simp: commands_keyed_def list_all_iff set_replace_row)
  qed
  moreover have "readable ?t = readable d" by (simp add: readable_def)
  ultimately show "committed ?t"
    using assms(1) by (simp add: committed_def db_ok_def operations_ok_def operation_events_ok_def
        cases_ok_def case_events_ok_def)
  show "evolves d ?t" using assms(2) by (simp add: evolves_def rows_evolve_refl rows_evolve_replace)
qed

text \<open>A message keeps its identity, its cycle and its number of attempts.\<close>

definition same_delivery :: "outbox_message \<Rightarrow> outbox_message \<Rightarrow> bool" where
  "same_delivery m m' \<longleftrightarrow>
     same_command m m' \<and> ob_delivery_cycle m' = ob_delivery_cycle m
     \<and> ob_attempts_in_cycle m' = ob_attempts_in_cycle m"

lemma leases_okI:
  assumes "\<And>m. m \<in> set (outbox s) \<Longrightarrow> ob_status m = Out_processing \<Longrightarrow>
      \<exists>a\<in>set (outbox_delivery_attempts s). attempt_open a \<and> lease_matches m a"
    and "\<And>a. a \<in> set (outbox_delivery_attempts s) \<Longrightarrow> attempt_open a \<Longrightarrow>
      \<exists>m\<in>set (outbox s). ob_status m = Out_processing \<and> lease_matches m a"
    and "\<And>a. a \<in> set (outbox_delivery_attempts s) \<Longrightarrow> \<exists>m\<in>set (outbox s). attempt_counted m a"
  shows "leases_ok s"
  using assms by (simp add: leases_ok_def list_all_iff list_ex_iff)

lemma leases_okD:
  assumes "leases_ok s"
  shows "m \<in> set (outbox s) \<Longrightarrow> ob_status m = Out_processing \<Longrightarrow>
      \<exists>a\<in>set (outbox_delivery_attempts s). attempt_open a \<and> lease_matches m a"
    and "a \<in> set (outbox_delivery_attempts s) \<Longrightarrow> attempt_open a \<Longrightarrow>
      \<exists>m\<in>set (outbox s). ob_status m = Out_processing \<and> lease_matches m a"
    and "a \<in> set (outbox_delivery_attempts s) \<Longrightarrow> \<exists>m\<in>set (outbox s). attempt_counted m a"
  using assms by (auto simp: leases_ok_def list_all_iff list_ex_iff)

section \<open>Release\<close>

lemma release_step:
  assumes ok: "messaging_ok s"
    and m: "m \<in> set (outbox s)" "ob_status m = Out_processing"
    and a: "a \<in> set (outbox_delivery_attempts s)" "attempt_open a" "lease_matches m a"
    and m': "same_delivery m m'" "ob_status m' \<noteq> Out_processing" "delivery_step (delivery_of m) (delivery_of m')"
      "outbox_row_ok m'" "message_readable m'"
    and a': "attempt_advances a a'" "\<not> attempt_open a'" "attempt_row_ok a'"
    and t: "t = s\<lparr>core := (core s)\<lparr>outbox_messages := replace_row m m' (outbox s)\<rparr>,
                outbox_delivery_attempts := replace_row a a' (outbox_delivery_attempts s)\<rparr>"
  shows "messaging_ok t \<and> messaging_evolves s t"
proof -
  have sc: "same_command m m'" using m'(1) by (simp add: same_delivery_def)
  have ids: "at_attempt_id a' = at_attempt_id a" "attempt_key a' = attempt_key a"
    using a' a(2) by (auto simp: attempt_advances_def)
  have core: "committed (core t)" "evolves (core s) (core t)"
    using committed_replace_message[OF messaging_okD(1)[OF ok] sc m'(4)] by (simp_all add: t)
  have "at_attempt_number a \<le> 8"
    using messaging_okD(2)[OF ok] a(1) by (simp add: attempts_ok_def list_all_iff)
  then have att: "attempts_ok t"
    using messaging_okD(2)[OF ok] a'(3) ids
    by (simp add: attempts_ok_def t unique_all list_all_replace_row map_replace_row)
  have "leases_ok t"
  proof (rule leases_okI)
    fix q
    assume q: "q \<in> set (outbox t)" "ob_status q = Out_processing"
    then have "q \<in> set (outbox s)" "q \<noteq> m" using m'(2) by (auto simp: t set_replace_row split: if_splits)
    then obtain b where b: "b \<in> set (outbox_delivery_attempts s)" "attempt_open b" "lease_matches q b"
      using leases_okD(1)[OF messaging_okD(3)[OF ok]] q(2) by blast
    have "b \<noteq> a"
    proof
      assume "b = a"
      then have "ob_command_id q = ob_command_id m" using b(3) a(3) by (simp add: lease_matches_def)
      then show False using message_unique[OF ok \<open>q \<in> set (outbox s)\<close> m(1)] \<open>q \<noteq> m\<close> by simp
    qed
    then show "\<exists>a\<in>set (outbox_delivery_attempts t). attempt_open a \<and> lease_matches q a"
      using b by (auto simp: t set_replace_row)
  next
    fix b
    assume b: "b \<in> set (outbox_delivery_attempts t)" "attempt_open b"
    then have bs: "b \<in> set (outbox_delivery_attempts s)" "b \<noteq> a"
      using a'(2) by (auto simp: t set_replace_row split: if_splits)
    then obtain q where q: "q \<in> set (outbox s)" "ob_status q = Out_processing" "lease_matches q b"
      using leases_okD(2)[OF messaging_okD(3)[OF ok]] b(2) by blast
    have "q \<noteq> m"
    proof
      assume "q = m"
      then have "at_command_id b = at_command_id a" using q(3) a(3) by (simp add: lease_matches_def)
      then show False using one_open_attempt[OF ok bs(1) b(2) a(1,2)] bs(2) by simp
    qed
    then show "\<exists>q\<in>set (outbox t). ob_status q = Out_processing \<and> lease_matches q b"
      using q by (auto simp: t set_replace_row)
  next
    fix b
    assume "b \<in> set (outbox_delivery_attempts t)"
    then obtain b0 where b0: "b0 \<in> set (outbox_delivery_attempts s)" "attempt_key b = attempt_key b0"
      using ids(2) by (auto simp: t set_replace_row split: if_splits)
    then have "\<exists>q\<in>set (outbox s). attempt_counted q b"
      using leases_okD(3)[OF messaging_okD(3)[OF ok] b0(1)] by (auto simp: attempt_counted_def)
    moreover have "attempt_counted m b \<Longrightarrow> attempt_counted m' b"
      using m'(1) by (auto simp: attempt_counted_def same_delivery_def same_command_def)
    ultimately show "\<exists>q\<in>set (outbox t). attempt_counted q b"
      by (simp add: t bex_replace_row)
  qed
  moreover have "list_all message_readable (outbox t)"
    using messaging_okD(4)[OF ok] m'(5) by (simp add: t list_all_replace_row)
  moreover have "message_advances m m'"
    using m'(3) m(2) sc by (auto simp: message_advances_def)
  ultimately show ?thesis
    using core att a'(1)
    by (simp add: messaging_ok_def messaging_evolves_def) (simp add: t rows_evolve_replace)
qed

section \<open>Renewal\<close>

lemma renew_step:
  assumes ok: "messaging_ok s" and m: "m \<in> set (outbox s)" "ob_status m = Out_processing"
    and m': "same_delivery m m'" "ob_status m' = Out_processing" "ob_lease_id m' = ob_lease_id m"
      "ob_lease_owner m' = ob_lease_owner m" "outbox_row_ok m'" "message_readable m'"
    and t: "t = s\<lparr>core := (core s)\<lparr>outbox_messages := replace_row m m' (outbox s)\<rparr>\<rparr>"
  shows "messaging_ok t \<and> messaging_evolves s t"
proof -
  have sc: "same_command m m'" using m'(1) by (simp add: same_delivery_def)
  have core: "committed (core t)" "evolves (core s) (core t)"
    using committed_replace_message[OF messaging_okD(1)[OF ok] sc m'(5)] by (simp_all add: t)
  have att: "attempts_ok t" using messaging_okD(2)[OF ok] by (simp add: attempts_ok_def t)
  have same: "lease_matches m' a = lease_matches m a" "attempt_counted m' a = attempt_counted m a" for a
    using m'(1,3,4) by (auto simp: lease_matches_def attempt_counted_def same_delivery_def same_command_def)
  have "leases_ok t"
  proof (rule leases_okI)
    fix q
    assume "q \<in> set (outbox t)" "ob_status q = Out_processing"
    then show "\<exists>a\<in>set (outbox_delivery_attempts t). attempt_open a \<and> lease_matches q a"
      using leases_okD(1)[OF messaging_okD(3)[OF ok]] m same by (auto simp: t set_replace_row split: if_splits)
  next
    fix b
    assume "b \<in> set (outbox_delivery_attempts t)" "attempt_open b"
    then have "\<exists>q\<in>set (outbox s). ob_status q = Out_processing \<and> lease_matches q b"
      by (intro leases_okD(2)[OF messaging_okD(3)[OF ok]]) (simp_all add: t)
    then have "\<exists>q\<in>set (replace_row m m' (outbox s)). ob_status q = Out_processing \<and> lease_matches q b"
      by (rule bex_replace_row) (use m'(2) same in auto)
    then show "\<exists>q\<in>set (outbox t). ob_status q = Out_processing \<and> lease_matches q b" by (simp add: t)
  next
    fix b
    assume "b \<in> set (outbox_delivery_attempts t)"
    then have "\<exists>q\<in>set (outbox s). attempt_counted q b"
      by (intro leases_okD(3)[OF messaging_okD(3)[OF ok]]) (simp add: t)
    then show "\<exists>q\<in>set (outbox t). attempt_counted q b" using same by (simp add: t bex_replace_row)
  qed
  moreover have "list_all message_readable (outbox t)"
    using messaging_okD(4)[OF ok] m'(6) by (simp add: t list_all_replace_row)
  moreover have "message_advances m m'"
    using m' m(2) sc by (auto simp: message_advances_def same_delivery_def delivery_of_def)
  ultimately show ?thesis
    using core att by (simp add: messaging_ok_def messaging_evolves_def) (simp add: t rows_evolve_replace rows_evolve_refl)
qed

section \<open>Acquisition\<close>

lemma acquire_step:
  assumes ok: "messaging_ok s" and m: "m \<in> set (outbox s)" "ob_status m \<in> {Out_pending, Out_retry_scheduled}"
    and m': "same_command m m'" "ob_status m' = Out_processing" "ob_delivery_cycle m' = ob_delivery_cycle m"
      "ob_attempts_in_cycle m' = ob_attempts_in_cycle m + 1" "outbox_row_ok m'" "message_readable m'"
    and a: "lease_matches m' a" "attempt_open a" "attempt_row_ok a"
      "\<not> taken at_attempt_id (outbox_delivery_attempts s) a" "\<not> taken attempt_key (outbox_delivery_attempts s) a"
    and t: "t = s\<lparr>core := (core s)\<lparr>outbox_messages := replace_row m m' (outbox s)\<rparr>,
                outbox_delivery_attempts := outbox_delivery_attempts s @ [a]\<rparr>"
  shows "messaging_ok t \<and> messaging_evolves s t"
proof -
  have core: "committed (core t)" "evolves (core s) (core t)"
    using committed_replace_message[OF messaging_okD(1)[OF ok] m'(1) m'(5)] by (simp_all add: t)
  have "at_attempt_number a \<le> 8" using a(1) m'(5) by (simp add: lease_matches_def outbox_row_ok_def)
  then have att: "attempts_ok t"
    using messaging_okD(2)[OF ok] a(3-5) by (simp add: attempts_ok_def t unique_on_snoc)
  have "leases_ok t"
  proof (rule leases_okI)
    fix q
    assume "q \<in> set (outbox t)" "ob_status q = Out_processing"
    then show "\<exists>a\<in>set (outbox_delivery_attempts t). attempt_open a \<and> lease_matches q a"
      using leases_okD(1)[OF messaging_okD(3)[OF ok]] a(1,2) by (auto simp: t set_replace_row split: if_splits)
  next
    fix b
    assume b: "b \<in> set (outbox_delivery_attempts t)" "attempt_open b"
    show "\<exists>q\<in>set (outbox t). ob_status q = Out_processing \<and> lease_matches q b"
    proof (cases "b = a")
      case True
      then show ?thesis using a(1) m(1) m'(2) by (auto simp: t set_replace_row)
    next
      case False
      then have "b \<in> set (outbox_delivery_attempts s)" using b(1) by (simp add: t)
      then have "\<exists>q\<in>set (outbox s). ob_status q = Out_processing \<and> lease_matches q b"
        using leases_okD(2)[OF messaging_okD(3)[OF ok]] b(2) by blast
      then have "\<exists>q\<in>set (replace_row m m' (outbox s)). ob_status q = Out_processing \<and> lease_matches q b"
        by (rule bex_replace_row) (use m(2) in auto)
      then show ?thesis by (simp add: t)
    qed
  next
    fix b
    assume "b \<in> set (outbox_delivery_attempts t)"
    then consider "b = a" | "b \<in> set (outbox_delivery_attempts s)" by (auto simp: t)
    then show "\<exists>q\<in>set (outbox t). attempt_counted q b"
    proof cases
      case 1
      then have "attempt_counted m' b" using a(1) by (auto simp: attempt_counted_def lease_matches_def)
      then show ?thesis using m(1) by (auto simp: t set_replace_row)
    next
      case 2
      then have "\<exists>q\<in>set (outbox s). attempt_counted q b"
        by (rule leases_okD(3)[OF messaging_okD(3)[OF ok]])
      moreover have "attempt_counted m b \<Longrightarrow> attempt_counted m' b"
        using m'(1,3,4) by (auto simp: attempt_counted_def same_command_def)
      ultimately show ?thesis by (simp add: t bex_replace_row)
    qed
  qed
  moreover have "list_all message_readable (outbox t)"
    using messaging_okD(4)[OF ok] m'(6) by (simp add: t list_all_replace_row)
  moreover have "delivery_step (delivery_of m) (delivery_of m')"
    using m'(5) unfolding delivery_of_def m'(2-4)
    by (intro delivery_step.take m(2)) (simp add: m'(4) outbox_row_ok_def)
  then have "message_advances m m'"
    using m'(1) m(2) by (auto simp: message_advances_def)
  ultimately show ?thesis
    using core att
    by (simp add: messaging_ok_def messaging_evolves_def) (simp add: t rows_evolve_replace rows_evolve_append)
qed

section \<open>Aggregates\<close>

lemma core_step:
  assumes "messaging_ok s" and "committed d" and "evolves (core s) d" and "outbox_messages d = outbox s"
  shows "messaging_ok (s\<lparr>core := d\<rparr>) \<and> messaging_evolves s (s\<lparr>core := d\<rparr>)"
  using assms
  by (simp add: messaging_ok_def messaging_evolves_def attempts_ok_def leases_ok_def rows_evolve_refl)

end
