(* ===== verification/Messaging_World.thy ===== *)
theory Messaging_World
  imports Lease_Protocol
begin

text \<open>
  What the messaging code runs in. A transaction is a program over the tables that reads the database
  clock (\<^verbatim>\<open>clock_timestamp()\<close>, a new reading at every evaluation) and draws identifiers
  (\<^verbatim>\<open>uuid4()\<close>); if it raises, the tables are rolled back. Around every transaction other sessions
  may commit, and the connection may fail before the transaction or lose the reply after the commit.
  The locks other transactions hold and the order of an unordered scan are parameters too. Nothing is
  assumed of the clock, not even that it is monotonic.
\<close>

section \<open>Environment and world\<close>

record menvironment =
  me_db_clock :: "nat \<Rightarrow> instant"
  me_clock :: "nat \<Rightarrow> instant"
  me_uuid4 :: "nat \<Rightarrow> uuid"
  me_interfere :: "nat \<Rightarrow> idb \<Rightarrow> idb"
  me_fault :: "nat \<Rightarrow> fault"
  me_locked :: "nat \<Rightarrow> uuid \<Rightarrow> bool"
  me_scan :: "nat \<Rightarrow> uuid \<Rightarrow> nat"

record mworld =
  mw_db :: idb
  mw_calls :: nat
  mw_reads :: nat
  mw_ticks :: nat
  mw_ids :: nat

definition start_mworld :: "idb \<Rightarrow> mworld" where
  "start_mworld s = \<lparr>mw_db = s, mw_calls = 0, mw_reads = 0, mw_ticks = 0, mw_ids = 0\<rparr>"

definition clock_timestamp :: "menvironment \<Rightarrow> (mworld, instant) prog" where
  "clock_timestamp E = (\<lambda>w. (Inr (me_db_clock E (mw_reads w)), w\<lparr>mw_reads := Suc (mw_reads w)\<rparr>))"

text \<open>The worker's own clock, \<^verbatim>\<open>datetime.now(UTC)\<close>.\<close>

definition local_clock :: "menvironment \<Rightarrow> (mworld, instant) prog" where
  "local_clock E = (\<lambda>w. (Inr (me_clock E (mw_ticks w)), w\<lparr>mw_ticks := Suc (mw_ticks w)\<rparr>))"

definition uuid4 :: "menvironment \<Rightarrow> (mworld, uuid) prog" where
  "uuid4 E = (\<lambda>w. (Inr (me_uuid4 E (mw_ids w)), w\<lparr>mw_ids := Suc (mw_ids w)\<rparr>))"

fun db_exn :: "sql_error \<Rightarrow> exn" where
  "db_exn (Unique_violation c) = DatabaseError (Some c)"
| "db_exn _ = DatabaseError None"

definition execute :: "(idb \<Rightarrow> sql_error + 'a \<times> idb) \<Rightarrow> (mworld, 'a) prog" where
  "execute f = (\<lambda>w. case f (mw_db w) of
     Inl e \<Rightarrow> (Inl (db_exn e), w) | Inr (x, s) \<Rightarrow> (Inr x, w\<lparr>mw_db := s\<rparr>))"

definition fetch :: "(idb \<Rightarrow> 'a) \<Rightarrow> (mworld, 'a) prog" where
  "fetch f = (\<lambda>w. (Inr (f (mw_db w)), w))"

text \<open>\<^verbatim>\<open>async with connection.transaction()\<close> on a connection of the pool.\<close>

definition transaction :: "menvironment \<Rightarrow> (mworld, 'a) prog \<Rightarrow> (mworld, 'a) prog" where
  "transaction E m = (\<lambda>w.
     let s = me_interfere E (mw_calls w) (mw_db w);
         w0 = w\<lparr>mw_db := s, mw_calls := Suc (mw_calls w)\<rparr>
     in case me_fault E (mw_calls w) of
          Lost_call \<Rightarrow> (Inl (DatabaseError None), w0)
        | Lost_reply \<Rightarrow>
            (case m w0 of
               (Inl e, w') \<Rightarrow> (Inl (DatabaseError None), w'\<lparr>mw_db := s\<rparr>)
             | (Inr x, w') \<Rightarrow> (Inl (DatabaseError None), w'))
        | No_fault \<Rightarrow>
            (case m w0 of
               (Inl e, w') \<Rightarrow> (Inl e, w'\<lparr>mw_db := s\<rparr>)
             | (Inr x, w') \<Rightarrow> (Inr x, w')))"

text \<open>\<^verbatim>\<open>except (errors.DatabaseError, PoolTimeout)\<close>.\<close>

fun integration_error :: "exn \<Rightarrow> exn" where
  "integration_error (DatabaseError _) = IntegrationPersistenceError"
| "integration_error e = e"

definition integration_call :: "menvironment \<Rightarrow> (mworld, 'a) prog \<Rightarrow> (mworld, 'a) prog" where
  "integration_call E m = try_except (transaction E m) (\<lambda>e. throw (integration_error e))"

definition mquiet :: "menvironment \<Rightarrow> bool" where
  "mquiet E \<longleftrightarrow> me_interfere E = (\<lambda>_ s. s) \<and> me_fault E = (\<lambda>_. No_fault)"

section \<open>Success of a program\<close>

lemma bnd_Inr: "bnd m k s = (Inr y, s') \<longleftrightarrow> (\<exists>x s1. m s = (Inr x, s1) \<and> k x s1 = (Inr y, s'))"
  by (auto simp: bnd_def split: prod.splits sum.splits)

lemma ret_Inr [simp]: "ret x s = (Inr y, s') \<longleftrightarrow> y = x \<and> s' = s"
  by (auto simp: ret_def)

lemma throw_Inr [simp]: "throw e s \<noteq> (Inr y, s')"
  by (simp add: throw_def)

lemma require_Inr [simp]: "require b e s = (Inr y, s') \<longleftrightarrow> b \<and> s' = s"
  by (simp add: require_def)

lemma lift_Inr [simp]: "lift r s = (Inr y, s') \<longleftrightarrow> r = Inr y \<and> s' = s"
  by (auto simp: lift_def)

lemma fetch_Inr [simp]: "fetch f w = (Inr y, w') \<longleftrightarrow> y = f (mw_db w) \<and> w' = w"
  by (auto simp: fetch_def)

lemma execute_Inr: "execute f w = (Inr y, w') \<longleftrightarrow> (\<exists>s. f (mw_db w) = Inr (y, s) \<and> w' = w\<lparr>mw_db := s\<rparr>)"
  by (auto simp: execute_def split: sum.splits)

lemma clock_timestamp_Inr: "clock_timestamp E w = (Inr y, w') \<longleftrightarrow>
    y = me_db_clock E (mw_reads w) \<and> w' = w\<lparr>mw_reads := Suc (mw_reads w)\<rparr>"
  by (auto simp: clock_timestamp_def)

lemma uuid4_Inr: "uuid4 E w = (Inr y, w') \<longleftrightarrow>
    y = me_uuid4 E (mw_ids w) \<and> w' = w\<lparr>mw_ids := Suc (mw_ids w)\<rparr>"
  by (auto simp: uuid4_def)

lemma local_clock_Inr: "local_clock E w = (Inr y, w') \<longleftrightarrow>
    y = me_clock E (mw_ticks w) \<and> w' = w\<lparr>mw_ticks := Suc (mw_ticks w)\<rparr>"
  by (auto simp: local_clock_def)

lemmas success_simps = bnd_Inr execute_Inr clock_timestamp_Inr uuid4_Inr local_clock_Inr

section \<open>Contracts of programs\<close>

text \<open>
  The interface between a program and the shared tables: \<open>I\<close> holds of every committed state and
  committed states move along \<open>R\<close>. A body \<open>commits\<close> if its success leads from \<open>I\<close> to \<open>I\<close>
  along \<open>R\<close>; a program \<open>keeps\<close> the contract if it does so however it ends. The transaction turns
  the first into the second.
\<close>

locale table_contract =
  fixes I :: "idb \<Rightarrow> bool" and R :: "idb \<Rightarrow> idb \<Rightarrow> bool"
  assumes R_refl: "R s s" and R_trans: "R s t \<Longrightarrow> R t u \<Longrightarrow> R s u"
begin

definition lawful :: "menvironment \<Rightarrow> bool" where
  "lawful E \<longleftrightarrow> (\<forall>n s. I s \<longrightarrow> I (me_interfere E n s) \<and> R s (me_interfere E n s))"

definition commits :: "(mworld, 'a) prog \<Rightarrow> bool" where
  "commits m \<longleftrightarrow> (\<forall>w x w'. I (mw_db w) \<longrightarrow> m w = (Inr x, w') \<longrightarrow> I (mw_db w') \<and> R (mw_db w) (mw_db w'))"

definition keeps :: "(mworld, 'a) prog \<Rightarrow> bool" where
  "keeps m \<longleftrightarrow> (\<forall>w. I (mw_db w) \<longrightarrow> I (mw_db (snd (m w))) \<and> R (mw_db w) (mw_db (snd (m w))))"

lemma commitsI:
  "(\<And>w x w'. I (mw_db w) \<Longrightarrow> m w = (Inr x, w') \<Longrightarrow> I (mw_db w') \<and> R (mw_db w) (mw_db w')) \<Longrightarrow> commits m"
  by (auto simp: commits_def)

lemma commitsD:
  "commits m \<Longrightarrow> I (mw_db w) \<Longrightarrow> m w = (Inr x, w') \<Longrightarrow> I (mw_db w') \<and> R (mw_db w) (mw_db w')"
  by (auto simp: commits_def)

lemma keepsD: "keeps m \<Longrightarrow> I (mw_db w) \<Longrightarrow> m w = (r, w') \<Longrightarrow> I (mw_db w') \<and> R (mw_db w) (mw_db w')"
  by (auto simp: keeps_def dest!: spec[of _ w])

lemma commits_bnd: "commits m \<Longrightarrow> (\<And>x. commits (k x)) \<Longrightarrow> commits (bnd m k)"
  by (rule commitsI) (auto simp: bnd_Inr dest!: commitsD intro: R_trans)

lemma commits_pure [simp]:
  "commits (ret x)" "commits (throw e)" "commits (require b e)" "commits (lift r)" "commits (fetch f)"
  "commits (clock_timestamp E)" "commits (uuid4 E)" "commits (local_clock E)"
  by (auto simp: commits_def success_simps R_refl)

lemma commits_if: "commits m \<Longrightarrow> commits n \<Longrightarrow> commits (if b then m else n)"
  by simp

lemma keeps_bnd: "keeps m \<Longrightarrow> (\<And>x. keeps (k x)) \<Longrightarrow> keeps (bnd m k)"
  unfolding keeps_def bnd_def
  by (auto split: prod.splits sum.splits) (metis R_trans snd_conv)+

lemma keeps_try: "keeps m \<Longrightarrow> (\<And>e. keeps (h e)) \<Longrightarrow> keeps (try_except m h)"
  unfolding keeps_def try_except_def
  by (auto split: prod.splits sum.splits) (metis R_trans snd_conv)+

lemma keeps_pure [simp]:
  "keeps (ret x)" "keeps (throw e)" "keeps (require b e)" "keeps (lift r)" "keeps (local_clock E)"
  by (simp_all add: keeps_def ret_def throw_def require_def lift_def local_clock_def R_refl)

lemma keeps_transaction:
  assumes "lawful E" and "commits m"
  shows "keeps (transaction E m)"
  unfolding keeps_def
proof (intro allI impI)
  fix w :: mworld
  assume I: "I (mw_db w)"
  let ?s = "me_interfere E (mw_calls w) (mw_db w)"
  let ?w0 = "w\<lparr>mw_db := ?s, mw_calls := Suc (mw_calls w)\<rparr>"
  have s: "I ?s" "R (mw_db w) ?s" using assms(1) I by (auto simp: lawful_def)
  obtain r w' where m: "m ?w0 = (r, w')" by fastforce
  have "I (mw_db w') \<and> R (mw_db w) (mw_db w')" if "r = Inr x" for x
    using commitsD[OF assms(2), of ?w0 x w'] s m that by (auto intro: R_trans)
  then show "I (mw_db (snd (transaction E m w))) \<and> R (mw_db w) (mw_db (snd (transaction E m w)))"
    using s m by (cases r) (auto simp: transaction_def Let_def split: fault.split)
qed

lemma keeps_integration_call: "lawful E \<Longrightarrow> commits m \<Longrightarrow> keeps (integration_call E m)"
  by (simp add: integration_call_def keeps_try keeps_transaction)

end

interpretation messaging: table_contract messaging_ok messaging_evolves
  by unfold_locales (rule messaging_evolves_refl, rule messaging_evolves_trans)

lemma transaction_Inr:
  assumes "transaction E m w = (Inr x, w')"
  obtains w0 where "m w0 = (Inr x, w')" "mw_db w0 = me_interfere E (mw_calls w) (mw_db w)"
  using assms by (auto simp: transaction_def Let_def split: fault.splits prod.splits sum.splits)

lemma integration_call_Inr:
  assumes "integration_call E m w = (Inr x, w')"
  obtains w0 where "m w0 = (Inr x, w')" "mw_db w0 = me_interfere E (mw_calls w) (mw_db w)"
proof -
  have "transaction E m w = (Inr x, w')"
    using assms by (auto simp: integration_call_def try_except_def throw_def split: prod.splits sum.splits)
  then show ?thesis by (rule transaction_Inr) (rule that)
qed

text \<open>In a quiet environment a transaction that raises changes nothing.\<close>

lemma transaction_quiet:
  "mquiet E \<Longrightarrow> transaction E m w =
     (case m (w\<lparr>mw_calls := Suc (mw_calls w)\<rparr>) of
        (Inl e, w') \<Rightarrow> (Inl e, w'\<lparr>mw_db := mw_db w\<rparr>)
      | (Inr x, w') \<Rightarrow> (Inr x, w'))"
  by (simp add: transaction_def mquiet_def Let_def split: prod.split sum.split)

lemma integration_call_quiet:
  "mquiet E \<Longrightarrow> integration_call E m w =
     (case m (w\<lparr>mw_calls := Suc (mw_calls w)\<rparr>) of
        (Inl e, w') \<Rightarrow> (Inl (integration_error e), w'\<lparr>mw_db := mw_db w\<rparr>)
      | (Inr x, w') \<Rightarrow> (Inr x, w'))"
  by (simp add: integration_call_def try_except_def transaction_quiet throw_def split: prod.split sum.split)

end
