(* ===== verification/Outbox_Store.thy ===== *)
theory Outbox_Store
  imports Messaging_World
begin

text \<open>
  The outbox half of the messaging repository (\<^verbatim>\<open>src/agent/integrations/postgres_repository.py\<close>) and
  the cursor-scoped writes it uses (\<^verbatim>\<open>postgres_writes.py\<close>): claiming due messages, renewing a lease,
  scheduling a retry.
\<close>

section \<open>Cursor-scoped writes\<close>

definition validate_error_field :: "string \<Rightarrow> string option \<Rightarrow> exn + unit" where
  "validate_error_field name x =
     (case x of
        None \<Rightarrow> Inr ()
      | Some s \<Rightarrow>
         if strip s = [] then Inl (ValueError (name @ '' must not be blank''))
         else if 500 < length s then Inl (ValueError (name @ '' must not exceed 500 characters''))
         else Inr ())"

definition validate_error_fields :: "string option \<Rightarrow> string option \<Rightarrow> exn + unit" where
  "validate_error_fields code message =
     (case validate_error_field ''error_code'' code of
        Inl e \<Rightarrow> Inl e | Inr _ \<Rightarrow> validate_error_field ''error_message'' message)"

definition require_finite_non_negative :: "py_float option \<Rightarrow> exn + unit" where
  "require_finite_non_negative x =
     (case x of
        None \<Rightarrow> Inr ()
      | Some r \<Rightarrow>
         if \<not> isfinite r then Inl (ValueError ''retry_after_seconds must be finite'')
         else if fval r < 0 then Inl (ValueError ''retry_after_seconds must not be negative'')
         else Inr ())"

text \<open>The optional columns of \<^verbatim>\<open>update_outbox_transition\<close>; an absent one keeps its value.\<close>

record outbox_transition =
  tn_available_at :: "instant option"
  tn_published_at :: "instant option"
  tn_dead_at :: "instant option"
  tn_attempts_in_cycle :: "int option"
  tn_last_failure_kind :: "provider_failure_kind option"
  tn_last_error_code :: "string option"
  tn_last_error_message :: "string option"

abbreviation given :: "'a option \<Rightarrow> 'a \<Rightarrow> 'a" where
  "given x old \<equiv> (case x of None \<Rightarrow> old | Some v \<Rightarrow> v)"

definition outbox_now :: "instant \<Rightarrow> outbox_message \<Rightarrow> instant" where
  "outbox_now t m = max t (max (ob_updated_at m) (ob_created_at m))"

definition set_transition_columns ::
  "outbox_delivery_status \<Rightarrow> instant \<Rightarrow> outbox_transition \<Rightarrow> outbox_message \<Rightarrow> outbox_message" where
  "set_transition_columns target updated_at tr m =
     m\<lparr>ob_status := target, ob_updated_at := outbox_now updated_at m,
       ob_lease_id := None, ob_lease_owner := None, ob_lease_expires_at := None,
       ob_available_at := given (tn_available_at tr) (ob_available_at m),
       ob_published_at := (case tn_published_at tr of
          None \<Rightarrow> ob_published_at m | Some t \<Rightarrow> Some (outbox_now t m)),
       ob_dead_at := (case tn_dead_at tr of None \<Rightarrow> ob_dead_at m | Some t \<Rightarrow> Some (outbox_now t m)),
       ob_attempts_in_cycle := given (tn_attempts_in_cycle tr) (ob_attempts_in_cycle m),
       ob_last_failure_kind := (case tn_last_failure_kind tr of
          None \<Rightarrow> ob_last_failure_kind m | Some k \<Rightarrow> Some k),
       ob_last_error_code := (case tn_last_error_code tr of
          None \<Rightarrow> ob_last_error_code m | Some c \<Rightarrow> Some c),
       ob_last_error_message := (case tn_last_error_message tr of
          None \<Rightarrow> ob_last_error_message m | Some c \<Rightarrow> Some c)\<rparr>"

definition update_outbox_transition ::
  "uuid \<Rightarrow> outbox_delivery_status \<Rightarrow> uuid option \<Rightarrow> string option \<Rightarrow> outbox_delivery_status \<Rightarrow> instant
     \<Rightarrow> outbox_transition \<Rightarrow> (mworld, nat) prog" where
  "update_outbox_transition command_id expected_status expected_lease_id expected_lease_owner
       target_status updated_at tr =
     bnd (lift (validate_error_fields (tn_last_error_code tr) (tn_last_error_message tr))) (\<lambda>_.
     execute (update_outbox_messages
       (\<lambda>m. ob_command_id m = command_id \<and> ob_status m = expected_status
          \<and> (expected_lease_id = None \<or> ob_lease_id m = expected_lease_id)
          \<and> (expected_lease_owner = None \<or> ob_lease_owner m = expected_lease_owner))
       (set_transition_columns target_status updated_at tr)))"

record attempt_result =
  ar_outcome :: delivery_attempt_outcome
  ar_failure_kind :: "provider_failure_kind option"
  ar_http_status :: "int option"
  ar_provider_operation_id :: "string option"
  ar_provider_reference :: "string option"
  ar_safe_error_code :: "string option"
  ar_safe_error_message :: "string option"
  ar_retry_after_seconds :: "py_float option"
  ar_next_available_at :: "instant option"

definition set_attempt_columns :: "instant \<Rightarrow> attempt_result \<Rightarrow> delivery_attempt \<Rightarrow> delivery_attempt" where
  "set_attempt_columns finished_at res a =
     a\<lparr>at_finished_at := Some (max finished_at (at_started_at a)),
       at_outcome := Some (ar_outcome res), at_failure_kind := ar_failure_kind res,
       at_http_status := ar_http_status res,
       at_provider_operation_id := ar_provider_operation_id res,
       at_provider_reference := ar_provider_reference res,
       at_safe_error_code := ar_safe_error_code res,
       at_safe_error_message := ar_safe_error_message res,
       at_retry_after_seconds := ar_retry_after_seconds res,
       at_next_available_at := ar_next_available_at res\<rparr>"

definition finish_delivery_attempt ::
  "uuid \<Rightarrow> uuid \<Rightarrow> uuid \<Rightarrow> string \<Rightarrow> instant \<Rightarrow> attempt_result \<Rightarrow> (mworld, nat) prog" where
  "finish_delivery_attempt attempt_id command_id lease_id worker_id finished_at res =
     bnd (lift (validate_error_fields (ar_safe_error_code res) (ar_safe_error_message res))) (\<lambda>_.
     bnd (lift (require_finite_non_negative (ar_retry_after_seconds res))) (\<lambda>_.
     execute (update_delivery_attempts
       (\<lambda>a. at_attempt_id a = attempt_id \<and> at_command_id a = command_id \<and> at_lease_id a = lease_id
          \<and> at_worker_id a = worker_id \<and> at_finished_at a = None)
       (set_attempt_columns finished_at res))))"

section \<open>Reads and claims\<close>

definition get_outbox_message :: "menvironment \<Rightarrow> uuid \<Rightarrow> (mworld, outbox_message option) prog" where
  "get_outbox_message E command_id =
     bnd (integration_call E (fetch (\<lambda>s. find (\<lambda>m. ob_command_id m = command_id) (outbox s)))) (\<lambda>row.
       case row of
         None \<Rightarrow> ret None
       | Some r \<Rightarrow> bnd (lift (outbox_from_row r)) (\<lambda>m. ret (Some m)))"

definition validate_claim_parameters :: "string \<Rightarrow> int \<Rightarrow> py_float \<Rightarrow> exn + unit" where
  "validate_claim_parameters worker_id batch_size lease_seconds =
     (if strip worker_id = [] then Inl (ValueError ''worker_id must not be blank'')
      else if batch_size < 1 then Inl (ValueError ''batch_size must be at least 1'')
      else if \<not> isfinite lease_seconds then Inl (ValueError ''lease_seconds must be finite'')
      else if fval lease_seconds \<le> 0 then Inl (ValueError ''lease_seconds must be positive'')
      else Inr ())"

text \<open>\<^verbatim>\<open>%s * interval '1 second'\<close>, in microseconds.\<close>

definition seconds_interval :: "py_float \<Rightarrow> int" where
  "seconds_interval x = round (fval x * 1000000)"

text \<open>The filter reads the clock for every row it looks at.\<close>

definition due_outbox :: "(nat \<Rightarrow> instant) \<Rightarrow> outbox_message list \<Rightarrow> outbox_message list" where
  "due_outbox clk rows =
     map snd (filter (\<lambda>(i, m). ob_status m \<in> {Out_pending, Out_retry_scheduled}
         \<and> ob_available_at m \<le> clk i \<and> ob_attempts_in_cycle m < 8) (enumerate 0 rows))"

abbreviation due_key :: "outbox_message \<Rightarrow> instant \<times> instant \<times> uuid" where
  "due_key m \<equiv> (ob_available_at m, ob_created_at m, ob_command_id m)"

definition select_due_outbox :: "menvironment \<Rightarrow> int \<Rightarrow> (mworld, outbox_message list) prog" where
  "select_due_outbox E batch_size = (\<lambda>w.
     let rows = outbox (mw_db w); n = mw_reads w in
     (Inr (take (nat batch_size)
        (filter (\<lambda>m. \<not> me_locked E (mw_calls w) (ob_command_id m))
          (sort_key due_key (due_outbox (\<lambda>i. me_db_clock E (n + i)) rows)))),
      w\<lparr>mw_reads := n + length rows\<rparr>))"

definition leased :: "uuid \<Rightarrow> string \<Rightarrow> instant \<Rightarrow> instant \<Rightarrow> outbox_message \<Rightarrow> outbox_message" where
  "leased lease_id worker_id expires_at now m =
     m\<lparr>ob_status := Out_processing, ob_lease_id := Some lease_id, ob_lease_owner := Some worker_id,
       ob_lease_expires_at := Some expires_at, ob_attempts_in_cycle := ob_attempts_in_cycle m + 1,
       ob_updated_at := outbox_now now m\<rparr>"

definition new_attempt :: "uuid \<Rightarrow> uuid \<Rightarrow> string \<Rightarrow> outbox_message \<Rightarrow> delivery_attempt" where
  "new_attempt attempt_id lease_id worker_id m =
     \<lparr>at_attempt_id = attempt_id, at_command_id = ob_command_id m,
      at_delivery_cycle = ob_delivery_cycle m, at_attempt_number = ob_attempts_in_cycle m,
      at_lease_id = lease_id, at_worker_id = worker_id, at_started_at = ob_updated_at m,
      at_finished_at = None, at_outcome = None, at_failure_kind = None, at_http_status = None,
      at_provider_operation_id = None, at_provider_reference = None, at_safe_error_code = None,
      at_safe_error_message = None, at_retry_after_seconds = None, at_next_available_at = None\<rparr>"

definition claim_row ::
  "menvironment \<Rightarrow> string \<Rightarrow> py_float \<Rightarrow> outbox_message \<Rightarrow> (mworld, claimed_outbox_message) prog" where
  "claim_row E worker_id lease_seconds row =
     bnd (uuid4 E) (\<lambda>lease_id.
     bnd (uuid4 E) (\<lambda>attempt_id.
     bnd (clock_timestamp E) (\<lambda>t1.
     bnd (clock_timestamp E) (\<lambda>t2.
     bnd (execute (update_outbox_messages (\<lambda>m. ob_command_id m = ob_command_id row)
            (leased lease_id worker_id (t1 + seconds_interval lease_seconds) t2))) (\<lambda>_.
     bnd (fetch (\<lambda>s. find (\<lambda>m. ob_command_id m = ob_command_id row) (outbox s))) (\<lambda>updated_row.
       case updated_row of
         None \<Rightarrow> throw IntegrationPersistenceError
       | Some u \<Rightarrow>
          bnd (execute (insert_delivery_attempt (new_attempt attempt_id lease_id worker_id u))) (\<lambda>_.
          bnd (lift (attempt_from_row (new_attempt attempt_id lease_id worker_id u))) (\<lambda>attempt.
            lift (mk_claimed u attempt)))))))))"

fun claim_rows ::
  "menvironment \<Rightarrow> string \<Rightarrow> py_float \<Rightarrow> outbox_message list \<Rightarrow> (mworld, claimed_outbox_message list) prog" where
  "claim_rows E worker_id lease_seconds [] = ret []"
| "claim_rows E worker_id lease_seconds (row # rows) =
     bnd (claim_row E worker_id lease_seconds row) (\<lambda>c.
     bnd (claim_rows E worker_id lease_seconds rows) (\<lambda>cs. ret (c # cs)))"

definition claim_due_outbox ::
  "menvironment \<Rightarrow> string \<Rightarrow> int \<Rightarrow> py_float \<Rightarrow> (mworld, claimed_outbox_message list) prog" where
  "claim_due_outbox E worker_id batch_size lease_seconds =
     bnd (lift (validate_claim_parameters worker_id batch_size lease_seconds)) (\<lambda>_.
     integration_call E
       (bnd (select_due_outbox E batch_size) (claim_rows E worker_id lease_seconds)))"

definition renew_outbox_lease ::
  "menvironment \<Rightarrow> uuid \<Rightarrow> uuid \<Rightarrow> string \<Rightarrow> py_float \<Rightarrow> (mworld, bool) prog" where
  "renew_outbox_lease E command_id lease_id lease_owner lease_seconds =
     bnd (lift (validate_claim_parameters lease_owner 1 lease_seconds)) (\<lambda>_.
     integration_call E
       (bnd (clock_timestamp E) (\<lambda>t0.
        bnd (clock_timestamp E) (\<lambda>t1.
        bnd (clock_timestamp E) (\<lambda>t2.
        bnd (execute (update_outbox_messages
              (\<lambda>m. ob_command_id m = command_id \<and> ob_lease_id m = Some lease_id
                 \<and> ob_lease_owner m = Some lease_owner \<and> ob_status m = Out_processing
                 \<and> (case ob_lease_expires_at m of None \<Rightarrow> False | Some x \<Rightarrow> t0 < x))
              (\<lambda>m. m\<lparr>ob_lease_expires_at := Some (t1 + seconds_interval lease_seconds),
                     ob_updated_at := outbox_now t2 m\<rparr>))) (\<lambda>rowcount.
          ret (rowcount = 1)))))))"

text \<open>The two fenced writes that end an attempt, as every caller issues them.\<close>

definition finish_and_transition ::
  "uuid \<Rightarrow> uuid \<Rightarrow> uuid \<Rightarrow> string \<Rightarrow> outbox_delivery_status \<Rightarrow> instant \<Rightarrow> attempt_result \<Rightarrow> outbox_transition
     \<Rightarrow> (mworld, unit) prog" where
  "finish_and_transition attempt_id command_id lease_id lease_owner target now res tr =
     bnd (finish_delivery_attempt attempt_id command_id lease_id lease_owner now res) (\<lambda>affected.
     bnd (require (affected = 1) LeaseConflictError) (\<lambda>_.
     bnd (update_outbox_transition command_id Out_processing (Some lease_id) (Some lease_owner)
            target now tr) (\<lambda>affected.
       require (affected = 1) LeaseConflictError)))"

definition schedule_outbox_retry ::
  "menvironment \<Rightarrow> uuid \<Rightarrow> uuid \<Rightarrow> string \<Rightarrow> uuid \<Rightarrow> provider_failure_kind \<Rightarrow> string option \<Rightarrow> string option
     \<Rightarrow> py_float option \<Rightarrow> instant \<Rightarrow> int option \<Rightarrow> (mworld, unit) prog" where
  "schedule_outbox_retry E command_id lease_id lease_owner attempt_id failure_kind error_code error_message
       retry_after_seconds next_available_at http_status =
     integration_call E
       (bnd (fetch (\<lambda>s. find (\<lambda>m. ob_command_id m = command_id) (outbox s))) (\<lambda>message.
        case message of
          None \<Rightarrow> throw LeaseConflictError
        | Some m \<Rightarrow>
          bnd (require (ob_status m = Out_processing) LeaseConflictError) (\<lambda>_.
          bnd (require (ob_lease_id m = Some lease_id) LeaseConflictError) (\<lambda>_.
          bnd (require (ob_lease_owner m = Some lease_owner) LeaseConflictError) (\<lambda>_.
          bnd (require (ob_attempts_in_cycle m < 8) OutboxAttemptsExhaustedError) (\<lambda>_.
          bnd (clock_timestamp E) (\<lambda>now.
            finish_and_transition attempt_id command_id lease_id lease_owner Out_retry_scheduled now
              \<lparr>ar_outcome = Att_retry_scheduled, ar_failure_kind = Some failure_kind,
               ar_http_status = http_status, ar_provider_operation_id = None,
               ar_provider_reference = None, ar_safe_error_code = error_code,
               ar_safe_error_message = error_message, ar_retry_after_seconds = retry_after_seconds,
               ar_next_available_at = Some next_available_at\<rparr>
              \<lparr>tn_available_at = Some next_available_at, tn_published_at = None, tn_dead_at = None,
               tn_attempts_in_cycle = None, tn_last_failure_kind = Some failure_kind,
               tn_last_error_code = error_code, tn_last_error_message = error_message\<rparr>)))))))"


section \<open>Rows that stay readable\<close>

lemma length_trim: "length (trim s) \<le> length s"
proof -
  have "length (dropWhile is_white_space xs) \<le> length xs" for xs by (rule length_dropWhile_le)
  from this[of "rev (dropWhile is_white_space s)"] this[of s] show ?thesis
    by (simp add: trim_def strip_by_def)
qed

lemma varchar500_trim: "varchar500 x \<Longrightarrow> varchar500 (map_option trim x)"
  using length_trim by (auto simp: varchar500_def intro: order_trans split: option.splits)

text \<open>The columns a transition leaves alone.\<close>

definition same_envelope :: "outbox_message \<Rightarrow> outbox_message \<Rightarrow> bool" where
  "same_envelope m m' \<longleftrightarrow>
     same_command m m' \<and> ob_source_message_id m' = ob_source_message_id m
     \<and> ob_provider_connection_id m' = ob_provider_connection_id m"

lemma readable_transition:
  assumes m: "message_readable m" and m': "same_envelope m m'" "outbox_row_ok m'"
    and owner: "non_empty_option (map_option trim (ob_lease_owner m'))"
  shows "message_readable m'"
proof -
  have st: "validate_outbox_state (trim_outbox_message m') = Inr ()"
    using m'(2) unfolding validate_outbox_state_def outbox_row_ok_def
    by (cases "ob_status m' = Out_processing"; cases "ob_aggregate_type m'")
       (auto simp: trim_outbox_message_def)
  have "payload_parses (trim_outbox_message m')"
    using m m'(1) by (simp add: message_readable_def valid_outbox_message_def payload_parses_def
        same_envelope_def same_command_def trim_outbox_message_def)
  then show ?thesis
    using m m' owner st
    by (simp add: message_readable_def valid_outbox_message_def same_envelope_def same_command_def
        outbox_row_ok_def varchar500_trim trim_outbox_message_def)
qed

lemma same_transition [simp]:
  "tn_attempts_in_cycle tr = None \<Longrightarrow> same_delivery m (set_transition_columns target t tr m)"
  "same_envelope m (set_transition_columns target t tr m)"
  "ob_status (set_transition_columns target t tr m) = target"
  "ob_lease_owner (set_transition_columns target t tr m) = None"
  by (simp_all add: same_delivery_def same_envelope_def same_command_def set_transition_columns_def)

lemma same_attempt [simp]:
  "attempt_open a \<Longrightarrow> attempt_advances a (set_attempt_columns t res a)"
  "\<not> attempt_open (set_attempt_columns t res a)"
  by (simp_all add: attempt_advances_def attempt_open_def set_attempt_columns_def)

section \<open>What the writes commit\<close>

lemma finish_delivery_attempt_one:
  assumes "finish_delivery_attempt aid cid lid wid t res w = (Inr 1, w')"
  obtains a where "a \<in> set (outbox_delivery_attempts (mw_db w))" "at_attempt_id a = aid"
    "at_command_id a = cid" "at_lease_id a = lid" "at_worker_id a = wid" "attempt_open a"
    "attempt_row_ok (set_attempt_columns t res a)"
    "mw_db w' = (mw_db w)\<lparr>outbox_delivery_attempts :=
        replace_row a (set_attempt_columns t res a) (outbox_delivery_attempts (mw_db w))\<rparr>"
  using assms unfolding finish_delivery_attempt_def
  by (auto simp: success_simps attempt_open_def simp del: One_nat_def elim!: update_delivery_attempts_one)

lemma update_outbox_transition_one:
  assumes "update_outbox_transition cid Out_processing (Some lid) (Some wid) target t tr w = (Inr 1, w')"
  obtains m where "m \<in> set (outbox (mw_db w))" "ob_command_id m = cid" "ob_status m = Out_processing"
    "ob_lease_id m = Some lid" "ob_lease_owner m = Some wid"
    "outbox_row_ok (set_transition_columns target t tr m)"
    "mw_db w' = (mw_db w)\<lparr>core := (core (mw_db w))\<lparr>outbox_messages :=
        replace_row m (set_transition_columns target t tr m) (outbox (mw_db w))\<rparr>\<rparr>"
  using assms unfolding update_outbox_transition_def
  by (auto simp: success_simps simp del: One_nat_def elim!: update_outbox_messages_one)

lemma finish_and_transition_step:
  assumes ok: "messaging_ok (mw_db w)" and tr: "tn_attempts_in_cycle tr = None"
    and target: "\<And>m. m \<in> set (outbox (mw_db w)) \<Longrightarrow> ob_command_id m = cid \<Longrightarrow> ob_status m = Out_processing \<Longrightarrow>
      delivery_step (delivery_of m) (ob_delivery_cycle m, target, ob_attempts_in_cycle m)"
    and run: "finish_and_transition aid cid lid wid target t res tr w = (Inr x, w')"
  shows "messaging_ok (mw_db w') \<and> messaging_evolves (mw_db w) (mw_db w')"
proof -
  from run obtain w1 where f: "finish_delivery_attempt aid cid lid wid t res w = (Inr 1, w1)"
    and u: "update_outbox_transition cid Out_processing (Some lid) (Some wid) target t tr w1 = (Inr 1, w')"
    by (auto simp: finish_and_transition_def success_simps simp del: One_nat_def)
  obtain a where a: "a \<in> set (outbox_delivery_attempts (mw_db w))" "at_command_id a = cid"
      "at_lease_id a = lid" "at_worker_id a = wid" "attempt_open a" "attempt_row_ok (set_attempt_columns t res a)"
    and w1: "mw_db w1 = (mw_db w)\<lparr>outbox_delivery_attempts :=
        replace_row a (set_attempt_columns t res a) (outbox_delivery_attempts (mw_db w))\<rparr>"
    by (rule finish_delivery_attempt_one[OF f])
  obtain m where m: "m \<in> set (outbox (mw_db w1))" "ob_command_id m = cid" "ob_status m = Out_processing"
      "outbox_row_ok (set_transition_columns target t tr m)"
    and w': "mw_db w' = (mw_db w1)\<lparr>core := (core (mw_db w1))\<lparr>outbox_messages :=
        replace_row m (set_transition_columns target t tr m) (outbox (mw_db w1))\<rparr>\<rparr>"
    by (rule update_outbox_transition_one[OF u])
  have ms: "m \<in> set (outbox (mw_db w))" using m(1) by (simp add: w1)
  obtain q where q: "q \<in> set (outbox (mw_db w))" "ob_status q = Out_processing" "lease_matches q a"
    by (rule open_attempt_message[OF ok a(1,5)])
  have "q = m" using message_unique[OF ok q(1) ms] q(3) a(2) m(2) by (simp add: lease_matches_def)
  then have lm: "lease_matches m a" using q(3) by simp
  have rd: "message_readable m" using messaging_okD(4)[OF ok] ms by (simp add: list_all_iff)
  show "messaging_ok (mw_db w') \<and> messaging_evolves (mw_db w) (mw_db w')"
  proof (rule release_step[OF ok ms m(3) a(1,5) lm])
    show "same_delivery m (set_transition_columns target t tr m)" using tr by simp
    show "ob_status (set_transition_columns target t tr m) \<noteq> Out_processing"
      "delivery_step (delivery_of m) (delivery_of (set_transition_columns target t tr m))"
      using target[OF ms m(2,3)] m(3) tr
      by (auto simp: delivery_of_def set_transition_columns_def elim: delivery_stepE)
    show "message_readable (set_transition_columns target t tr m)"
      by (rule readable_transition[OF rd _ m(4)]) simp_all
    show "mw_db w' = (mw_db w)\<lparr>core := (core (mw_db w))\<lparr>outbox_messages :=
          replace_row m (set_transition_columns target t tr m) (outbox (mw_db w))\<rparr>,
        outbox_delivery_attempts := replace_row a (set_attempt_columns t res a) (outbox_delivery_attempts (mw_db w))\<rparr>"
      by (simp add: w' w1)
  qed (use m(4) a(5,6) in simp_all)
qed

lemma commits_finish_and_transition:
  assumes "target \<in> {Out_published, Out_dead}" and "tn_attempts_in_cycle tr = None"
  shows "messaging.commits (finish_and_transition aid cid lid wid target t res tr)"
  by (rule messaging.commitsI, rule finish_and_transition_step[OF _ assms(2)])
     (use assms(1) in \<open>auto simp: delivery_of_def intro: delivery_step.intros\<close>)

lemma keeps_schedule_outbox_retry:
  assumes "messaging.lawful E"
  shows "messaging.keeps (schedule_outbox_retry E cid lid wid aid k code msg ra next http)"
  unfolding schedule_outbox_retry_def
proof (rule messaging.keeps_integration_call[OF assms], rule messaging.commitsI, goal_cases)
  case (1 w x w')
  then obtain m now w1 res tr where m: "find (\<lambda>m. ob_command_id m = cid) (outbox (mw_db w)) = Some m"
    and lt: "ob_attempts_in_cycle m < 8"
    and run: "finish_and_transition aid cid lid wid Out_retry_scheduled now res tr w1 = (Inr x, w')"
    and tr: "tn_attempts_in_cycle tr = None" and w1: "mw_db w1 = mw_db w"
    by (clarsimp simp: success_simps split: option.splits)
  have "messaging_ok (mw_db w') \<and> messaging_evolves (mw_db w1) (mw_db w')"
  proof (rule finish_and_transition_step[OF _ tr _ run])
    fix q
    assume "q \<in> set (outbox (mw_db w1))" "ob_command_id q = cid" "ob_status q = Out_processing"
    moreover have "q = m"
      using message_unique[OF 1(1)] find_SomeD[OF m] calculation(1,2) by (simp add: w1)
    ultimately show "delivery_step (delivery_of q) (ob_delivery_cycle q, Out_retry_scheduled, ob_attempts_in_cycle q)"
      using lt by (auto simp: delivery_of_def intro: delivery_step.reschedule)
  qed (simp add: w1 1(1))
  then show ?case by (simp add: w1)
qed

lemma length_filter_key:
  assumes "distinct (map k rows)" and "\<And>a. sel a \<Longrightarrow> k a = c"
  shows "length (filter sel rows) \<le> 1"
proof -
  have d: "distinct (map k (filter sel rows))" using assms(1) by (rule distinct_map_filter)
  have "set (map k (filter sel rows)) \<subseteq> {c}" using assms(2) by auto
  then have "card (set (map k (filter sel rows))) \<le> 1" using card_mono[of "{c}"] by simp
  then show ?thesis using distinct_card[OF d] by simp
qed

lemma update_outbox_messages_by_id:
  assumes ok: "messaging_ok s" and upd: "update_outbox_messages sel f s = Inr (n, t)"
    and id: "\<And>m. sel m \<Longrightarrow> ob_command_id m = cid"
  shows "n = 0 \<and> t = s \<or> n = 1"
proof -
  have t: "t = s\<lparr>core := (core s)\<lparr>outbox_messages := update_rows sel f (outbox s)\<rparr>\<rparr>"
    and n: "n = length (filter sel (outbox s))"
    using upd by (auto simp: update_outbox_messages_def Let_def split: if_splits)
  have "n \<le> 1" unfolding n by (rule length_filter_key[OF messaging_okD(5)[OF ok]]) (rule id)
  moreover have "update_rows sel f (outbox s) = outbox s" if "n = 0"
    using that n by (intro update_rows_none) (auto simp: filter_empty_conv)
  ultimately show ?thesis using t by (cases n) auto
qed

lemma keeps_renew_outbox_lease:
  assumes "messaging.lawful E"
  shows "messaging.keeps (renew_outbox_lease E cid lid wid secs)"
proof -
  let ?sel = "\<lambda>t0 m. ob_command_id m = cid \<and> ob_lease_id m = Some lid \<and> ob_lease_owner m = Some wid
      \<and> ob_status m = Out_processing \<and> (case ob_lease_expires_at m of None \<Rightarrow> False | Some x \<Rightarrow> t0 < x)"
  let ?upd = "\<lambda>t1 t2 m. m\<lparr>ob_lease_expires_at := Some (t1 + seconds_interval secs), ob_updated_at := outbox_now t2 m\<rparr>"
  have "messaging.commits (execute (update_outbox_messages (?sel t0) (?upd t1 t2)))" for t0 t1 t2
  proof (rule messaging.commitsI)
    fix w n w'
    assume ok: "messaging_ok (mw_db w)"
      and run: "execute (update_outbox_messages (?sel t0) (?upd t1 t2)) w = (Inr n, w')"
    then have u: "update_outbox_messages (?sel t0) (?upd t1 t2) (mw_db w) = Inr (n, mw_db w')"
      by (auto simp: execute_Inr)
    from update_outbox_messages_by_id[OF ok u, of cid]
    consider "mw_db w' = mw_db w" | "n = 1" by blast
    then show "messaging_ok (mw_db w') \<and> messaging_evolves (mw_db w) (mw_db w')"
    proof cases
      case 1
      then show ?thesis using ok messaging_evolves_refl by simp
    next
      case 2
      obtain m where m: "m \<in> set (outbox (mw_db w))" "?sel t0 m" "outbox_row_ok (?upd t1 t2 m)"
        "mw_db w' = (mw_db w)\<lparr>core := (core (mw_db w))\<lparr>outbox_messages := replace_row m (?upd t1 t2 m) (outbox (mw_db w))\<rparr>\<rparr>"
        using u unfolding 2 by (rule update_outbox_messages_one)
      have rd: "message_readable m" using messaging_okD(4)[OF ok] m(1) by (simp add: list_all_iff)
      then have "non_empty_option (map_option trim (ob_lease_owner m))"
        by (simp add: message_readable_def valid_outbox_message_def)
      then have "message_readable (?upd t1 t2 m)"
        by (intro readable_transition[OF rd _ m(3)]) (simp_all add: same_envelope_def same_command_def)
      then show ?thesis
        using m by (intro renew_step[OF ok m(1) _ _ _ _ _ _ _ m(4)]) (simp_all add: same_delivery_def same_command_def)
    qed
  qed
  then show ?thesis
    unfolding renew_outbox_lease_def using assms
    by (intro messaging.keeps_bnd messaging.keeps_integration_call messaging.commits_bnd) simp_all
qed

text \<open>A due row is claimed once: the message moves into the new attempt's lease and every other message
  stays as it was.\<close>

lemma claim_row_Inr:
  assumes ok: "messaging_ok (mw_db w)" and r: "r \<in> set (outbox (mw_db w))"
      "ob_status r \<in> {Out_pending, Out_retry_scheduled}"
    and run: "claim_row E wid secs r w = (Inr c, w')"
  obtains m' a where "mw_db w' = (mw_db w)\<lparr>core := (core (mw_db w))\<lparr>outbox_messages :=
        replace_row r m' (outbox (mw_db w))\<rparr>,
      outbox_delivery_attempts := outbox_delivery_attempts (mw_db w) @ [a]\<rparr>"
    "ob_command_id m' = ob_command_id r" "ob_status m' = Out_processing" "lease_matches m' a" "attempt_open a"
    "ob_delivery_cycle m' = ob_delivery_cycle r" "ob_attempts_in_cycle m' = ob_attempts_in_cycle r + 1"
    "cl_message c = trim_outbox_message m'" "cl_attempt c = trim_delivery_attempt a"
    "messaging_ok (mw_db w')" "messaging_evolves (mw_db w) (mw_db w')"
proof -
  let ?sel = "\<lambda>m. ob_command_id m = ob_command_id r"
  from run obtain lid aid e t n s1 u s2 att where
    up: "update_outbox_messages ?sel (leased lid wid e t) (mw_db w) = Inr (n, s1)"
    and u: "find ?sel (outbox s1) = Some u"
    and ins: "insert_delivery_attempt (new_attempt aid lid wid u) s1 = Inr ((), s2)"
    and at: "attempt_from_row (new_attempt aid lid wid u) = Inr att"
    and cl: "mk_claimed u att = Inr c" and w': "mw_db w' = s2"
    by (auto simp: claim_row_def success_simps split: option.splits)
  have "n \<noteq> 0"
    using up r(1) by (auto simp: update_outbox_messages_def Let_def filter_empty_conv split: if_splits)
  then have "n = 1" using update_outbox_messages_by_id[OF ok up] by blast
  from up[unfolded this] obtain m where m: "m \<in> set (outbox (mw_db w))" "?sel m"
      "outbox_row_ok (leased lid wid e t m)"
    and s1: "s1 = (mw_db w)\<lparr>core := (core (mw_db w))\<lparr>outbox_messages :=
        replace_row m (leased lid wid e t m) (outbox (mw_db w))\<rparr>\<rparr>"
    by (rule update_outbox_messages_one)
  have "m = r" using message_unique[OF ok m(1) r(1)] m(2) by simp
  note m = m[unfolded this] and s1 = s1[unfolded this]
  let ?m' = "leased lid wid e t r"
  have "u = ?m'"
  proof -
    have "u \<in> set (outbox s1)" "ob_command_id u = ob_command_id r" using find_SomeD[OF u] by simp_all
    then consider "u = ?m'" | "u \<in> set (outbox (mw_db w))" "u \<noteq> r"
      by (auto simp: s1 set_replace_row split: if_splits)
    then show ?thesis
      using message_unique[OF ok _ r(1), of u] \<open>ob_command_id u = ob_command_id r\<close> by cases auto
  qed
  note u = this
  let ?a = "new_attempt aid lid wid ?m'"
  have s2: "s2 = s1\<lparr>outbox_delivery_attempts := outbox_delivery_attempts s1 @ [?a]\<rparr>"
    and a: "attempt_row_ok ?a" "\<not> taken at_attempt_id (outbox_delivery_attempts s1) ?a"
      "\<not> taken attempt_key (outbox_delivery_attempts s1) ?a"
    using ins by (auto simp: insert_delivery_attempt_def Let_def u split: if_splits)
  have lm: "lease_matches ?m' ?a" by (simp add: lease_matches_def new_attempt_def leased_def)
  have t: "mw_db w' = (mw_db w)\<lparr>core := (core (mw_db w))\<lparr>outbox_messages :=
        replace_row r ?m' (outbox (mw_db w))\<rparr>,
      outbox_delivery_attempts := outbox_delivery_attempts (mw_db w) @ [?a]\<rparr>"
    by (simp add: w' s2 s1)
  have op: "attempt_open ?a" by (simp add: attempt_open_def new_attempt_def)
  have rd: "message_readable ?m'"
    using cl by (simp add: message_readable_def mk_claimed_Inr u)
  have step: "messaging_ok (mw_db w') \<and> messaging_evolves (mw_db w) (mw_db w')"
    by (rule acquire_step[OF ok r _ _ _ _ m(3) rd lm op a(1) _ _ t])
       (use a s1 in \<open>simp_all add: leased_def same_command_def\<close>)
  have "cl_message c = trim_outbox_message ?m'" "cl_attempt c = trim_delivery_attempt ?a"
    using cl at u by (auto simp: mk_claimed_def attempt_from_row_def Let_def split: if_splits)
  then show ?thesis
    using step by (intro that[OF t _ _ lm op]) (simp_all add: leased_def)
qed

text \<open>The claim \<open>c\<close> is held in the tables: its message is being processed under the open attempt it
  was handed out with.\<close>

definition claim_held :: "idb \<Rightarrow> claimed_outbox_message \<Rightarrow> bool" where
  "claim_held s c \<longleftrightarrow>
     (\<exists>m\<in>set (outbox s). \<exists>a\<in>set (outbox_delivery_attempts s).
        ob_status m = Out_processing \<and> attempt_open a \<and> lease_matches m a
        \<and> cl_message c = trim_outbox_message m \<and> cl_attempt c = trim_delivery_attempt a)"

definition due_status :: "outbox_message \<Rightarrow> bool" where
  "due_status m \<longleftrightarrow> ob_status m \<in> {Out_pending, Out_retry_scheduled}"

lemma claim_rows_Inr:
  assumes "messaging_ok (mw_db w)" and "set rows \<subseteq> set (outbox (mw_db w))"
    and "distinct (map ob_command_id rows)" and "\<forall>r\<in>set rows. due_status r"
    and "claim_rows E wid secs rows w = (Inr cs, w')"
  shows "messaging_ok (mw_db w') \<and> messaging_evolves (mw_db w) (mw_db w')
     \<and> map (\<lambda>c. ob_command_id (cl_message c)) cs = map ob_command_id rows
     \<and> (\<forall>c\<in>set cs. claim_held (mw_db w') c)
     \<and> set (outbox (mw_db w)) - set rows \<subseteq> set (outbox (mw_db w'))
     \<and> set (outbox_delivery_attempts (mw_db w)) \<subseteq> set (outbox_delivery_attempts (mw_db w'))"
  using assms
proof (induction rows arbitrary: w cs)
  case Nil
  then show ?case by (simp add: messaging_evolves_refl)
next
  case (Cons r rows)
  obtain c w1 cs' where run: "claim_row E wid secs r w = (Inr c, w1)"
      "claim_rows E wid secs rows w1 = (Inr cs', w')" and cs: "cs = c # cs'"
    using Cons.prems(5) by (auto simp: success_simps)
  have r: "r \<in> set (outbox (mw_db w))" "ob_status r \<in> {Out_pending, Out_retry_scheduled}"
    using Cons.prems(2,4) by (simp_all add: due_status_def)
  obtain m' a where w1: "mw_db w1 = (mw_db w)\<lparr>core := (core (mw_db w))\<lparr>outbox_messages :=
        replace_row r m' (outbox (mw_db w))\<rparr>,
      outbox_delivery_attempts := outbox_delivery_attempts (mw_db w) @ [a]\<rparr>"
    and m': "ob_command_id m' = ob_command_id r" "ob_status m' = Out_processing" "lease_matches m' a" "attempt_open a"
      "cl_message c = trim_outbox_message m'" "cl_attempt c = trim_delivery_attempt a"
    and ok1: "messaging_ok (mw_db w1)" "messaging_evolves (mw_db w) (mw_db w1)"
    by (rule claim_row_Inr[OF Cons.prems(1) r run(1)])
  have notin: "r \<notin> set rows" using Cons.prems(3) by auto
  have sub: "set rows \<subseteq> set (outbox (mw_db w1))"
    using Cons.prems(2) notin by (auto simp: w1 set_replace_row)
  have ih: "messaging_ok (mw_db w')" "messaging_evolves (mw_db w1) (mw_db w')"
    "map (\<lambda>c. ob_command_id (cl_message c)) cs' = map ob_command_id rows"
    "\<forall>c\<in>set cs'. claim_held (mw_db w') c"
    "set (outbox (mw_db w1)) - set rows \<subseteq> set (outbox (mw_db w'))"
    "set (outbox_delivery_attempts (mw_db w1)) \<subseteq> set (outbox_delivery_attempts (mw_db w'))"
    using Cons.IH[OF ok1(1) sub _ _ run(2)] Cons.prems(3,4) by simp_all
  have "m' \<notin> set rows" using Cons.prems(4) m'(2) by (auto simp: due_status_def)
  then have "m' \<in> set (outbox (mw_db w'))" using ih(5) r(1) by (auto simp: w1 set_replace_row)
  moreover have "a \<in> set (outbox_delivery_attempts (mw_db w'))" using ih(6) by (auto simp: w1)
  ultimately have "claim_held (mw_db w') c" using m' unfolding claim_held_def by blast
  moreover have "set (outbox (mw_db w)) - set (r # rows) \<subseteq> set (outbox (mw_db w'))"
    using ih(5) by (auto simp: w1 set_replace_row)
  ultimately show ?case
    using ih m'(1,5) messaging_evolves_trans[OF ok1(2) ih(2)] by (simp add: cs w1)
qed

lemma due_outbox_subset: "set (due_outbox clk rows) \<subseteq> set rows"
  by (auto simp: due_outbox_def dest: set_zip_rightD simp: enumerate_eq_zip)

lemma due_outbox_due:
  "m \<in> set (due_outbox clk rows) \<Longrightarrow> due_status m \<and> ob_attempts_in_cycle m < 8 \<and> (\<exists>i. ob_available_at m \<le> clk i)"
  by (auto simp: due_outbox_def due_status_def)

lemma distinct_due_outbox:
  assumes "distinct (map f rows)"
  shows "distinct (map f (due_outbox clk rows))"
proof -
  have "map (f \<circ> snd) (enumerate 0 rows) = map f (map snd (enumerate 0 rows))" by (simp only: map_map)
  also have "\<dots> = map f rows" by simp
  finally have "distinct (map (f \<circ> snd) (enumerate 0 rows))" using assms by simp
  then show ?thesis unfolding due_outbox_def map_map by (rule distinct_map_filter)
qed

lemma select_due_outbox_Inr:
  assumes "select_due_outbox E n w = (Inr rows, w1)" and "messaging_ok (mw_db w)"
  shows "mw_db w1 = mw_db w" "set rows \<subseteq> set (outbox (mw_db w))" "distinct (map ob_command_id rows)"
    "\<forall>r\<in>set rows. due_status r \<and> ob_attempts_in_cycle r < 8" "length rows \<le> nat n"
    "sorted (map due_key rows)"
proof -
  let ?due = "due_outbox (\<lambda>i. me_db_clock E (mw_reads w + i)) (outbox (mw_db w))"
  let ?sorted = "sort_key due_key ?due"
  let ?P = "\<lambda>m. \<not> me_locked E (mw_calls w) (ob_command_id m)"
  have rows: "rows = take (nat n) (filter ?P ?sorted)" and "mw_db w1 = mw_db w"
    using assms(1) by (auto simp: select_due_outbox_def Let_def)
  then show "mw_db w1 = mw_db w" by simp
  have sub: "set rows \<subseteq> set ?due"
    unfolding rows by (auto dest: in_set_takeD)
  then show "set rows \<subseteq> set (outbox (mw_db w))" using due_outbox_subset by blast
  show "\<forall>r\<in>set rows. due_status r \<and> ob_attempts_in_cycle r < 8"
    using sub due_outbox_due by blast
  have "distinct (map ob_command_id ?due)"
    by (rule distinct_due_outbox[OF messaging_okD(5)[OF assms(2)]])
  then have "distinct (map ob_command_id ?sorted)"
    by (simp add: distinct_map inj_on_def)
  then show "distinct (map ob_command_id rows)"
    unfolding rows by (simp add: take_map[symmetric] distinct_map_filter distinct_take)
  show "length rows \<le> nat n" by (simp add: rows)
  show "sorted (map due_key rows)"
    unfolding rows take_map[symmetric] by (intro sorted_wrt_take sorted_filter) simp
qed

lemma claim_body_Inr:
  assumes "messaging_ok (mw_db w)"
    and "bnd (select_due_outbox E n) (claim_rows E wid secs) w = (Inr cs, w')"
  shows "messaging_ok (mw_db w')" "messaging_evolves (mw_db w) (mw_db w')"
    "distinct (map (\<lambda>c. ob_command_id (cl_message c)) cs)" "length cs \<le> nat n"
    "\<forall>c\<in>set cs. claim_held (mw_db w') c"
proof -
  obtain rows w1 where sel: "select_due_outbox E n w = (Inr rows, w1)"
    and run: "claim_rows E wid secs rows w1 = (Inr cs, w')"
    using assms(2) by (auto simp: bnd_Inr)
  note s = select_due_outbox_Inr[OF sel assms(1)]
  have r: "messaging_ok (mw_db w') \<and> messaging_evolves (mw_db w1) (mw_db w')
     \<and> map (\<lambda>c. ob_command_id (cl_message c)) cs = map ob_command_id rows
     \<and> (\<forall>c\<in>set cs. claim_held (mw_db w') c)"
    using claim_rows_Inr[OF _ _ s(3) _ run] s assms(1) by auto
  then have len: "length cs = length rows" by (metis length_map)
  show "messaging_ok (mw_db w')" "messaging_evolves (mw_db w) (mw_db w')" using r s(1) by simp_all
  show "distinct (map (\<lambda>c. ob_command_id (cl_message c)) cs)" "length cs \<le> nat n"
    "\<forall>c\<in>set cs. claim_held (mw_db w') c"
    using r s(3,5) len by simp_all
qed

lemma keeps_claim_due_outbox:
  "messaging.lawful E \<Longrightarrow> messaging.keeps (claim_due_outbox E wid n secs)"
  unfolding claim_due_outbox_def
  by (intro messaging.keeps_bnd messaging.keeps_integration_call messaging.commitsI)
     (auto dest: claim_body_Inr)

end
