(* ===== verification/Aggregate_Changes.thy ===== *)
theory Aggregate_Changes
  imports Outbox_Store Case_Store
begin

text \<open>
  Changes of one aggregate by a messaging transaction, which locks the row, writes its columns directly
  and appends audit events. The lemmas say when such a change keeps the contract of the tables; they are
  shared by the finalizers of both directions and by the manual-review fallback.
\<close>

section \<open>Operations\<close>

lemma update_order_operations_one:
  assumes upd: "update_order_operations sel f s = Inr (1, t)" and ok: "db_ok s"
    and sel: "\<And>a b. sel a \<Longrightarrow> sel b \<Longrightarrow> op_operation_id a = op_operation_id b"
    and keys: "\<And>r. same_request r (f r)"
  obtains r where "r \<in> set (order_operations s)" "sel r"
    "t = s\<lparr>order_operations := replace_row r (f r) (order_operations s)\<rparr>" "db_ok t" "operation_row_ok (f r)"
proof -
  have len: "length (filter sel (order_operations s)) = 1"
    and t: "t = s\<lparr>order_operations := update_rows sel f (order_operations s)\<rparr>"
    and rows: "\<And>r. r \<in> set (order_operations s) \<Longrightarrow> sel r \<Longrightarrow> operation_row_ok (f r)"
    using upd by (auto simp: update_order_operations_def Let_def list_ex_iff split: if_splits)
  from len obtain r where r: "r \<in> set (order_operations s)" "sel r"
    "update_rows sel f (order_operations s) = replace_row r (f r) (order_operations s)" by (rule update_one_row)
  have "db_ok t"
    by (rule update_order_operations_ok[OF ok upd sel]) (simp_all add: keys[unfolded same_request_def])
  then show ?thesis using that[of r] r rows t by simp
qed

lemma operation_replace_contract:
  assumes s: "committed s" and r: "r \<in> set (order_operations s)"
    and t: "t = s\<lparr>order_operations := replace_row r r' (order_operations s),
                order_operation_events := order_operation_events s @ es\<rparr>" "db_ok t"
    and r': "same_request r r'" "op_version r < op_version r'" "lifecycle (op_status r) (op_status r')"
      "operation_readable r'"
    and es: "\<And>e. e \<in> set es \<Longrightarrow> oe_operation_id e = op_operation_id r \<and> operation_event_readable e"
      "replay_operation (op_status r) es = Some (op_status r')"
  shows "committed t \<and> evolves s t"
proof -
  have id: "op_operation_id r' = op_operation_id r" using r'(1) by (simp add: same_request_def)
  have "operations_audited t"
    unfolding operations_audited_def list_all_iff
  proof
    fix q
    assume "q \<in> set (order_operations t)"
    then consider (new) "q = r'" | (old) "q \<in> set (order_operations s)" "q \<noteq> r"
      by (auto simp: t(1) set_replace_row split: if_splits)
    then show "replay_operation Pending_confirmation (operation_trail t (op_operation_id q)) = Some (op_status q)"
    proof cases
      case new
      have "filter (\<lambda>e. oe_operation_id e = op_operation_id r) es = es" using es(1) by simp
      then show ?thesis
        using committedD(3)[OF s] r es(2) new id
        by (auto simp: t(1) operations_audited_def list_all_iff operation_trail_append replay_operation_append)
    next
      case old
      then have "op_operation_id q \<noteq> op_operation_id r"
        using distinct_map_eqD[OF committedD(5)[OF s] _ r] by blast
      then have "filter (\<lambda>e. oe_operation_id e = op_operation_id q) es = []"
        using es(1) by (auto simp: filter_empty_conv)
      then show ?thesis
        using committedD(3)[OF s] old
        by (simp add: t(1) operations_audited_def list_all_iff operation_trail_append)
    qed
  qed
  moreover have "readable t"
    using committedD(2)[OF s] r'(4) es(1) by (auto simp: readable_def list_all_iff t(1) set_replace_row)
  moreover have "cases_audited t" "commands_keyed t"
    using committedD(4,7)[OF s] by (simp_all add: t(1))
  ultimately have "committed t" using t(2) by (simp add: committed_def)
  moreover have "evolves s t"
    using r' by (simp add: evolves_def t(1) rows_evolve_refl rows_evolve_replace operation_advances_def)
  ultimately show ?thesis ..
qed

text \<open>A readable row with new review, link, reference, status and version columns.\<close>

definition moved :: "order_operation \<Rightarrow> order_operation \<Rightarrow> bool" where
  "moved r r' \<longleftrightarrow>
     r' = r\<lparr>op_requires_manual_review := op_requires_manual_review r',
           op_review_case_type := op_review_case_type r', op_review_priority := op_review_priority r',
           op_support_case_id := op_support_case_id r', op_provider_reference := op_provider_reference r',
           op_status := op_status r', op_updated_at := op_updated_at r', op_version := op_version r'\<rparr>"

lemma moved_same_request:
  assumes "moved r r'"
  shows "same_request r r'"
  by (subst assms[unfolded moved_def]) (simp add: same_request_def)

lemma moved_readable:
  assumes "operation_readable r" and m: "moved r r'" and row: "operation_row_ok r'"
    and ref: "non_empty_option (map_option trim (op_provider_reference r'))"
  shows "operation_readable r'"
proof -
  let ?x = "trim_order_operation r" and ?y = "trim_order_operation r'"
  have v: "valid_order_operation ?x" using assms(1) by (simp add: operation_readable_def)
  have y: "?y = ?x\<lparr>op_requires_manual_review := op_requires_manual_review r',
      op_review_case_type := op_review_case_type r', op_review_priority := op_review_priority r',
      op_support_case_id := op_support_case_id r',
      op_provider_reference := map_option trim (op_provider_reference r'),
      op_status := op_status r', op_updated_at := op_updated_at r', op_version := op_version r'\<rparr>"
    by (subst (1) m[unfolded moved_def]) (simp add: trim_order_operation_def)
  have req: "request_of_operation ?y = request_of_operation ?x"
    by (simp add: y request_of_operation_def)
  have at: "op_created_at r' = op_created_at r"
    using moved_same_request[OF m] by (simp add: same_request_def)
  have "mk_order_operation_request (request_of_operation ?x) = Inr q \<Longrightarrow> validate_persisted_operation ?y = Inr ()" for q
    using row at unfolding validate_persisted_operation_def req operation_row_ok_def
    by (simp add: y split: if_splits)
  moreover obtain q where "mk_order_operation_request (request_of_operation ?x) = Inr q"
    using v by (auto simp: valid_order_operation_def validate_persisted_operation_def split: sum.splits)
  ultimately have "validate_persisted_operation ?y = Inr ()" by blast
  moreover have "1 \<le> op_version r'" using row by (simp add: operation_row_ok_def)
  ultimately show ?thesis
    using v ref unfolding operation_readable_def valid_order_operation_def by (simp add: y)
qed

section \<open>Cases\<close>

lemma update_support_cases_one:
  assumes upd: "update_support_cases sel f s = Inr (1, t)" and ok: "db_ok s"
    and sel: "\<And>a b. sel a \<Longrightarrow> sel b \<Longrightarrow> cs_case_id a = cs_case_id b"
    and key: "\<And>r. cs_case_id (f r) = cs_case_id r"
  obtains r where "r \<in> set (support_cases s)" "sel r"
    "t = s\<lparr>support_cases := replace_row r (f r) (support_cases s)\<rparr>" "db_ok t" "case_row_ok (f r)"
proof -
  have len: "length (filter sel (support_cases s)) = 1"
    and t: "t = s\<lparr>support_cases := update_rows sel f (support_cases s)\<rparr>"
    and rows: "\<And>r. r \<in> set (support_cases s) \<Longrightarrow> sel r \<Longrightarrow> case_row_ok (f r)"
    using upd by (auto simp: update_support_cases_def Let_def list_ex_iff split: if_splits option.splits)
  from len obtain r where r: "r \<in> set (support_cases s)" "sel r"
    "update_rows sel f (support_cases s) = replace_row r (f r) (support_cases s)" by (rule update_one_row)
  have "db_ok t" by (rule update_support_cases_ok[OF ok upd sel key])
  then show ?thesis using that[of r] r rows t by simp
qed

lemma case_replace_contract:
  assumes s: "committed s" and r: "r \<in> set (support_cases s)"
    and t: "t = s\<lparr>support_cases := replace_row r r' (support_cases s),
                support_case_events := support_case_events s @ es\<rparr>" "db_ok t"
    and r': "case_advances r r'" "cs_case_id r' = cs_case_id r" "case_readable r'"
    and es: "\<And>e. e \<in> set es \<Longrightarrow> ce_case_id e = cs_case_id r \<and> case_event_readable e"
      "replay_case (case_progress_of r) es = Some (case_progress_of r')"
  shows "committed t \<and> evolves s t"
proof -
  have "cases_audited t"
    unfolding cases_audited_def list_all_iff
  proof
    fix q
    assume "q \<in> set (support_cases t)"
    then consider (new) "q = r'" | (old) "q \<in> set (support_cases s)" "q \<noteq> r"
      by (auto simp: t(1) set_replace_row split: if_splits)
    then show "replay_case (Open, None) (case_trail t (cs_case_id q)) = Some (case_progress_of q)"
    proof cases
      case new
      have "filter (\<lambda>e. ce_case_id e = cs_case_id r) es = es" using es(1) by simp
      then show ?thesis
        using committedD(4)[OF s] r es(2) new r'(2)
        by (auto simp: t(1) cases_audited_def list_all_iff case_trail_append replay_case_append)
    next
      case old
      then have "cs_case_id q \<noteq> cs_case_id r"
        using distinct_map_eqD[OF committedD(6)[OF s] _ r] by blast
      then have "filter (\<lambda>e. ce_case_id e = cs_case_id q) es = []"
        using es(1) by (auto simp: filter_empty_conv)
      then show ?thesis
        using committedD(4)[OF s] old by (simp add: t(1) cases_audited_def list_all_iff case_trail_append)
    qed
  qed
  moreover have "readable t"
    using committedD(2)[OF s] r'(3) es(1) by (auto simp: readable_def list_all_iff t(1) set_replace_row)
  moreover have "operations_audited t" "commands_keyed t"
    using committedD(3,7)[OF s] by (simp_all add: t(1))
  ultimately have "committed t" using t(2) by (simp add: committed_def)
  moreover have "evolves s t"
    using r'(1) by (simp add: evolves_def t(1) rows_evolve_refl rows_evolve_replace)
  ultimately show ?thesis ..
qed

text \<open>A readable case with another priority, more reasons, a later time and the next version.\<close>

definition escalated :: "support_case \<Rightarrow> support_case \<Rightarrow> bool" where
  "escalated c c' \<longleftrightarrow>
     c' = c\<lparr>cs_priority := cs_priority c', cs_reason_codes := cs_reason_codes c',
           cs_updated_at := cs_updated_at c', cs_version := cs_version c'\<rparr>
     \<and> set (cs_reason_codes c) \<subseteq> set (cs_reason_codes c') \<and> cs_version c < cs_version c'"

lemma escalatedD:
  assumes "escalated c c'"
  shows "cs_case_id c' = cs_case_id c" "cs_status c' = cs_status c" "same_origin c c'"
    "cs_assigned_agent_id c' = cs_assigned_agent_id c" "cs_risk_categories c' = cs_risk_categories c"
    "case_progress_of c' = case_progress_of c" "case_advances c c'"
proof -
  have e: "c' = c\<lparr>cs_priority := cs_priority c', cs_reason_codes := cs_reason_codes c',
      cs_updated_at := cs_updated_at c', cs_version := cs_version c'\<rparr>"
    and le: "set (cs_reason_codes c) \<subseteq> set (cs_reason_codes c')" "cs_version c < cs_version c'"
    using assms by (simp_all add: escalated_def)
  show id: "cs_case_id c' = cs_case_id c" and st: "cs_status c' = cs_status c" and origin: "same_origin c c'"
    and ag: "cs_assigned_agent_id c' = cs_assigned_agent_id c"
    and cat: "cs_risk_categories c' = cs_risk_categories c"
    by (subst e, simp add: same_origin_def)+
  show "case_progress_of c' = case_progress_of c" using st ag by (simp add: case_progress_of_def)
  show "case_advances c c'" using origin cat le by (simp add: case_advances_def)
qed

lemma escalated_readable:
  assumes "case_readable c" and e: "escalated c c'" and row: "case_row_ok c'"
  shows "case_readable c'"
proof -
  let ?x = "trim_support_case c"
  have y: "trim_support_case c' = ?x\<lparr>cs_priority := cs_priority c', cs_reason_codes := cs_reason_codes c',
      cs_updated_at := cs_updated_at c', cs_version := cs_version c'\<rparr>"
    by (subst (1) e[unfolded escalated_def, THEN conjunct1]) (simp add: trim_support_case_def)
  have at: "cs_created_at c' = cs_created_at c"
    using escalatedD(3)[OF e] by (simp add: same_origin_def)
  have r: "cs_reason_codes c' \<noteq> []" "1 \<le> cs_version c'" "cs_created_at c \<le> cs_updated_at c'"
    using row at by (simp_all add: case_row_ok_def)
  moreover have "cs_created_at ?x = cs_created_at c" by (simp add: trim_support_case_def)
  ultimately have "validate_lifecycle_fields (trim_support_case c') = Inr ()"
    using assms(1) unfolding case_readable_def valid_support_case_def validate_lifecycle_fields_def
    by (auto simp: y split: if_splits)
  then show ?thesis
    using assms(1) r unfolding case_readable_def valid_support_case_def by (simp add: y)
qed

end
