(* ===== verification/Finalization.thy ===== *)
theory Finalization
  imports Aggregate_Changes
begin

text \<open>
  Atomic finalization of a dispatched command (\<^verbatim>\<open>src/agent/integrations/finalization.py\<close>): under the
  worker's lease, move the aggregate, finish the attempt and close the outbox message, all in one
  transaction.
\<close>

section \<open>Fencing\<close>

text \<open>\<^verbatim>\<open>_lock_claimed_command\<close>: the persisted lease, cycle and attempt must still be the claimed
  ones, and the lease must not have expired.\<close>

definition message_fenced :: "claimed_outbox_message \<Rightarrow> instant \<Rightarrow> outbox_message \<Rightarrow> bool" where
  "message_fenced c now m \<longleftrightarrow>
     ob_status m = Out_processing
     \<and> ob_delivery_cycle m = ob_delivery_cycle (cl_message c)
     \<and> ob_attempts_in_cycle m = ob_attempts_in_cycle (cl_message c)
     \<and> ob_lease_id m = ob_lease_id (cl_message c)
     \<and> ob_lease_owner m = ob_lease_owner (cl_message c)
     \<and> (case ob_lease_expires_at m of None \<Rightarrow> False | Some x \<Rightarrow> now < x)"

definition attempt_fenced :: "claimed_outbox_message \<Rightarrow> delivery_attempt \<Rightarrow> bool" where
  "attempt_fenced c a \<longleftrightarrow>
     at_delivery_cycle a = ob_delivery_cycle (cl_message c)
     \<and> at_delivery_cycle a = at_delivery_cycle (cl_attempt c)
     \<and> at_attempt_number a = ob_attempts_in_cycle (cl_message c)
     \<and> at_attempt_number a = at_attempt_number (cl_attempt c)
     \<and> Some (at_lease_id a) = ob_lease_id (cl_message c)
     \<and> Some (at_worker_id a) = ob_lease_owner (cl_message c)"

definition lock_claimed_command ::
  "menvironment \<Rightarrow> claimed_outbox_message \<Rightarrow> (mworld, instant) prog" where
  "lock_claimed_command E c =
     bnd (fetch (\<lambda>s. find (\<lambda>m. ob_command_id m = ob_command_id (cl_message c)) (outbox s))) (\<lambda>message.
     bnd (clock_timestamp E) (\<lambda>database_now.
       case message of
         None \<Rightarrow> throw LeaseConflictError
       | Some m \<Rightarrow>
          bnd (require (message_fenced c database_now m) LeaseConflictError) (\<lambda>_.
          bnd (fetch (\<lambda>s. find (\<lambda>a. at_attempt_id a = at_attempt_id (cl_attempt c)
                 \<and> at_command_id a = ob_command_id (cl_message c) \<and> at_finished_at a = None)
               (outbox_delivery_attempts s))) (\<lambda>attempt.
            case attempt of
              None \<Rightarrow> throw LeaseConflictError
            | Some a \<Rightarrow>
               bnd (require (attempt_fenced c a) LeaseConflictError) (\<lambda>_.
                 ret (max database_now (max (ob_created_at m) (max (ob_updated_at m) (at_started_at a)))))))))"

section \<open>Technical-review case\<close>

definition finalization_key :: "claimed_outbox_message \<Rightarrow> string \<Rightarrow> string" where
  "finalization_key c suffix =
     ''provider-command:'' @ uuid_str (ob_command_id (cl_message c)) @ '':cycle:''
       @ nat_str (nat (ob_delivery_cycle (cl_message c))) @ '':'' @ suffix"

text \<open>\<^verbatim>\<open>INSERT ... ON CONFLICT (idempotency_key) DO NOTHING\<close>.\<close>

definition insert_case_event_once :: "support_case_event \<Rightarrow> db \<Rightarrow> sql_error + unit \<times> db" where
  "insert_case_event_once e s =
     (if case_event_row_ok e \<and> taken ce_idempotency_key (support_case_events s) e
         \<and> \<not> taken ce_event_id (support_case_events s) e
      then Inr ((), s)
      else map_sum id (Pair ()) (insert_case_event e s))"

definition case_now :: "instant \<Rightarrow> support_case \<Rightarrow> instant" where
  "case_now t c = max t (max (cs_updated_at c) (cs_created_at c))"

definition blank_case_event :: "uuid \<Rightarrow> string \<Rightarrow> uuid \<Rightarrow> case_event_type \<Rightarrow> string \<Rightarrow> string \<Rightarrow> instant
    \<Rightarrow> support_case_event" where
  "blank_case_event event_id key case_id event_type customer_id tenant_id created_at =
     \<lparr>ce_event_id = event_id, ce_idempotency_key = key, ce_case_id = case_id, ce_event_type = event_type,
      ce_source_message_id = None, ce_order_id = None, ce_risk_level = None, ce_risk_categories = [],
      ce_reason_codes = [], ce_triggering_message_excerpt = [], ce_previous_priority = None,
      ce_current_priority = None, ce_previous_status = None, ce_current_status = None,
      ce_on_hold_reason = None, ce_previous_assigned_agent_id = None,
      ce_current_assigned_agent_id = None, ce_provider_command_id = None,
      ce_provider_command_status = None, ce_provider_reference = None,
      ce_provider_redrive_reason_code = None, ce_actor = None, ce_customer_id = customer_id,
      ce_tenant_id = tenant_id, ce_created_at = created_at\<rparr>"

definition blank_operation_event :: "uuid \<Rightarrow> string \<Rightarrow> order_operation \<Rightarrow> operation_event_type \<Rightarrow> string
    \<Rightarrow> instant \<Rightarrow> order_operation_event" where
  "blank_operation_event event_id key x event_type actor created_at =
     \<lparr>oe_event_id = event_id, oe_idempotency_key = key, oe_operation_id = op_operation_id x,
      oe_event_type = event_type, oe_previous_status = None, oe_current_status = None,
      oe_provider_reference = None, oe_support_case_id = None, oe_actor = actor,
      oe_customer_id = op_customer_id x, oe_tenant_id = op_tenant_id x, oe_created_at = created_at\<rparr>"

definition technical_review_case :: "uuid \<Rightarrow> order_operation \<Rightarrow> instant \<Rightarrow> support_case" where
  "technical_review_case case_id x now =
     \<lparr>cs_case_id = case_id, cs_thread_id = op_thread_id x,
      cs_source_message_id = op_source_message_id x, cs_order_id = Some (op_order_id x),
      cs_case_type = Order_operation_review, cs_priority = P1, cs_status = Open, cs_risk_level = None,
      cs_risk_categories = [], cs_reason_codes = [Provider_delivery_failed],
      cs_display_reason = ''Provider delivery failed and requires human review.'',
      cs_triggering_message_excerpt = op_request_excerpt x, cs_on_hold_reason = None,
      cs_created_at = now, cs_updated_at = now, cs_version = 1, cs_customer_id = op_customer_id x,
      cs_tenant_id = op_tenant_id x, cs_created_by = ''system'', cs_assigned_agent_id = None\<rparr>"

definition active_review_case :: "order_operation \<Rightarrow> idb \<Rightarrow> support_case option" where
  "active_review_case x s =
     find (\<lambda>c. cs_tenant_id c = op_tenant_id x \<and> cs_thread_id c = op_thread_id x
         \<and> cs_case_type c = Order_operation_review \<and> case_active c) (support_cases (core s))"

definition reuse_review_case ::
  "menvironment \<Rightarrow> claimed_outbox_message \<Rightarrow> order_operation \<Rightarrow> instant \<Rightarrow> support_case \<Rightarrow> (mworld, uuid) prog" where
  "reuse_review_case E c x now existing =
     bnd (execute (on_core (update_support_cases
            (\<lambda>q. cs_case_id q = cs_case_id existing \<and> cs_version q = cs_version existing)
            (\<lambda>q. q\<lparr>cs_priority := P1,
                   cs_reason_codes := dedup (cs_reason_codes existing @ [Provider_delivery_failed]),
                   cs_updated_at := case_now now q, cs_version := cs_version existing + 1\<rparr>)))) (\<lambda>affected.
     bnd (require (affected = 1) LeaseConflictError) (\<lambda>_.
     bnd (uuid4 E) (\<lambda>event_id.
     bnd (lift (mk_support_case_event
            ((blank_case_event event_id (finalization_key c ''technical-review'') (cs_case_id existing)
                Trigger_appended (cs_customer_id existing) (cs_tenant_id existing) now)
              \<lparr>ce_source_message_id := Some (op_source_message_id x),
               ce_order_id := Some (op_order_id x), ce_reason_codes := [Provider_delivery_failed],
               ce_triggering_message_excerpt := op_request_excerpt x,
               ce_previous_priority := Some (cs_priority existing), ce_current_priority := Some P1,
               ce_current_status := Some (cs_status existing), ce_actor := Some ''system''\<rparr>))) (\<lambda>event.
     bnd (execute (on_core (insert_case_event_once event))) (\<lambda>_.
       ret (cs_case_id existing))))))"

definition create_review_case ::
  "menvironment \<Rightarrow> claimed_outbox_message \<Rightarrow> order_operation \<Rightarrow> instant \<Rightarrow> (mworld, uuid) prog" where
  "create_review_case E c x now =
     bnd (uuid4 E) (\<lambda>case_id.
     bnd (lift (mk_support_case (technical_review_case case_id x now))) (\<lambda>cs.
     bnd (uuid4 E) (\<lambda>event_id.
     bnd (lift (mk_support_case_event
            ((blank_case_event event_id (finalization_key c ''technical-review'') (cs_case_id cs)
                Case_created (cs_customer_id cs) (cs_tenant_id cs) now)
              \<lparr>ce_source_message_id := Some (cs_source_message_id cs), ce_order_id := cs_order_id cs,
               ce_reason_codes := cs_reason_codes cs,
               ce_triggering_message_excerpt := cs_triggering_message_excerpt cs,
               ce_current_priority := Some (cs_priority cs), ce_current_status := Some (cs_status cs)\<rparr>)))
       (\<lambda>event.
     bnd (execute (on_core (\<lambda>s. map_sum id (Pair ()) (insert_support_case cs s)))) (\<lambda>_.
     bnd (execute (on_core (\<lambda>s. map_sum id (Pair ()) (insert_case_event event s)))) (\<lambda>_.
       ret case_id))))))"

definition ensure_technical_review_case ::
  "menvironment \<Rightarrow> claimed_outbox_message \<Rightarrow> order_operation \<Rightarrow> instant \<Rightarrow> (mworld, uuid) prog" where
  "ensure_technical_review_case E c x now =
     bnd (fetch (active_review_case x)) (\<lambda>row.
       case row of
         Some r \<Rightarrow> bnd (lift (mk_support_case r)) (reuse_review_case E c x now)
       | None \<Rightarrow> create_review_case E c x now)"

section \<open>The aggregates\<close>

definition finalized_status ::
  "outbox_delivery_status \<Rightarrow> provider_failure_kind option \<Rightarrow> operation_record_status" where
  "finalized_status target failure_kind =
     (if target = Out_published then Submitted
      else if failure_kind = Some Provider_rejection then Rejected
      else Manual_review)"

definition operation_now :: "instant \<Rightarrow> order_operation \<Rightarrow> instant" where
  "operation_now t x = max t (max (op_updated_at x) (op_created_at x))"

definition set_finalized_columns ::
  "order_operation \<Rightarrow> operation_record_status \<Rightarrow> uuid option \<Rightarrow> string option \<Rightarrow> instant
     \<Rightarrow> order_operation \<Rightarrow> order_operation" where
  "set_finalized_columns x new_status support_case_id reference now r =
     r\<lparr>op_requires_manual_review := (new_status = Manual_review \<or> op_requires_manual_review x),
       op_review_case_type :=
         (if new_status = Manual_review then Some Rec_order_operation_review else op_review_case_type x),
       op_review_priority := (if new_status = Manual_review then Some P1 else op_review_priority x),
       op_support_case_id := support_case_id, op_provider_reference := reference,
       op_status := new_status, op_updated_at := operation_now now r, op_version := op_version x + 1\<rparr>"

definition insert_event_stmt :: "order_operation_event \<Rightarrow> (mworld, unit) prog" where
  "insert_event_stmt e = execute (on_core (\<lambda>s. map_sum id (Pair ()) (insert_operation_event e s)))"

text \<open>The case the operation is linked to, and the event that records the link, when it goes to manual
  review.\<close>

definition review_case_for ::
  "menvironment \<Rightarrow> claimed_outbox_message \<Rightarrow> order_operation \<Rightarrow> operation_record_status \<Rightarrow> instant
     \<Rightarrow> (mworld, uuid option) prog" where
  "review_case_for E c x new_status now =
     (if new_status = Manual_review \<and> op_support_case_id x = None
      then bnd (ensure_technical_review_case E c x now) (\<lambda>u. ret (Some u))
      else ret (op_support_case_id x))"

definition record_attachment ::
  "menvironment \<Rightarrow> claimed_outbox_message \<Rightarrow> order_operation \<Rightarrow> operation_record_status \<Rightarrow> uuid option
     \<Rightarrow> instant \<Rightarrow> (mworld, unit) prog" where
  "record_attachment E c x new_status support_case_id now =
     (if new_status = Manual_review \<and> support_case_id \<noteq> None
      then bnd (uuid4 E) (\<lambda>event_id.
           bnd (lift (mk_order_operation_event
                  ((blank_operation_event event_id (finalization_key c ''case-attached'') x
                      Support_case_attached ''system'' now)
                    \<lparr>oe_support_case_id := support_case_id\<rparr>))) insert_event_stmt)
      else ret ())"

definition finalize_operation ::
  "menvironment \<Rightarrow> claimed_outbox_message \<Rightarrow> outbox_delivery_status \<Rightarrow> provider_command_result option
     \<Rightarrow> provider_failure_kind option \<Rightarrow> instant \<Rightarrow> (mworld, unit) prog" where
  "finalize_operation E c target provider_result failure_kind now =
     bnd (fetch (\<lambda>s. find (\<lambda>x. op_operation_id x = ob_aggregate_id (cl_message c))
            (order_operations (core s)))) (\<lambda>row.
     case row of
       None \<Rightarrow> throw (ValueError ''provider command operation was not found'')
     | Some r \<Rightarrow>
        bnd (lift (mk_order_operation r)) (\<lambda>x.
        bnd (require (op_tenant_id x = ob_tenant_id (cl_message c) \<and> op_status x = Queued)
               (ValueError ''provider command operation association is invalid'')) (\<lambda>_.
        let new_status = finalized_status target failure_kind;
            reference = (case provider_result of
                           Some p \<Rightarrow> pr_provider_reference p | None \<Rightarrow> op_provider_reference x) in
        bnd (review_case_for E c x new_status now) (\<lambda>support_case_id.
        bnd (execute (on_core (update_order_operations
               (\<lambda>q. op_operation_id q = op_operation_id x \<and> op_version q = op_version x)
               (set_finalized_columns x new_status support_case_id reference now)))) (\<lambda>affected.
        bnd (require (affected = 1) LeaseConflictError) (\<lambda>_.
        bnd (uuid4 E) (\<lambda>event_id.
        bnd (lift (mk_order_operation_event
               ((blank_operation_event event_id (finalization_key c ''status'') x Status_changed ''system'' now)
                 \<lparr>oe_previous_status := Some (op_status x), oe_current_status := Some new_status,
                  oe_provider_reference := reference\<rparr>))) (\<lambda>event.
        bnd (insert_event_stmt event) (\<lambda>_.
          record_attachment E c x new_status support_case_id now)))))))))"

definition add_failure_reason ::
  "outbox_delivery_status \<Rightarrow> support_case \<Rightarrow> instant \<Rightarrow> (mworld, unit) prog" where
  "add_failure_reason target k now =
     (if target = Out_dead \<and> Provider_delivery_failed \<notin> set (cs_reason_codes k)
      then bnd (execute (on_core (update_support_cases
                  (\<lambda>q. cs_case_id q = cs_case_id k \<and> cs_version q = cs_version k)
                  (\<lambda>q. q\<lparr>cs_reason_codes := cs_reason_codes k @ [Provider_delivery_failed],
                         cs_updated_at := case_now now q, cs_version := cs_version k + 1\<rparr>)))) (\<lambda>affected.
           require (affected = 1) LeaseConflictError)
      else ret ())"

definition finalize_case ::
  "menvironment \<Rightarrow> claimed_outbox_message \<Rightarrow> outbox_delivery_status \<Rightarrow> provider_command_result option
     \<Rightarrow> instant \<Rightarrow> (mworld, unit) prog" where
  "finalize_case E c target provider_result now =
     bnd (fetch (\<lambda>s. find (\<lambda>k. cs_case_id k = ob_aggregate_id (cl_message c)) (support_cases (core s)))) (\<lambda>row.
     case row of
       None \<Rightarrow> throw (ValueError ''provider command case was not found'')
     | Some r \<Rightarrow>
        bnd (lift (mk_support_case r)) (\<lambda>k.
        bnd (require (cs_tenant_id k = ob_tenant_id (cl_message c) \<and> cs_case_type k = Delivery_investigation)
               (ValueError ''provider command case association is invalid'')) (\<lambda>_.
        bnd (add_failure_reason target k now) (\<lambda>_.
        bnd (uuid4 E) (\<lambda>event_id.
        bnd (lift (mk_support_case_event
               ((blank_case_event event_id
                   (finalization_key c (if target = Out_published then ''accepted'' else ''rejected''))
                   (cs_case_id k) Provider_update (cs_customer_id k) (cs_tenant_id k) now)
                 \<lparr>ce_provider_command_id := Some (ob_command_id (cl_message c)),
                  ce_provider_command_status :=
                    Some (if target = Out_published then Exec_accepted else Exec_rejected),
                  ce_provider_reference := Option.bind provider_result pr_provider_reference,
                  ce_actor := Some ''system''\<rparr>))) (\<lambda>event.
          execute (on_core (\<lambda>s. map_sum id (Pair ()) (insert_case_event event s)))))))))"

section \<open>The finalizer\<close>

definition finalize_outcome ::
  "outbox_delivery_status \<Rightarrow> provider_failure_kind option \<Rightarrow> delivery_attempt_outcome" where
  "finalize_outcome target failure_kind =
     (if target = Out_published then Att_accepted
      else if failure_kind = Some Provider_rejection then Att_provider_rejected
      else Att_terminal_failure)"

definition finalize ::
  "menvironment \<Rightarrow> claimed_outbox_message \<Rightarrow> outbox_delivery_status \<Rightarrow> provider_command_result option
     \<Rightarrow> provider_failure_kind option \<Rightarrow> string option \<Rightarrow> string option \<Rightarrow> (mworld, unit) prog" where
  "finalize E c target provider_result failure_kind error_code error_message =
     (case (ob_lease_id (cl_message c), ob_lease_owner (cl_message c)) of
        (Some lease_id, Some lease_owner) \<Rightarrow>
          integration_call E
            (bnd (lock_claimed_command E c) (\<lambda>now.
             bnd (if ob_aggregate_type (cl_message c) = Agg_order_operation
                  then finalize_operation E c target provider_result failure_kind now
                  else finalize_case E c target provider_result now) (\<lambda>_.
               finish_and_transition (at_attempt_id (cl_attempt c)) (ob_command_id (cl_message c))
                 lease_id lease_owner target now
                 \<lparr>ar_outcome = finalize_outcome target failure_kind, ar_failure_kind = failure_kind,
                  ar_http_status = None,
                  ar_provider_operation_id = Option.bind provider_result pr_provider_operation_id,
                  ar_provider_reference = Option.bind provider_result pr_provider_reference,
                  ar_safe_error_code = error_code, ar_safe_error_message = error_message,
                  ar_retry_after_seconds = None, ar_next_available_at = None\<rparr>
                 \<lparr>tn_available_at = None,
                  tn_published_at = (if target = Out_published then Some now else None),
                  tn_dead_at = (if target = Out_dead then Some now else None),
                  tn_attempts_in_cycle = None, tn_last_failure_kind = failure_kind,
                  tn_last_error_code = error_code, tn_last_error_message = error_message\<rparr>)))
      | _ \<Rightarrow> throw AssertionError)"

definition finalizer_accepted ::
  "menvironment \<Rightarrow> claimed_outbox_message \<Rightarrow> provider_command_result \<Rightarrow> (mworld, unit) prog" where
  "finalizer_accepted E c result = finalize E c Out_published (Some result) None None None"

definition finalizer_rejected ::
  "menvironment \<Rightarrow> claimed_outbox_message \<Rightarrow> provider_command_result \<Rightarrow> (mworld, unit) prog" where
  "finalizer_rejected E c result =
     finalize E c Out_dead (Some result) (Some Provider_rejection) (Some ''provider_rejected'')
       (Some ''Provider rejected the command.'')"

definition finalizer_terminal_failure ::
  "menvironment \<Rightarrow> claimed_outbox_message \<Rightarrow> provider_failure_kind \<Rightarrow> string option \<Rightarrow> string option
     \<Rightarrow> (mworld, unit) prog" where
  "finalizer_terminal_failure E c failure_kind error_code error_message =
     finalize E c Out_dead None (Some failure_kind) error_code error_message"

section \<open>The contract\<close>

lemma on_core_Inr: "on_core f s = Inr (x, s') \<longleftrightarrow> (\<exists>d. f (core s) = Inr (x, d) \<and> s' = s\<lparr>core := d\<rparr>)"
  by (auto simp: on_core_def split: sum.splits)

lemma map_sum_Pair_Inr: "map_sum id (Pair ()) r = Inr (u, t) \<longleftrightarrow> r = Inr t"
  by (cases r) auto

lemmas statement_simps = success_simps on_core_Inr map_sum_Pair_Inr insert_event_stmt_def

text \<open>What the constructors of events keep.\<close>

lemma mk_support_case_eventD:
  assumes "mk_support_case_event e = Inr f"
  shows "case_event_readable f" "ce_case_id f = ce_case_id e" "ce_event_type f = ce_event_type e"
    "ce_current_status f = ce_current_status e"
proof -
  have "f = trim_support_case_event e" "valid_support_case_event f"
    using assms unfolding mk_support_case_event_Inr by blast+
  then show "case_event_readable f" "ce_case_id f = ce_case_id e" "ce_event_type f = ce_event_type e"
    "ce_current_status f = ce_current_status e"
    by (simp_all add: case_event_readable_def) (simp_all add: trim_support_case_event_def)
qed

lemma mk_order_operation_eventD:
  assumes "mk_order_operation_event e = Inr f"
  shows "operation_event_readable f" "oe_operation_id f = oe_operation_id e" "oe_event_type f = oe_event_type e"
    "oe_previous_status f = oe_previous_status e" "oe_current_status f = oe_current_status e"
    "non_empty_option (map_option trim (oe_provider_reference e))"
proof -
  have f: "f = trim_order_operation_event e" "valid_order_operation_event f"
    using assms unfolding mk_order_operation_event_Inr by blast+
  then show "operation_event_readable f" "oe_operation_id f = oe_operation_id e" "oe_event_type f = oe_event_type e"
    "oe_previous_status f = oe_previous_status e" "oe_current_status f = oe_current_status e"
    by (simp_all add: operation_event_readable_def)
  have "oe_provider_reference f = map_option trim (oe_provider_reference e)"
    by (simp add: f(1) trim_order_operation_event_def)
  then show "non_empty_option (map_option trim (oe_provider_reference e))"
    using f(2) by (simp add: valid_order_operation_event_def)
qed

text \<open>A step that changes cases only: the operations and the outbox stay as they are.\<close>

definition case_step :: "idb \<Rightarrow> idb \<Rightarrow> bool" where
  "case_step s t \<longleftrightarrow>
     messaging_ok t \<and> messaging_evolves s t \<and> order_operations (core t) = order_operations (core s)
     \<and> order_operation_events (core t) = order_operation_events (core s) \<and> outbox t = outbox s"

lemma case_stepI:
  assumes "messaging_ok s" and "committed d \<and> evolves (core s) d"
    and "order_operations d = order_operations (core s)"
      "order_operation_events d = order_operation_events (core s)" "outbox_messages d = outbox s"
  shows "case_step s (s\<lparr>core := d\<rparr>)"
  using core_step[OF assms(1) _ _ assms(5)] assms by (simp add: case_step_def)

lemma case_read_row:
  assumes "committed d" and "r \<in> set (support_cases d)" and "q \<in> set (support_cases d)"
    and "cs_case_id q = cs_case_id (trim_support_case r)"
  shows "q = r"
  using distinct_map_eqD[OF committedD(6)[OF assms(1)] assms(3,2)] assms(4) by (simp add: trim_support_case_sel)

lemma insert_case_event_once_Inr:
  assumes "insert_case_event_once e s = Inr (u, t)" and "db_ok s"
  obtains es where "t = s\<lparr>support_case_events := support_case_events s @ es\<rparr>" "es = [] \<or> es = [e]" "db_ok t"
proof (cases "case_event_row_ok e \<and> taken ce_idempotency_key (support_case_events s) e
    \<and> \<not> taken ce_event_id (support_case_events s) e")
  case True
  then have "t = s" using assms(1) by (simp add: insert_case_event_once_def)
  then show ?thesis using that[of "[]"] assms(2) by simp
next
  case False
  then have "insert_case_event e s = Inr t"
    using assms(1) by (auto simp: insert_case_event_once_def map_sum_Pair_Inr)
  then show ?thesis using that[of "[e]"] insert_case_event_ok[OF assms(2)] by (simp add: insert_case_event_Inr)
qed

text \<open>The two ways a transaction escalates to a case: an update of one that exists, with a trigger
  event, and a new one with its creation event.\<close>

lemma escalate_case_step:
  assumes ok: "messaging_ok s" and r: "r \<in> set (support_cases (core s))" "mk_support_case r = Inr k"
    and up: "update_support_cases (\<lambda>q. cs_case_id q = cs_case_id k \<and> cs_version q = cs_version k) f (core s) = Inr (1, d1)"
    and f: "\<And>q. cs_case_id (f q) = cs_case_id q" "escalated r (f r)"
    and es: "t = d1\<lparr>support_case_events := support_case_events d1 @ es\<rparr>" "db_ok d1 \<Longrightarrow> db_ok t"
      "\<And>e. e \<in> set es \<Longrightarrow> ce_case_id e = cs_case_id r \<and> case_event_readable e \<and> ce_event_type e = Trigger_appended
        \<and> ce_current_status e = Some (cs_status r)" "es = [] \<or> es = [e]"
  shows "case_step s (s\<lparr>core := t\<rparr>)"
proof -
  let ?d = "core s"
  have com: "committed ?d" and k: "k = trim_support_case r"
    using messaging_okD(1)[OF ok] r(2) by (auto simp: mk_support_case_Inr)
  obtain q where q: "q \<in> set (support_cases ?d)" "cs_case_id q = cs_case_id k"
    and d1: "d1 = ?d\<lparr>support_cases := replace_row q (f q) (support_cases ?d)\<rparr>" "db_ok d1" "case_row_ok (f q)"
    by (rule update_support_cases_one[OF up committedD(1)[OF com]]) (use f(1) in auto)
  have "q = r" using case_read_row[OF com r(1) q(1)] q(2) by (simp add: k)
  have rd: "case_readable r" using committedD(2)[OF com] r(1) by (simp add: readable_def list_all_iff)
  have "committed t \<and> evolves ?d t"
  proof (rule case_replace_contract[OF com r(1)])
    show "t = ?d\<lparr>support_cases := replace_row r (f r) (support_cases ?d),
        support_case_events := support_case_events ?d @ es\<rparr>"
      using d1(1) es(1) \<open>q = r\<close> by simp
    show "case_advances r (f r)" by (rule escalatedD(7)[OF f(2)])
    show "case_readable (f r)" by (rule escalated_readable[OF rd f(2)]) (use d1(3) \<open>q = r\<close> in simp)
    show "replay_case (case_progress_of r) es = Some (case_progress_of (f r))"
      using es(3,4) unfolding escalatedD(6)[OF f(2)] by (auto simp: case_progress_of_def)
  qed (use es(3) es(2)[OF d1(2)] f(1) in auto)
  then show ?thesis by (rule case_stepI[OF ok]) (simp_all add: es(1) d1(1))
qed

lemma open_case_step:
  assumes ok: "messaging_ok s" and k: "mk_support_case (technical_review_case cid x now) = Inr k"
    and e: "mk_support_case_event f = Inr e" "ce_case_id f = cs_case_id k" "ce_event_type f = Case_created"
      "ce_current_status f = Some Open"
    and ins: "insert_support_case k (core s) = Inr d1" "insert_case_event e d1 = Inr d2"
  shows "case_step s (s\<lparr>core := d2\<rparr>)"
proof -
  have com: "committed (core s)" by (rule messaging_okD(1)[OF ok])
  have kt: "k = trim_support_case (technical_review_case cid x now)" "valid_support_case k"
    using k unfolding mk_support_case_Inr by blast+
  then have kr: "case_readable k" "cs_status k = Open" "cs_assigned_agent_id k = None"
    by (simp_all add: case_readable_def) (simp_all add: trim_support_case_def technical_review_case_def)
  note ev = mk_support_case_eventD[OF e(1), unfolded e(2-4)]
  have "create_case_tx k e (core s) = Inr d2" using ins by (simp add: create_case_tx_def)
  then have "committed d2 \<and> evolves (core s) d2"
    by (rule create_case_contract[OF com _ kr(1) ev(2,1)]) (simp add: ev case_progress_of_def kr)
  moreover have "order_operations d2 = order_operations (core s)"
    "order_operation_events d2 = order_operation_events (core s)" "outbox_messages d2 = outbox s"
    using ins by (auto simp: insert_case_event_Inr insert_support_case_def Let_def split: if_splits option.splits)
  ultimately show ?thesis by (intro case_stepI[OF ok])
qed

lemma reuse_review_case_step:
  assumes ok: "messaging_ok (mw_db w)" and r: "r \<in> set (support_cases (core (mw_db w)))"
      "mk_support_case r = Inr existing"
    and run: "reuse_review_case E c x now existing w = (Inr u, w')"
  shows "case_step (mw_db w) (mw_db w')"
proof -
  let ?f = "\<lambda>q. q\<lparr>cs_priority := P1,
       cs_reason_codes := dedup (cs_reason_codes existing @ [Provider_delivery_failed]),
       cs_updated_at := case_now now q, cs_version := cs_version existing + 1\<rparr>"
  let ?sel = "\<lambda>q. cs_case_id q = cs_case_id existing \<and> cs_version q = cs_version existing"
  have ex: "existing = trim_support_case r" using r(2) by (auto simp: mk_support_case_Inr)
  obtain d1 e d2 eid where up: "update_support_cases ?sel ?f (core (mw_db w)) = Inr (1, d1)"
    and e: "mk_support_case_event ((blank_case_event eid (finalization_key c ''technical-review'') (cs_case_id existing)
                Trigger_appended (cs_customer_id existing) (cs_tenant_id existing) now)
              \<lparr>ce_source_message_id := Some (op_source_message_id x),
               ce_order_id := Some (op_order_id x), ce_reason_codes := [Provider_delivery_failed],
               ce_triggering_message_excerpt := op_request_excerpt x,
               ce_previous_priority := Some (cs_priority existing), ce_current_priority := Some P1,
               ce_current_status := Some (cs_status existing), ce_actor := Some ''system''\<rparr>) = Inr e"
    and ins: "insert_case_event_once e d1 = Inr ((), d2)" and w': "mw_db w' = (mw_db w)\<lparr>core := d2\<rparr>"
    using run unfolding reuse_review_case_def by (auto simp: statement_simps simp del: One_nat_def)
  have esc: "escalated r (?f r)" by (auto simp: escalated_def ex trim_support_case_sel)
  have ev: "ce_case_id e = cs_case_id r" "ce_event_type e = Trigger_appended" "ce_current_status e = Some (cs_status r)"
    "case_event_readable e"
    using mk_support_case_eventD[OF e] by (simp_all add: blank_case_event_def ex trim_support_case_sel)
  have d1: "db_ok d1"
    by (rule update_support_cases_one[OF up committedD(1)[OF messaging_okD(1)[OF ok]]]) auto
  obtain es where d2: "d2 = d1\<lparr>support_case_events := support_case_events d1 @ es\<rparr>" "es = [] \<or> es = [e]" "db_ok d2"
    by (rule insert_case_event_once_Inr[OF ins d1])
  show ?thesis
    unfolding w' by (rule escalate_case_step[OF ok r up _ esc d2(1) _ _ d2(2)]) (use d2(2,3) ev in auto)
qed

lemma create_review_case_step:
  assumes ok: "messaging_ok (mw_db w)" and run: "create_review_case E c x now w = (Inr u, w')"
  shows "case_step (mw_db w) (mw_db w')"
proof -
  obtain cid k eid e d1 d2 where k: "mk_support_case (technical_review_case cid x now) = Inr k"
    and e: "mk_support_case_event
            ((blank_case_event eid (finalization_key c ''technical-review'') (cs_case_id k)
                Case_created (cs_customer_id k) (cs_tenant_id k) now)
              \<lparr>ce_source_message_id := Some (cs_source_message_id k), ce_order_id := cs_order_id k,
               ce_reason_codes := cs_reason_codes k,
               ce_triggering_message_excerpt := cs_triggering_message_excerpt k,
               ce_current_priority := Some (cs_priority k), ce_current_status := Some (cs_status k)\<rparr>) = Inr e"
    and ins: "insert_support_case k (core (mw_db w)) = Inr d1" "insert_case_event e d1 = Inr d2"
    and w': "mw_db w' = (mw_db w)\<lparr>core := d2\<rparr>"
    using run unfolding create_review_case_def by (auto simp: statement_simps)
  have "cs_status k = Open" using k by (auto simp: mk_support_case_Inr trim_support_case_def technical_review_case_def)
  then show ?thesis
    unfolding w' by (intro open_case_step[OF ok k e _ _ _ ins]) (simp_all add: blank_case_event_def)
qed

lemma ensure_technical_review_case_step:
  assumes ok: "messaging_ok (mw_db w)" and run: "ensure_technical_review_case E c x now w = (Inr u, w')"
  shows "case_step (mw_db w) (mw_db w')"
proof (cases "active_review_case x (mw_db w)")
  case None
  then show ?thesis
    using run create_review_case_step[OF ok] by (simp add: ensure_technical_review_case_def success_simps)
next
  case (Some r)
  then have "r \<in> set (support_cases (core (mw_db w)))"
    unfolding active_review_case_def by (blast dest: find_SomeD)
  moreover obtain existing where "mk_support_case r = Inr existing"
    "reuse_review_case E c x now existing w = (Inr u, w')"
    using run Some by (auto simp: ensure_technical_review_case_def success_simps)
  ultimately show ?thesis using reuse_review_case_step[OF ok] by blast
qed

lemma finalized_lifecycle: "lifecycle Queued (finalized_status target k)"
  by (auto simp: finalized_status_def lifecycle_edge_def)

lemma moved_finalized: "moved r (set_finalized_columns x st u ref now r)"
  by (simp add: moved_def set_finalized_columns_def)

text \<open>The update of the operation and the events that go with it, from a state in which the row read
  earlier is still there.\<close>

lemma operation_move_contract:
  assumes com: "committed d" and r: "r \<in> set (order_operations d)" "mk_order_operation r = Inr x"
    and up: "update_order_operations (\<lambda>q. op_operation_id q = op_operation_id x \<and> op_version q = op_version x) f d
        = Inr (1, d1)"
    and f: "\<And>q. moved q (f q)" "op_version x < op_version (f r)" "lifecycle (op_status x) (op_status (f r))"
      "non_empty_option (map_option trim (op_provider_reference (f r)))"
    and es: "insert_operation_events es d1 = Inr t"
      "\<And>e. e \<in> set es \<Longrightarrow> oe_operation_id e = op_operation_id x \<and> operation_event_readable e"
      "replay_operation (op_status x) es = Some (op_status (f r))"
  shows "committed t \<and> evolves d t \<and> outbox_messages t = outbox_messages d"
    and "order_operations t = replace_row r (f r) (order_operations d)"
    and "order_operation_events t = order_operation_events d @ es"
proof -
  have x: "op_operation_id x = op_operation_id r" "op_version x = op_version r" "op_status x = op_status r"
    using r(2) by (auto simp: mk_order_operation_Inr)
  obtain q where q: "q \<in> set (order_operations d)" "op_operation_id q = op_operation_id x"
    and d1: "d1 = d\<lparr>order_operations := replace_row q (f q) (order_operations d)\<rparr>" "db_ok d1" "operation_row_ok (f q)"
    by (rule update_order_operations_one[OF up committedD(1)[OF com]]) (use f(1) moved_same_request in auto)
  have "q = r" using distinct_map_eqD[OF committedD(5)[OF com] q(1) r(1)] q(2) x(1) by simp
  have t: "t = d\<lparr>order_operations := replace_row r (f r) (order_operations d),
      order_operation_events := order_operation_events d @ es\<rparr>" "db_ok t"
    using insert_operation_events_Inr[OF es(1)] insert_operation_events_ok[OF d1(2) es(1)] d1(1) \<open>q = r\<close> by simp_all
  have "operation_readable r" using committedD(2)[OF com] r(1) by (simp add: readable_def list_all_iff)
  then have "operation_readable (f r)"
    by (rule moved_readable[OF _ f(1) _ f(4)]) (use d1(3) \<open>q = r\<close> in simp)
  then have "committed t \<and> evolves d t"
    using f(2,3) es(2,3) x
    by (intro operation_replace_contract[OF com r(1) t moved_same_request[OF f(1)]]) simp_all
  then show "committed t \<and> evolves d t \<and> outbox_messages t = outbox_messages d" by (simp add: t(1))
  show "order_operations t = replace_row r (f r) (order_operations d)"
    and "order_operation_events t = order_operation_events d @ es" by (simp_all add: t(1))
qed

lemma finalize_operation_Inr:
  assumes run: "finalize_operation E c target res k now w = (Inr u0, w')"
  obtains r x ref u w1 eid e d1 d2 w2 where
    "r \<in> set (order_operations (core (mw_db w)))" "op_operation_id r = ob_aggregate_id (cl_message c)"
    "mk_order_operation r = Inr x" "op_status x = Queued"
    "ref = (case res of Some p \<Rightarrow> pr_provider_reference p | None \<Rightarrow> op_provider_reference x)"
    "review_case_for E c x (finalized_status target k) now w = (Inr u, w1)"
    "update_order_operations (\<lambda>q. op_operation_id q = op_operation_id x \<and> op_version q = op_version x)
       (set_finalized_columns x (finalized_status target k) u ref now) (core (mw_db w1)) = Inr (1, d1)"
    "mk_order_operation_event
       ((blank_operation_event eid (finalization_key c ''status'') x Status_changed ''system'' now)
         \<lparr>oe_previous_status := Some Queued, oe_current_status := Some (finalized_status target k),
          oe_provider_reference := ref\<rparr>) = Inr e"
    "insert_operation_event e d1 = Inr d2"
    "record_attachment E c x (finalized_status target k) u now w2 = (Inr (), w')"
    "mw_db w2 = (mw_db w1)\<lparr>core := d2\<rparr>"
proof -
  define st where "st = finalized_status target k"
  obtain r x where r: "find (\<lambda>x. op_operation_id x = ob_aggregate_id (cl_message c)) (order_operations (core (mw_db w))) = Some r"
    and x: "mk_order_operation r = Inr x" and q: "op_status x = Queued"
    using run unfolding finalize_operation_def by (auto simp: statement_simps Let_def split: option.splits)
  define ref where "ref = (case res of Some p \<Rightarrow> pr_provider_reference p | None \<Rightarrow> op_provider_reference x)"
  have rin: "r \<in> set (order_operations (core (mw_db w)))" "op_operation_id r = ob_aggregate_id (cl_message c)"
    using find_SomeD[OF r] by simp_all
  show ?thesis
    using run r x q unfolding finalize_operation_def st_def[symmetric]
    by (clarsimp simp: statement_simps Let_def ref_def[symmetric] simp del: One_nat_def)
       (rule that[OF rin x q ref_def], unfold st_def[symmetric], assumption+, simp_all)
qed

lemma commits_finalize_operation: "messaging.commits (finalize_operation E c target res k now)"
proof (rule messaging.commitsI)
  fix w x0 w'
  assume ok: "messaging_ok (mw_db w)" and run: "finalize_operation E c target res k now w = (Inr x0, w')"
  define st where "st = finalized_status target k"
  obtain r x ref u w1 eid e d1 d2 w2 where r: "r \<in> set (order_operations (core (mw_db w)))"
    and x: "mk_order_operation r = Inr x" and q: "op_status x = Queued"
    and ens: "review_case_for E c x st now w = (Inr u, w1)"
    and up: "update_order_operations (\<lambda>q. op_operation_id q = op_operation_id x \<and> op_version q = op_version x)
               (set_finalized_columns x st u ref now) (core (mw_db w1)) = Inr (1, d1)"
    and e: "mk_order_operation_event
               ((blank_operation_event eid (finalization_key c ''status'') x Status_changed ''system'' now)
                 \<lparr>oe_previous_status := Some Queued, oe_current_status := Some st,
                  oe_provider_reference := ref\<rparr>) = Inr e"
    and ins: "insert_operation_event e d1 = Inr d2"
    and rec: "record_attachment E c x st u now w2 = (Inr (), w')" and w2: "mw_db w2 = (mw_db w1)\<lparr>core := d2\<rparr>"
    by (rule finalize_operation_Inr[OF run, folded st_def])
  have rest: "(\<exists>eid2 e2 d3.
          mk_order_operation_event ((blank_operation_event eid2 (finalization_key c ''case-attached'') x
                          Support_case_attached ''system'' now)\<lparr>oe_support_case_id := u\<rparr>) = Inr e2
          \<and> insert_operation_event e2 d2 = Inr d3 \<and> mw_db w' = (mw_db w1)\<lparr>core := d3\<rparr>)
        \<or> mw_db w' = (mw_db w1)\<lparr>core := d2\<rparr>"
    using rec w2 unfolding record_attachment_def by (auto simp: statement_simps split: if_splits) blast
  have s1: "case_step (mw_db w) (mw_db w1)"
    using ens ensure_technical_review_case_step[OF ok] unfolding review_case_for_def
    by (auto simp: success_simps case_step_def ok messaging_evolves_refl split: if_splits)
  have com: "committed (core (mw_db w1))" using s1 messaging_okD(1) by (simp add: case_step_def)
  have r1: "r \<in> set (order_operations (core (mw_db w1)))"
    using s1 r by (simp add: case_step_def)
  obtain es t where es: "insert_operation_events es d1 = Inr t" "mw_db w' = (mw_db w1)\<lparr>core := t\<rparr>"
      "\<And>f. f \<in> set es \<Longrightarrow> oe_operation_id f = op_operation_id x \<and> operation_event_readable f"
      "replay_operation (op_status x) es = Some st"
    using rest
  proof (elim disjE conjE exE)
    fix eid2 e2 d3
    assume *: "mk_order_operation_event ((blank_operation_event eid2 (finalization_key c ''case-attached'') x
        Support_case_attached ''system'' now)\<lparr>oe_support_case_id := u\<rparr>) = Inr e2"
      "insert_operation_event e2 d2 = Inr d3" "mw_db w' = (mw_db w1)\<lparr>core := d3\<rparr>"
    show thesis
      by (rule that[of "[e, e2]" d3])
         (use ins * mk_order_operation_eventD[OF e] mk_order_operation_eventD[OF *(1)]
          in \<open>auto simp: blank_operation_event_def q\<close>)
  next
    assume *: "mw_db w' = (mw_db w1)\<lparr>core := d2\<rparr>"
    show thesis
      by (rule that[of "[e]" d2])
         (use ins * mk_order_operation_eventD[OF e] in \<open>auto simp: blank_operation_event_def q\<close>)
  qed
  have "committed t \<and> evolves (core (mw_db w1)) t \<and> outbox_messages t = outbox (mw_db w1)"
  proof (rule operation_move_contract(1)[OF com r1 x up moved_finalized _ _ _ es(1,3)])
    show "lifecycle (op_status x) (op_status (set_finalized_columns x st u ref now r))"
      using finalized_lifecycle[of target k] by (simp add: q st_def set_finalized_columns_def)
    show "non_empty_option (map_option trim (op_provider_reference (set_finalized_columns x st u ref now r)))"
      using mk_order_operation_eventD(6)[OF e] by (simp add: set_finalized_columns_def)
  qed (use es in \<open>simp_all add: set_finalized_columns_def\<close>)
  then have "messaging_ok (mw_db w') \<and> messaging_evolves (mw_db w1) (mw_db w')"
    unfolding es(2) using s1 by (intro core_step) (simp_all add: case_step_def)
  then show "messaging_ok (mw_db w') \<and> messaging_evolves (mw_db w) (mw_db w')"
    using s1 messaging_evolves_trans unfolding case_step_def by blast
qed

lemma commits_finalize_case: "messaging.commits (finalize_case E c target res now)"
proof (rule messaging.commitsI)
  fix w x0 w'
  assume ok: "messaging_ok (mw_db w)" and run: "finalize_case E c target res now w = (Inr x0, w')"
  let ?d = "core (mw_db w)"
  let ?dead = "\<lambda>k. target = Out_dead \<and> Provider_delivery_failed \<notin> set (cs_reason_codes k)"
  let ?f = "\<lambda>k q. q\<lparr>cs_reason_codes := cs_reason_codes k @ [Provider_delivery_failed],
      cs_updated_at := case_now now q, cs_version := cs_version k + 1\<rparr>"
  have com: "committed ?d" by (rule messaging_okD(1)[OF ok])
  obtain r k w1 eid e d2 where
    r: "find (\<lambda>k. cs_case_id k = ob_aggregate_id (cl_message c)) (support_cases ?d) = Some r"
    and k: "mk_support_case r = Inr k"
    and mid: "add_failure_reason target k now w = (Inr (), w1)"
    and e: "mk_support_case_event
               ((blank_case_event eid
                   (finalization_key c (if target = Out_published then ''accepted'' else ''rejected''))
                   (cs_case_id k) Provider_update (cs_customer_id k) (cs_tenant_id k) now)
                 \<lparr>ce_provider_command_id := Some (ob_command_id (cl_message c)),
                  ce_provider_command_status :=
                    Some (if target = Out_published then Exec_accepted else Exec_rejected),
                  ce_provider_reference := Option.bind res pr_provider_reference,
                  ce_actor := Some ''system''\<rparr>) = Inr e"
    and ins: "insert_case_event e (core (mw_db w1)) = Inr d2" and w1: "mw_db w' = (mw_db w1)\<lparr>core := d2\<rparr>"
    using run unfolding finalize_case_def
    by (auto simp: statement_simps simp del: One_nat_def split: option.splits)
  obtain d1 where up: "if ?dead k
      then update_support_cases (\<lambda>q. cs_case_id q = cs_case_id k \<and> cs_version q = cs_version k) (?f k) ?d = Inr (1, d1)
      else d1 = ?d" and d: "mw_db w1 = (mw_db w)\<lparr>core := d1\<rparr>"
    using mid unfolding add_failure_reason_def
    by (auto simp: statement_simps simp del: One_nat_def split: if_splits)
  have w': "mw_db w' = (mw_db w)\<lparr>core := d2\<rparr>" and ins: "insert_case_event e d1 = Inr d2"
    using w1 ins d by simp_all
  have rin: "r \<in> set (support_cases ?d)" using r by (auto dest: find_SomeD)
  have kr: "k = trim_support_case r" using k by (auto simp: mk_support_case_Inr)
  have rd: "case_readable r" using committedD(2)[OF com] rin by (simp add: readable_def list_all_iff)
  define r' where "r' = (if ?dead k then ?f k r else r)"
  have d1: "d1 = ?d\<lparr>support_cases := replace_row r r' (support_cases ?d)\<rparr>" "db_ok d1" "case_row_ok r'"
  proof (atomize (full), cases "?dead k")
    case True
    with up have up': "update_support_cases (\<lambda>q. cs_case_id q = cs_case_id k \<and> cs_version q = cs_version k) (?f k) ?d = Inr (1, d1)"
      by simp
    obtain q where q: "q \<in> set (support_cases ?d)" "cs_case_id q = cs_case_id k"
      "d1 = ?d\<lparr>support_cases := replace_row q (?f k q) (support_cases ?d)\<rparr>" "db_ok d1" "case_row_ok (?f k q)"
      by (rule update_support_cases_one[OF up' committedD(1)[OF com]]) auto
    moreover have "q = r" using case_read_row[OF com rin q(1)] q(2) by (simp add: kr)
    ultimately show "d1 = ?d\<lparr>support_cases := replace_row r r' (support_cases ?d)\<rparr> \<and> db_ok d1 \<and> case_row_ok r'"
      using True by (simp add: r'_def)
  next
    case False
    then have "r' = r" "d1 = ?d" using up by (auto simp: r'_def)
    moreover have "replace_row r r (support_cases ?d) = support_cases ?d"
      unfolding replace_row_def by (rule map_idI) simp
    moreover have "case_row_ok r"
      using committedD(1)[OF com] rin by (simp add: db_ok_def cases_ok_def list_all_iff)
    ultimately show "d1 = ?d\<lparr>support_cases := replace_row r r' (support_cases ?d)\<rparr> \<and> db_ok d1 \<and> case_row_ok r'"
      using committedD(1)[OF com] by simp
  qed
  have adv: "r' = r \<or> escalated r r'"
    by (auto simp: r'_def escalated_def kr trim_support_case_sel)
  have d2: "d2 = d1\<lparr>support_case_events := support_case_events d1 @ [e]\<rparr>" "db_ok d2"
    using ins insert_case_event_ok[OF d1(2) ins] by (simp_all add: insert_case_event_Inr)
  have ev: "ce_case_id e = cs_case_id r" "ce_event_type e = Provider_update" "case_event_readable e"
    using mk_support_case_eventD[OF e] by (simp_all add: kr trim_support_case_sel blank_case_event_def)
  have prog: "case_progress_of r' = case_progress_of r" "cs_case_id r' = cs_case_id r" "case_advances r r'" "case_readable r'"
    using adv escalatedD escalated_readable[OF rd _ d1(3)] rd by auto
  have "replay_case (case_progress_of r) [e] = Some (case_progress_of r)"
    by (simp add: case_progress_of_def ev)
  then have "committed d2 \<and> evolves ?d d2"
    by (intro case_replace_contract[OF com rin _ d2(2) prog(3,2,4)]) (simp_all add: d2(1) d1(1) prog ev)
  then show "messaging_ok (mw_db w') \<and> messaging_evolves (mw_db w) (mw_db w')"
    unfolding w' using core_step[OF ok] by (simp add: d2(1) d1(1))
qed

lemma commits_lock_claimed_command: "messaging.commits (lock_claimed_command E c)"
  by (rule messaging.commitsI)
     (auto simp: lock_claimed_command_def success_simps messaging_evolves_refl split: option.splits)

lemma keeps_finalize:
  assumes "messaging.lawful E" and "target \<in> {Out_published, Out_dead}"
  shows "messaging.keeps (finalize E c target res k code msg)"
proof -
  show ?thesis
    unfolding finalize_def
    by (auto simp: split: option.split intro!: messaging.keeps_integration_call[OF assms(1)] messaging.commits_bnd
        messaging.commits_if commits_lock_claimed_command commits_finalize_operation commits_finalize_case
        commits_finish_and_transition assms(2))
qed

section \<open>Fencing and outcome\<close>

lemma finished_attempt_stays:
  assumes "messaging_evolves s t" and "a \<in> set (outbox_delivery_attempts s)" and "\<not> attempt_open a"
  shows "a \<in> set (outbox_delivery_attempts t)"
  using assms by (auto simp: messaging_evolves_def rows_evolve_def attempt_advances_def dest!: bspec)

text \<open>The lock either hands out a time or raises the lease conflict, and changes nothing.\<close>

lemma lock_claimed_command_cases:
  obtains (free) now where "lock_claimed_command E c w = (Inr now, w\<lparr>mw_reads := Suc (mw_reads w)\<rparr>)"
    "\<exists>a\<in>set (outbox_delivery_attempts (mw_db w)). at_attempt_id a = at_attempt_id (cl_attempt c) \<and> attempt_open a"
  | (fenced) "lock_claimed_command E c w = (Inl LeaseConflictError, w\<lparr>mw_reads := Suc (mw_reads w)\<rparr>)"
proof -
  let ?m = "find (\<lambda>m. ob_command_id m = ob_command_id (cl_message c)) (outbox (mw_db w))"
  let ?a = "find (\<lambda>a. at_attempt_id a = at_attempt_id (cl_attempt c)
      \<and> at_command_id a = ob_command_id (cl_message c) \<and> at_finished_at a = None)
    (outbox_delivery_attempts (mw_db w))"
  show thesis
  proof (cases "\<exists>m a. ?m = Some m \<and> ?a = Some a \<and> message_fenced c (me_db_clock E (mw_reads w)) m \<and> attempt_fenced c a")
    case True
    then obtain m a where m: "?m = Some m" "message_fenced c (me_db_clock E (mw_reads w)) m"
      and a: "?a = Some a" "attempt_fenced c a" by blast
    from a(1) have "a \<in> set (outbox_delivery_attempts (mw_db w))" "at_attempt_id a = at_attempt_id (cl_attempt c)" "attempt_open a"
      by (auto simp: attempt_open_def dest: find_SomeD)
    then show ?thesis
      by (intro free[of "max (me_db_clock E (mw_reads w)) (max (ob_created_at m) (max (ob_updated_at m) (at_started_at a)))"])
         (use m a in \<open>auto simp: lock_claimed_command_def bnd_def fetch_def clock_timestamp_def require_def ret_def\<close>)
  next
    case False
    then show ?thesis
      by (intro fenced)
         (auto simp: lock_claimed_command_def bnd_def fetch_def clock_timestamp_def require_def ret_def throw_def
           split: option.split)
  qed
qed

lemma finalize_fenced:
  assumes "mquiet E" and lease: "ob_lease_id (cl_message c) = Some l" "ob_lease_owner (cl_message c) = Some owner"
    and closed: "\<And>a. a \<in> set (outbox_delivery_attempts (mw_db w)) \<Longrightarrow> at_attempt_id a = at_attempt_id (cl_attempt c)
        \<Longrightarrow> \<not> attempt_open a"
  shows "fst (finalize E c target res k code msg w) = Inl LeaseConflictError"
    and "mw_db (snd (finalize E c target res k code msg w)) = mw_db w"
proof -
  let ?w = "w\<lparr>mw_calls := Suc (mw_calls w)\<rparr>"
  have "lock_claimed_command E c ?w = (Inl LeaseConflictError, ?w\<lparr>mw_reads := Suc (mw_reads ?w)\<rparr>)"
    by (rule lock_claimed_command_cases[of E c ?w]) (use closed in auto)
  then show "fst (finalize E c target res k code msg w) = Inl LeaseConflictError"
    and "mw_db (snd (finalize E c target res k code msg w)) = mw_db w"
    by (simp_all add: finalize_def lease integration_call_quiet[OF assms(1)] bnd_def)
qed

text \<open>What a finalization that returns has done to the message and the attempt.\<close>

lemma finish_and_transition_result:
  assumes run: "finish_and_transition aid cid l owner target t res tr w = (Inr x, w')"
  shows "\<exists>m\<in>set (outbox (mw_db w')). ob_command_id m = cid \<and> ob_status m = target"
    and "\<exists>a\<in>set (outbox_delivery_attempts (mw_db w')). at_attempt_id a = aid \<and> at_outcome a = Some (ar_outcome res)
      \<and> at_provider_reference a = ar_provider_reference res"
    and "order_operations (core (mw_db w')) = order_operations (core (mw_db w))"
proof -
  from run obtain w1 where f: "finish_delivery_attempt aid cid l owner t res w = (Inr 1, w1)"
    and u: "update_outbox_transition cid Out_processing (Some l) (Some owner) target t tr w1 = (Inr 1, w')"
    by (auto simp: finish_and_transition_def success_simps simp del: One_nat_def)
  obtain a where a: "a \<in> set (outbox_delivery_attempts (mw_db w))" "at_attempt_id a = aid"
    and w1: "mw_db w1 = (mw_db w)\<lparr>outbox_delivery_attempts :=
        replace_row a (set_attempt_columns t res a) (outbox_delivery_attempts (mw_db w))\<rparr>"
    by (rule finish_delivery_attempt_one[OF f])
  obtain m where m: "m \<in> set (outbox (mw_db w1))" "ob_command_id m = cid"
    and w': "mw_db w' = (mw_db w1)\<lparr>core := (core (mw_db w1))\<lparr>outbox_messages :=
        replace_row m (set_transition_columns target t tr m) (outbox (mw_db w1))\<rparr>\<rparr>"
    by (rule update_outbox_transition_one[OF u])
  have "set_transition_columns target t tr m \<in> set (outbox (mw_db w'))"
    using m(1) by (auto simp: w' set_replace_row)
  then show "\<exists>m\<in>set (outbox (mw_db w')). ob_command_id m = cid \<and> ob_status m = target"
    using m(2) by (intro bexI[of _ "set_transition_columns target t tr m"]) (simp_all add: set_transition_columns_def)
  have "set_attempt_columns t res a \<in> set (outbox_delivery_attempts (mw_db w'))"
    using a(1) by (auto simp: w' w1 set_replace_row)
  then show "\<exists>a\<in>set (outbox_delivery_attempts (mw_db w')). at_attempt_id a = aid \<and> at_outcome a = Some (ar_outcome res)
      \<and> at_provider_reference a = ar_provider_reference res"
    using a(2) by (intro bexI[of _ "set_attempt_columns t res a"]) (simp_all add: set_attempt_columns_def)
  show "order_operations (core (mw_db w')) = order_operations (core (mw_db w))" by (simp add: w' w1)
qed

text \<open>What it has done to the operation.\<close>

lemma finalize_operation_result:
  assumes ok: "messaging_ok (mw_db w)" and run: "finalize_operation E c target res k now w = (Inr u, w')"
  shows "\<exists>x\<in>set (order_operations (core (mw_db w'))). op_operation_id x = ob_aggregate_id (cl_message c)
     \<and> op_status x = finalized_status target k \<and> (\<forall>p. res = Some p \<longrightarrow> op_provider_reference x = pr_provider_reference p)"
proof -
  define st where "st = finalized_status target k"
  obtain r x ref v w1 e d1 d2 w2 where rid: "op_operation_id r = ob_aggregate_id (cl_message c)"
    and x: "mk_order_operation r = Inr x"
    and ref: "ref = (case res of Some p \<Rightarrow> pr_provider_reference p | None \<Rightarrow> op_provider_reference x)"
    and ens: "review_case_for E c x st now w = (Inr v, w1)"
    and up: "update_order_operations (\<lambda>q. op_operation_id q = op_operation_id x \<and> op_version q = op_version x)
               (set_finalized_columns x st v ref now) (core (mw_db w1)) = Inr (1, d1)"
    and ins: "insert_operation_event e d1 = Inr d2"
    and rec: "record_attachment E c x st v now w2 = (Inr (), w')" and w2: "mw_db w2 = (mw_db w1)\<lparr>core := d2\<rparr>"
    by (rule finalize_operation_Inr[OF run, folded st_def])
  have xid: "op_operation_id x = op_operation_id r" using x by (auto simp: mk_order_operation_Inr)
  have same: "order_operations (core (mw_db w')) = order_operations d1"
    using rec w2 ins unfolding record_attachment_def
    by (auto simp: statement_simps insert_operation_event_Inr split: if_splits)
  have len: "length (filter (\<lambda>q. op_operation_id q = op_operation_id x \<and> op_version q = op_version x) (order_operations (core (mw_db w1)))) = 1"
    and d1: "order_operations d1 = update_rows (\<lambda>q. op_operation_id q = op_operation_id x \<and> op_version q = op_version x)
          (set_finalized_columns x st v ref now) (order_operations (core (mw_db w1)))"
    using up by (auto simp: update_order_operations_def Let_def split: if_splits)
  obtain q where q: "q \<in> set (order_operations (core (mw_db w1)))" "op_operation_id q = op_operation_id x \<and> op_version q = op_version x"
    by (rule update_one_row[OF len])
  have "set_finalized_columns x st v ref now q \<in> set (order_operations (core (mw_db w')))"
    using q by (auto simp: same d1 update_rows_def)
  then show ?thesis
    using q(2) rid xid unfolding st_def
    by (intro bexI[of _ "set_finalized_columns x (finalized_status target k) v ref now q"])
       (simp_all add: set_finalized_columns_def ref)
qed

lemma finalize_operation_outbox:
  assumes "messaging_ok (mw_db w)" and run: "finalize_operation E c target res k now w = (Inr u, w')"
  shows "outbox (mw_db w') = outbox (mw_db w)"
proof -
  obtain x ref v w1 e d1 d2 w2 where
    ens: "review_case_for E c x (finalized_status target k) now w = (Inr v, w1)"
    and up: "update_order_operations (\<lambda>q. op_operation_id q = op_operation_id x \<and> op_version q = op_version x)
       (set_finalized_columns x (finalized_status target k) v ref now) (core (mw_db w1)) = Inr (1, d1)"
    and ins: "insert_operation_event e d1 = Inr d2"
    and rec: "record_attachment E c x (finalized_status target k) v now w2 = (Inr (), w')"
    and w2: "mw_db w2 = (mw_db w1)\<lparr>core := d2\<rparr>"
    by (rule finalize_operation_Inr[OF run])
  have "outbox (mw_db w') = outbox (mw_db w2)"
    using rec unfolding record_attachment_def
    by (auto simp: statement_simps insert_operation_event_Inr split: if_splits)
  also have "\<dots> = outbox (mw_db w1)"
    using up ins w2 by (auto simp: update_order_operations_def insert_operation_event_Inr Let_def split: if_splits)
  also have "\<dots> = outbox (mw_db w)"
    using ens ensure_technical_review_case_step[OF assms(1)] unfolding review_case_for_def
    by (auto simp: success_simps case_step_def split: if_splits)
  finally show ?thesis .
qed

lemma finalize_result:
  assumes env: "messaging.lawful E" and ok: "messaging_ok (mw_db w)"
    and run: "finalize E c target res k code msg w = (Inr u, w')"
  shows "\<exists>m\<in>set (outbox (mw_db w')). ob_command_id m = ob_command_id (cl_message c) \<and> ob_status m = target"
    and "\<exists>a\<in>set (outbox_delivery_attempts (mw_db w')). at_attempt_id a = at_attempt_id (cl_attempt c)
      \<and> at_outcome a = Some (finalize_outcome target k)"
    and "ob_aggregate_type (cl_message c) = Agg_order_operation \<Longrightarrow>
      \<exists>x\<in>set (order_operations (core (mw_db w'))). op_operation_id x = ob_aggregate_id (cl_message c)
        \<and> op_status x = finalized_status target k"
proof -
  obtain l owner where lo: "ob_lease_id (cl_message c) = Some l" "ob_lease_owner (cl_message c) = Some owner"
    using run by (auto simp: finalize_def split: option.splits)
  obtain w0 w1 w2 :: mworld and now ar tr where w0: "mw_db w0 = me_interfere E (mw_calls w) (mw_db w)"
    and lock: "lock_claimed_command E c w0 = (Inr now, w1)"
    and agg: "(if ob_aggregate_type (cl_message c) = Agg_order_operation then finalize_operation E c target res k now
        else finalize_case E c target res now) w1 = (Inr (), w2)"
    and fin: "finish_and_transition (at_attempt_id (cl_attempt c)) (ob_command_id (cl_message c)) l owner target now ar tr w2
        = (Inr (), w')"
    and ar: "ar_outcome ar = finalize_outcome target k"
    using run unfolding finalize_def lo
    by (clarsimp simp: bnd_Inr elim!: integration_call_Inr)
  note r = finish_and_transition_result[OF fin]
  show "\<exists>m\<in>set (outbox (mw_db w')). ob_command_id m = ob_command_id (cl_message c) \<and> ob_status m = target" by (rule r(1))
  show "\<exists>a\<in>set (outbox_delivery_attempts (mw_db w')). at_attempt_id a = at_attempt_id (cl_attempt c)
      \<and> at_outcome a = Some (finalize_outcome target k)"
    using r(2) ar by auto
  assume "ob_aggregate_type (cl_message c) = Agg_order_operation"
  then have op: "finalize_operation E c target res k now w1 = (Inr (), w2)" using agg by simp
  have "mw_db w1 = mw_db w0" using lock by (cases rule: lock_claimed_command_cases[of E c w0]) auto
  moreover have "messaging_ok (mw_db w0)" using env ok by (simp add: w0 messaging.lawful_def)
  ultimately show "\<exists>x\<in>set (order_operations (core (mw_db w'))). op_operation_id x = ob_aggregate_id (cl_message c)
        \<and> op_status x = finalized_status target k"
    using finalize_operation_result[OF _ op] r(3) by auto
qed

end
