(* ===== verification/Outbox_Recovery.thy ===== *)
theory Outbox_Recovery
  imports Finalization
begin

text \<open>
  Recovery of expired leases (\<^verbatim>\<open>recover_expired_outbox_leases\<close> of
  \<^verbatim>\<open>src/agent/integrations/postgres_repository.py\<close>): a message whose worker died is made due again,
  or, after its eighth attempt, is dead and its operation goes to manual review.
\<close>

section \<open>Definitions\<close>

definition expired_outbox :: "(nat \<Rightarrow> instant) \<Rightarrow> outbox_message list \<Rightarrow> outbox_message list" where
  "expired_outbox clk rows =
     map snd (filter (\<lambda>(i, m). ob_status m = Out_processing
         \<and> (case ob_lease_expires_at m of None \<Rightarrow> False | Some x \<Rightarrow> x < clk i)) (enumerate 0 rows))"

definition select_expired_outbox :: "menvironment \<Rightarrow> int \<Rightarrow> (mworld, outbox_message list) prog" where
  "select_expired_outbox E batch_size = (\<lambda>w.
     let rows = outbox (mw_db w); n = mw_reads w in
     (Inr (take (nat batch_size)
        (filter (\<lambda>m. \<not> me_locked E (mw_calls w) (ob_command_id m))
          (sort_key (\<lambda>m. me_scan E (mw_calls w) (ob_command_id m))
            (expired_outbox (\<lambda>i. me_db_clock E (n + i)) rows)))),
      w\<lparr>mw_reads := n + length rows\<rparr>))"

definition expire_attempt :: "instant \<Rightarrow> string \<Rightarrow> delivery_attempt \<Rightarrow> delivery_attempt" where
  "expire_attempt now code a =
     a\<lparr>at_finished_at := Some (max now (at_started_at a)), at_outcome := Some Att_lease_expired,
       at_safe_error_code := Some code\<rparr>"

definition requeued :: "instant \<Rightarrow> instant \<Rightarrow> outbox_message \<Rightarrow> outbox_message" where
  "requeued t1 t2 m =
     m\<lparr>ob_status := Out_retry_scheduled, ob_available_at := t1, ob_lease_id := None,
       ob_lease_owner := None, ob_lease_expires_at := None, ob_updated_at := outbox_now t2 m\<rparr>"

definition buried :: "instant \<Rightarrow> instant \<Rightarrow> outbox_message \<Rightarrow> outbox_message" where
  "buried t1 t2 m =
     m\<lparr>ob_status := Out_dead, ob_dead_at := Some (outbox_now t1 m), ob_lease_id := None,
       ob_lease_owner := None, ob_lease_expires_at := None,
       ob_last_error_code := Some ''lease_expired_attempts_exhausted'',
       ob_updated_at := outbox_now t2 m\<rparr>"

text \<open>The aggregate of an exhausted command, through the finalizer's cursor-scoped helper.\<close>

definition finalize_exhausted ::
  "menvironment \<Rightarrow> outbox_message \<Rightarrow> delivery_attempt \<Rightarrow> instant \<Rightarrow> (mworld, unit) prog" where
  "finalize_exhausted E row attempt_row now =
     (if 8 \<le> ob_attempts_in_cycle row \<and> ob_aggregate_type row = Agg_order_operation
      then bnd (lift (outbox_from_row row)) (\<lambda>message.
           bnd (lift (attempt_from_row attempt_row)) (\<lambda>attempt.
           bnd (lift (mk_claimed (row\<lparr>ob_payload := ob_payload message\<rparr>) attempt)) (\<lambda>claimed.
             finalize_operation E claimed Out_dead None None now)))
      else ret ())"

definition expire_row ::
  "menvironment \<Rightarrow> outbox_message \<Rightarrow> instant \<Rightarrow> (mworld, unit) prog" where
  "expire_row E row now =
     bnd (execute (update_delivery_attempts
            (\<lambda>a. at_command_id a = ob_command_id row \<and> Some (at_lease_id a) = ob_lease_id row
               \<and> at_finished_at a = None)
            (expire_attempt now (if ob_attempts_in_cycle row < 8 then ''lease_expired''
                                 else ''lease_expired_attempts_exhausted'')))) (\<lambda>affected.
     bnd (require (affected = 1) LeaseConflictError) (\<lambda>_.
     bnd (clock_timestamp E) (\<lambda>t1.
     bnd (clock_timestamp E) (\<lambda>t2.
     bnd (execute (update_outbox_messages (\<lambda>m. ob_command_id m = ob_command_id row)
            (if ob_attempts_in_cycle row < 8 then requeued t1 t2 else buried t1 t2))) (\<lambda>_.
       ret ())))))"

definition recover_row :: "menvironment \<Rightarrow> outbox_message \<Rightarrow> (mworld, unit) prog" where
  "recover_row E row =
     bnd (fetch (\<lambda>s. find (\<lambda>a. at_command_id a = ob_command_id row
            \<and> Some (at_lease_id a) = ob_lease_id row \<and> at_finished_at a = None)
          (outbox_delivery_attempts s))) (\<lambda>attempt_row.
     case attempt_row of
       None \<Rightarrow> throw LeaseConflictError
     | Some a \<Rightarrow>
        bnd (clock_timestamp E) (\<lambda>t.
        let now = max t (max (ob_created_at row) (max (ob_updated_at row) (at_started_at a))) in
        bnd (finalize_exhausted E row a now) (\<lambda>_. expire_row E row now)))"

fun recover_rows :: "menvironment \<Rightarrow> outbox_message list \<Rightarrow> (mworld, nat) prog" where
  "recover_rows E [] = ret 0"
| "recover_rows E (row # rows) =
     bnd (recover_row E row) (\<lambda>_. bnd (recover_rows E rows) (\<lambda>n. ret (Suc n)))"

text \<open>Besides the database errors a \<^verbatim>\<open>ValueError\<close> is turned into the persistence error.\<close>

definition recovery_error :: "exn \<Rightarrow> exn" where
  "recovery_error e = (if is_value_error e then IntegrationPersistenceError else integration_error e)"

definition recover_expired_outbox_leases :: "menvironment \<Rightarrow> int \<Rightarrow> (mworld, nat) prog" where
  "recover_expired_outbox_leases E batch_size =
     try_except (transaction E (bnd (select_expired_outbox E batch_size) (recover_rows E)))
       (\<lambda>e. throw (recovery_error e))"

section \<open>The contract\<close>

lemma expired_outbox_subset: "set (expired_outbox clk rows) \<subseteq> set rows"
  by (auto simp: expired_outbox_def dest: set_zip_rightD simp: enumerate_eq_zip)

lemma expired_outbox_processing: "m \<in> set (expired_outbox clk rows) \<Longrightarrow> ob_status m = Out_processing"
  by (auto simp: expired_outbox_def)

lemma distinct_expired_outbox:
  assumes "distinct (map f rows)"
  shows "distinct (map f (expired_outbox clk rows))"
proof -
  have "map (f \<circ> snd) (enumerate 0 rows) = map f (map snd (enumerate 0 rows))" by (simp only: map_map)
  also have "\<dots> = map f rows" by simp
  finally have "distinct (map (f \<circ> snd) (enumerate 0 rows))" using assms by simp
  then show ?thesis unfolding expired_outbox_def map_map by (rule distinct_map_filter)
qed

lemma select_expired_outbox_Inr:
  assumes "select_expired_outbox E n w = (Inr rows, w1)" and "messaging_ok (mw_db w)"
  shows "mw_db w1 = mw_db w" "set rows \<subseteq> set (outbox (mw_db w))" "distinct (map ob_command_id rows)"
    "\<forall>r\<in>set rows. ob_status r = Out_processing" "length rows \<le> nat n"
proof -
  let ?exp = "expired_outbox (\<lambda>i. me_db_clock E (mw_reads w + i)) (outbox (mw_db w))"
  let ?sorted = "sort_key (\<lambda>m. me_scan E (mw_calls w) (ob_command_id m)) ?exp"
  let ?P = "\<lambda>m. \<not> me_locked E (mw_calls w) (ob_command_id m)"
  have rows: "rows = take (nat n) (filter ?P ?sorted)" and "mw_db w1 = mw_db w"
    using assms(1) by (auto simp: select_expired_outbox_def Let_def)
  then show "mw_db w1 = mw_db w" by simp
  have sub: "set rows \<subseteq> set ?exp" unfolding rows by (auto dest: in_set_takeD)
  then show "set rows \<subseteq> set (outbox (mw_db w))" using expired_outbox_subset by blast
  show "\<forall>r\<in>set rows. ob_status r = Out_processing" using sub expired_outbox_processing by blast
  have "distinct (map ob_command_id ?exp)"
    by (rule distinct_expired_outbox[OF messaging_okD(5)[OF assms(2)]])
  then have "distinct (map ob_command_id ?sorted)" by (simp add: distinct_map inj_on_def)
  then show "distinct (map ob_command_id rows)"
    unfolding rows by (simp add: take_map[symmetric] distinct_map_filter distinct_take)
  show "length rows \<le> nat n" by (simp add: rows)
qed

lemma finalize_exhausted_step:
  assumes ok: "messaging_ok (mw_db w)" and run: "finalize_exhausted E row a now w = (Inr u, w')"
  shows "messaging_ok (mw_db w') \<and> messaging_evolves (mw_db w) (mw_db w') \<and> outbox (mw_db w') = outbox (mw_db w)"
proof (cases "8 \<le> ob_attempts_in_cycle row \<and> ob_aggregate_type row = Agg_order_operation")
  case True
  then obtain c where "finalize_operation E c Out_dead None None now w = (Inr u, w')"
    using run by (auto simp: finalize_exhausted_def success_simps)
  then show ?thesis
    using messaging.commitsD[OF commits_finalize_operation ok] finalize_operation_outbox[OF ok] by blast
next
  case False
  then have "w' = w" using run by (auto simp: finalize_exhausted_def split: if_splits)
  then show ?thesis using ok messaging_evolves_refl by simp
qed

lemma expire_row_step:
  assumes ok: "messaging_ok (mw_db w)" and m: "row \<in> set (outbox (mw_db w))" "ob_status row = Out_processing"
    and run: "expire_row E row now w = (Inr u, w')"
  shows "messaging_ok (mw_db w') \<and> messaging_evolves (mw_db w) (mw_db w')
    \<and> (\<exists>t1 t2. outbox (mw_db w') = replace_row row ((if ob_attempts_in_cycle row < 8 then requeued t1 t2 else buried t1 t2) row)
         (outbox (mw_db w)))"
proof -
  define code where "code = (if ob_attempts_in_cycle row < 8 then ''lease_expired'' else ''lease_expired_attempts_exhausted'')"
  let ?sel = "\<lambda>a. at_command_id a = ob_command_id row \<and> Some (at_lease_id a) = ob_lease_id row \<and> at_finished_at a = None"
  from run obtain s1 t1 t2 n s2 where up: "update_delivery_attempts ?sel (expire_attempt now code) (mw_db w) = Inr (1, s1)"
    and um: "update_outbox_messages (\<lambda>m. ob_command_id m = ob_command_id row)
            (if ob_attempts_in_cycle row < 8 then requeued t1 t2 else buried t1 t2) s1 = Inr (n, s2)"
    and w': "mw_db w' = s2"
    unfolding expire_row_def code_def by (auto simp: success_simps simp del: One_nat_def)
  define f where "f = (if ob_attempts_in_cycle row < 8 then requeued t1 t2 else buried t1 t2)"
  obtain a where a: "a \<in> set (outbox_delivery_attempts (mw_db w))" "?sel a" "attempt_row_ok (expire_attempt now code a)"
    and s1: "s1 = (mw_db w)\<lparr>outbox_delivery_attempts := replace_row a (expire_attempt now code a) (outbox_delivery_attempts (mw_db w))\<rparr>"
    by (rule update_delivery_attempts_one[OF up])
  have op: "attempt_open a" using a(2) by (simp add: attempt_open_def)
  obtain q where q: "q \<in> set (outbox (mw_db w))" "lease_matches q a"
    by (rule open_attempt_message[OF ok a(1) op])
  have "q = row" using message_unique[OF ok q(1) m(1)] q(2) a(2) by (simp add: lease_matches_def)
  then have lm: "lease_matches row a" using q(2) by simp
  have cnt: "length (filter (\<lambda>m. ob_command_id m = ob_command_id row) (outbox (mw_db w))) = 1"
  proof -
    have "length (filter (\<lambda>m. ob_command_id m = ob_command_id row) (outbox (mw_db w))) \<le> 1"
      by (rule length_filter_key[OF messaging_okD(5)[OF ok], of _ "ob_command_id row"]) simp
    moreover have "filter (\<lambda>m. ob_command_id m = ob_command_id row) (outbox (mw_db w)) \<noteq> []"
      using m(1) by (auto simp: filter_empty_conv)
    ultimately show ?thesis by (cases "filter (\<lambda>m. ob_command_id m = ob_command_id row) (outbox (mw_db w))") simp_all
  qed
  have "n = 1" using um cnt by (auto simp: update_outbox_messages_def Let_def s1 split: if_splits)
  note um = um[folded f_def, unfolded this]
  obtain m' where m': "m' \<in> set (outbox s1)" "ob_command_id m' = ob_command_id row" "outbox_row_ok (f m')"
    and s2: "s2 = s1\<lparr>core := (core s1)\<lparr>outbox_messages := replace_row m' (f m') (outbox s1)\<rparr>\<rparr>"
    by (rule update_outbox_messages_one[OF um])
  have "m' = row" using message_unique[OF ok _ m(1)] m'(1,2) by (simp add: s1)
  note m' = m'[unfolded this] and s2 = s2[unfolded this]
  have st: "ob_status (f row) \<in> {Out_retry_scheduled, Out_dead}" "ob_lease_owner (f row) = None"
    "same_delivery row (f row)" "same_envelope row (f row)"
    by (auto simp: f_def requeued_def buried_def same_delivery_def same_envelope_def same_command_def)
  have rd: "message_readable row" using messaging_okD(4)[OF ok] m(1) by (simp add: list_all_iff)
  have "messaging_ok (mw_db w') \<and> messaging_evolves (mw_db w) (mw_db w')"
  proof (rule release_step[OF ok m a(1) op lm st(3) _ _ m'(3)])
    show "ob_status (f row) \<noteq> Out_processing" "delivery_step (delivery_of row) (delivery_of (f row))"
      using m(2) by (auto simp: f_def requeued_def buried_def delivery_of_def intro: delivery_step.intros)
    show "message_readable (f row)" by (rule readable_transition[OF rd st(4) m'(3)]) (simp add: st(2))
    show "attempt_advances a (expire_attempt now code a)" "\<not> attempt_open (expire_attempt now code a)"
      using op by (simp_all add: attempt_advances_def attempt_open_def expire_attempt_def)
    show "mw_db w' = (mw_db w)\<lparr>core := (core (mw_db w))\<lparr>outbox_messages := replace_row row (f row) (outbox (mw_db w))\<rparr>,
        outbox_delivery_attempts := replace_row a (expire_attempt now code a) (outbox_delivery_attempts (mw_db w))\<rparr>"
      by (simp add: w' s2 s1)
  qed (rule a(3))
  moreover have "outbox (mw_db w') = replace_row row (f row) (outbox (mw_db w))" by (simp add: w' s2 s1)
  ultimately show ?thesis unfolding f_def by blast
qed

lemma recover_row_step:
  assumes ok: "messaging_ok (mw_db w)" and m: "row \<in> set (outbox (mw_db w))" "ob_status row = Out_processing"
    and run: "recover_row E row w = (Inr u, w')"
  shows "messaging_ok (mw_db w') \<and> messaging_evolves (mw_db w) (mw_db w')
    \<and> (\<exists>t1 t2. outbox (mw_db w') = replace_row row ((if ob_attempts_in_cycle row < 8 then requeued t1 t2 else buried t1 t2) row)
         (outbox (mw_db w)))"
proof -
  obtain a now w0 w1 where f: "finalize_exhausted E row a now w0 = (Inr (), w1)"
    and e: "expire_row E row now w1 = (Inr u, w')" and w0: "mw_db w0 = mw_db w"
    using run unfolding recover_row_def
    by (clarsimp simp: success_simps Let_def split: option.splits)
  have s: "messaging_ok (mw_db w1)" "messaging_evolves (mw_db w) (mw_db w1)" "outbox (mw_db w1) = outbox (mw_db w)"
    using finalize_exhausted_step[of w0 E row a now "()" w1] f ok by (simp_all add: w0)
  show ?thesis
    using expire_row_step[OF s(1) _ m(2) e] m(1) s(2,3) messaging_evolves_trans by auto
qed

lemma recover_rows_step:
  assumes "messaging_ok (mw_db w)" and "set rows \<subseteq> set (outbox (mw_db w))"
    and "distinct (map ob_command_id rows)" and "\<forall>r\<in>set rows. ob_status r = Out_processing"
    and "recover_rows E rows w = (Inr n, w')"
  shows "messaging_ok (mw_db w') \<and> messaging_evolves (mw_db w) (mw_db w') \<and> n = length rows"
  using assms
proof (induction rows arbitrary: w n)
  case Nil
  then show ?case by (simp add: messaging_evolves_refl)
next
  case (Cons r rows)
  obtain u w1 k where run: "recover_row E r w = (Inr u, w1)" "recover_rows E rows w1 = (Inr k, w')" "n = Suc k"
    using Cons.prems(5) by (auto simp: success_simps)
  have "r \<in> set (outbox (mw_db w))" "ob_status r = Out_processing" using Cons.prems(2,4) by simp_all
  note s = recover_row_step[OF Cons.prems(1) this run(1)]
  have "r \<notin> set rows" using Cons.prems(3) by auto
  then have "set rows \<subseteq> set (outbox (mw_db w1))" using s Cons.prems(2) by (auto simp: set_replace_row)
  then have "messaging_ok (mw_db w') \<and> messaging_evolves (mw_db w1) (mw_db w') \<and> k = length rows"
    using Cons.IH[OF _ _ _ _ run(2)] s Cons.prems(3,4) by simp
  then show ?case using s run(3) messaging_evolves_trans by auto
qed

lemma keeps_recover_expired_outbox_leases:
  assumes "messaging.lawful E"
  shows "messaging.keeps (recover_expired_outbox_leases E n)"
proof -
  have "messaging.commits (bnd (select_expired_outbox E n) (recover_rows E))"
  proof (rule messaging.commitsI)
    fix w k w'
    assume ok: "messaging_ok (mw_db w)" and "bnd (select_expired_outbox E n) (recover_rows E) w = (Inr k, w')"
    then obtain rows w1 where sel: "select_expired_outbox E n w = (Inr rows, w1)"
      and run: "recover_rows E rows w1 = (Inr k, w')"
      by (auto simp: bnd_Inr)
    note s = select_expired_outbox_Inr[OF sel ok]
    show "messaging_ok (mw_db w') \<and> messaging_evolves (mw_db w) (mw_db w')"
      using recover_rows_step[OF _ _ s(3,4) run] ok s(1,2) by simp
  qed
  then show ?thesis
    unfolding recover_expired_outbox_leases_def
    by (intro messaging.keeps_try messaging.keeps_transaction[OF assms]) simp_all
qed

end
