(* ===== verification/Provider_Failure.thy ===== *)
theory Provider_Failure
  imports Outbox_Recovery "HOL-Library.Sublist"
begin

text \<open>
  The manual-review fallback when no provider connection can be resolved for a confirmed operation
  (\<^verbatim>\<open>src/agent/integrations/provider_failure.py\<close>): one transaction moves the operation to manual
  review, creates or reuses the review case of its thread and records the confirmation, the status
  change and the attachment; a lost race for the case is retried.
\<close>

section \<open>Definitions\<close>

datatype queue_failure_action = Review_created | Review_reused | Review_duplicate_ignored

record provider_queue_failure_result =
  pq_operation :: order_operation
  pq_support_case :: support_case
  pq_action :: queue_failure_action

definition queue_failure_key :: "uuid \<Rightarrow> string \<Rightarrow> string \<Rightarrow> string" where
  "queue_failure_key operation_id part request_id =
     ''provider-queue-failure:'' @ uuid_str operation_id @ '':'' @ part @ '':'' @ request_id"

definition reviewed :: "order_operation \<Rightarrow> uuid \<Rightarrow> instant \<Rightarrow> order_operation \<Rightarrow> order_operation" where
  "reviewed x case_id now r =
     r\<lparr>op_requires_manual_review := True, op_review_case_type := Some Rec_order_operation_review,
       op_review_priority := Some P1, op_support_case_id := Some case_id,
       op_status := Manual_review, op_updated_at := now, op_version := op_version x + 1\<rparr>"

text \<open>An operation that is under review already is returned with its case.\<close>

definition existing_review ::
  "order_operation \<Rightarrow> uuid \<Rightarrow> (mworld, provider_queue_failure_result) prog" where
  "existing_review x case_id =
     bnd (fetch (\<lambda>s. find (\<lambda>k. cs_case_id k = case_id) (support_cases (core s)))) (\<lambda>row.
     case row of
       None \<Rightarrow> throw (ValueError ''operation manual-review case is unavailable'')
     | Some r \<Rightarrow>
        bnd (lift (mk_support_case r)) (\<lambda>k.
        bnd (require (cs_tenant_id k = op_tenant_id x \<and> cs_customer_id k = op_customer_id x
                \<and> cs_case_type k = Order_operation_review)
               (ValueError ''operation manual-review case association is invalid'')) (\<lambda>_.
          ret \<lparr>pq_operation = x, pq_support_case = k, pq_action = Review_duplicate_ignored\<rparr>)))"

definition open_review_case ::
  "menvironment \<Rightarrow> order_operation \<Rightarrow> string \<Rightarrow> instant \<Rightarrow> (mworld, support_case) prog" where
  "open_review_case E x request_id now =
     bnd (uuid4 E) (\<lambda>case_id.
     bnd (lift (mk_support_case (technical_review_case case_id x now))) (\<lambda>k.
     bnd (uuid4 E) (\<lambda>event_id.
     bnd (lift (mk_support_case_event
            ((blank_case_event event_id (queue_failure_key (op_operation_id x) ''case'' request_id)
                (cs_case_id k) Case_created (cs_customer_id k) (cs_tenant_id k) now)
              \<lparr>ce_source_message_id := Some (cs_source_message_id k), ce_order_id := cs_order_id k,
               ce_reason_codes := cs_reason_codes k,
               ce_triggering_message_excerpt := cs_triggering_message_excerpt k,
               ce_current_priority := Some P1, ce_current_status := Some Open\<rparr>))) (\<lambda>event.
     bnd (execute (on_core (\<lambda>s. map_sum id (Pair ()) (insert_support_case k s)))) (\<lambda>_.
     bnd (execute (on_core (\<lambda>s. map_sum id (Pair ()) (insert_case_event event s)))) (\<lambda>_.
       ret k))))))"

definition extend_review_case ::
  "menvironment \<Rightarrow> order_operation \<Rightarrow> string \<Rightarrow> instant \<Rightarrow> support_case \<Rightarrow> (mworld, support_case) prog" where
  "extend_review_case E x request_id now existing =
     (let reasons = dedup (cs_reason_codes existing @ [Provider_delivery_failed]);
          k = existing\<lparr>cs_priority := P1, cs_reason_codes := reasons, cs_updated_at := now,
                 cs_version := cs_version existing + 1\<rparr> in
      bnd (execute (on_core (update_support_cases
             (\<lambda>q. cs_case_id q = cs_case_id k \<and> cs_version q = cs_version existing)
             (\<lambda>q. q\<lparr>cs_priority := P1, cs_reason_codes := reasons, cs_updated_at := now,
                    cs_version := cs_version existing + 1\<rparr>)))) (\<lambda>affected.
      bnd (require (affected = 1) ConcurrentOperationUpdateError) (\<lambda>_.
      bnd (uuid4 E) (\<lambda>event_id.
      bnd (lift (mk_support_case_event
             ((blank_case_event event_id (queue_failure_key (op_operation_id x) ''case'' request_id)
                 (cs_case_id k) Trigger_appended (cs_customer_id k) (cs_tenant_id k) now)
               \<lparr>ce_source_message_id := Some (op_source_message_id x),
                ce_order_id := Some (op_order_id x), ce_reason_codes := [Provider_delivery_failed],
                ce_triggering_message_excerpt := op_request_excerpt x,
                ce_previous_priority := Some (cs_priority existing), ce_current_priority := Some P1,
                ce_current_status := Some (cs_status k), ce_actor := Some ''system''\<rparr>))) (\<lambda>event.
      bnd (execute (on_core (\<lambda>s. map_sum id (Pair ()) (insert_case_event event s)))) (\<lambda>_.
        ret k))))))"

definition obtain_review_case ::
  "menvironment \<Rightarrow> order_operation \<Rightarrow> string \<Rightarrow> instant \<Rightarrow> (mworld, support_case \<times> queue_failure_action) prog" where
  "obtain_review_case E x request_id now =
     bnd (fetch (active_review_case x)) (\<lambda>row.
     case row of
       None \<Rightarrow> bnd (open_review_case E x request_id now) (\<lambda>k. ret (k, Review_created))
     | Some r \<Rightarrow>
        bnd (lift (mk_support_case r)) (\<lambda>existing.
        bnd (extend_review_case E x request_id now existing) (\<lambda>k. ret (k, Review_reused))))"

definition review_events ::
  "menvironment \<Rightarrow> access_scope \<Rightarrow> order_operation \<Rightarrow> string \<Rightarrow> uuid \<Rightarrow> instant
     \<Rightarrow> (mworld, order_operation_event list) prog" where
  "review_events E scope x request_id case_id now =
     bnd (uuid4 E) (\<lambda>id1.
     bnd (lift (sc_identity scope)) (\<lambda>actor.
     bnd (lift (mk_order_operation_event
            (blank_operation_event id1 (queue_failure_key (op_operation_id x) ''confirmed'' request_id)
               x Confirmation_recorded actor now))) (\<lambda>confirmed.
     bnd (uuid4 E) (\<lambda>id2.
     bnd (lift (mk_order_operation_event
            ((blank_operation_event id2 (queue_failure_key (op_operation_id x) ''status'' request_id)
               x Status_changed ''system'' now)
              \<lparr>oe_previous_status := Some (op_status x), oe_current_status := Some Manual_review\<rparr>))) (\<lambda>status.
     bnd (uuid4 E) (\<lambda>id3.
     bnd (lift (mk_order_operation_event
            ((blank_operation_event id3 (queue_failure_key (op_operation_id x) ''case-attached'' request_id)
               x Support_case_attached ''system'' now)
              \<lparr>oe_support_case_id := Some case_id\<rparr>))) (\<lambda>attached.
       ret [confirmed, status, attached])))))))"

definition insert_events_stmt :: "order_operation_event list \<Rightarrow> (mworld, unit) prog" where
  "insert_events_stmt es = execute (on_core (\<lambda>s. map_sum id (Pair ()) (insert_operation_events es s)))"

definition record_review ::
  "menvironment \<Rightarrow> access_scope \<Rightarrow> order_operation \<Rightarrow> string \<Rightarrow> bool \<Rightarrow> uuid \<Rightarrow> instant \<Rightarrow> (mworld, unit) prog" where
  "record_review E scope x request_id replay case_id now =
     (if replay then ret ()
      else bnd (review_events E scope x request_id case_id now) insert_events_stmt)"

definition move_pending ::
  "menvironment \<Rightarrow> access_scope \<Rightarrow> order_operation \<Rightarrow> string \<Rightarrow> bool \<Rightarrow> instant
     \<Rightarrow> (mworld, provider_queue_failure_result) prog" where
  "move_pending E scope x request_id replay now =
     bnd (obtain_review_case E x request_id now) (\<lambda>(k, action).
     bnd (execute (on_core (update_order_operations
            (\<lambda>q. op_operation_id q = op_operation_id x \<and> op_version q = op_version x)
            (reviewed x (cs_case_id k) now)))) (\<lambda>affected.
     bnd (require (affected = 1) ConcurrentOperationUpdateError) (\<lambda>_.
     bnd (record_review E scope x request_id replay (cs_case_id k) now) (\<lambda>_.
       ret \<lparr>pq_operation = reviewed x (cs_case_id k) now x, pq_support_case = k, pq_action = action\<rparr>))))"

definition move_selected ::
  "menvironment \<Rightarrow> access_scope \<Rightarrow> order_operation \<Rightarrow> string \<Rightarrow> bool \<Rightarrow> instant
     \<Rightarrow> (mworld, provider_queue_failure_result) prog" where
  "move_selected E scope x request_id replay now =
     (case (op_status x, op_support_case_id x) of
        (Manual_review, Some case_id) \<Rightarrow> existing_review x case_id
      | _ \<Rightarrow>
         bnd (require (op_status x = Pending_confirmation)
                (ValueError ''operation is not eligible for provider manual review'')) (\<lambda>_.
           move_pending E scope x request_id replay now))"

definition move_body ::
  "menvironment \<Rightarrow> access_scope \<Rightarrow> uuid \<Rightarrow> string \<Rightarrow> instant \<Rightarrow> (mworld, provider_queue_failure_result) prog" where
  "move_body E scope operation_id request_id now =
     bnd (fetch (\<lambda>s. find (\<lambda>x. op_operation_id x = operation_id) (order_operations (core s)))) (\<lambda>row.
     case row of
       None \<Rightarrow> throw OperationNotFoundError
     | Some r \<Rightarrow>
        bnd (lift (mk_order_operation r)) (\<lambda>x.
        bnd (require (op_tenant_id x = sc_tenant_id scope \<and> Some (op_customer_id x) = sc_customer_id scope)
               OperationNotFoundError) (\<lambda>_.
        bnd (fetch (\<lambda>s. list_ex (\<lambda>e. oe_idempotency_key e = queue_failure_key operation_id ''confirmed'' request_id)
               (order_operation_events (core s)))) (\<lambda>replay.
          move_selected E scope x request_id replay now))))"

definition move_once ::
  "menvironment \<Rightarrow> access_scope \<Rightarrow> uuid \<Rightarrow> string \<Rightarrow> (mworld, provider_queue_failure_result) prog" where
  "move_once E scope operation_id request_id =
     bnd (local_clock E) (\<lambda>now. transaction E (move_body E scope operation_id request_id now))"

text \<open>The retry of a lost race for the thread's review case; \<open>n\<close> attempts are left.\<close>

fun move_attempts ::
  "menvironment \<Rightarrow> access_scope \<Rightarrow> uuid \<Rightarrow> string \<Rightarrow> nat \<Rightarrow> (mworld, provider_queue_failure_result) prog" where
  "move_attempts E scope operation_id request_id 0 = throw AssertionError"
| "move_attempts E scope operation_id request_id (Suc n) =
     try_except (move_once E scope operation_id request_id) (\<lambda>e.
       case e of
         DatabaseError (Some cons) \<Rightarrow>
           if cons \<noteq> ''uq_support_cases_active_thread_type'' \<or> n = 0 then throw OperationPersistenceError
           else move_attempts E scope operation_id request_id n
       | DatabaseError None \<Rightarrow> throw OperationPersistenceError
       | _ \<Rightarrow> throw e)"

definition move_to_manual_review ::
  "menvironment \<Rightarrow> access_scope \<Rightarrow> uuid \<Rightarrow> string \<Rightarrow> (mworld, provider_queue_failure_result) prog" where
  "move_to_manual_review E scope operation_id request_id =
     (let request_id = strip request_id in
      bnd (require (request_id \<noteq> []) (ValueError ''request_id must be non-empty'')) (\<lambda>_.
        move_attempts E scope operation_id request_id 3))"

section \<open>The contract\<close>

text \<open>
  A recorded confirmation belongs to an operation that has left \<^verbatim>\<open>pending_confirmation\<close>: the
  coordinator relies on it when it skips the audit events of a request it has seen.
\<close>

definition review_confirmed :: "idb \<Rightarrow> bool" where
  "review_confirmed s \<longleftrightarrow>
     list_all (\<lambda>x. op_status x = Pending_confirmation \<longrightarrow>
       list_all (\<lambda>e. \<not> prefix (queue_failure_key (op_operation_id x) ''confirmed'' []) (oe_idempotency_key e))
         (order_operation_events (core s))) (order_operations (core s))"

interpretation queue_failure: table_contract "\<lambda>s. messaging_ok s \<and> review_confirmed s" messaging_evolves
  by unfold_locales (rule messaging_evolves_refl, rule messaging_evolves_trans)

lemma queue_failure_key_append: "queue_failure_key u part r = queue_failure_key u part [] @ r"
  by (simp add: queue_failure_key_def)

lemma queue_failure_key_prefix:
  assumes "prefix (queue_failure_key u p []) (queue_failure_key v q r)"
  shows "u = v"
proof -
  obtain z where "queue_failure_key u p [] @ z = queue_failure_key v q r"
    using assms by (auto elim: prefixE)
  then show ?thesis by (simp add: queue_failure_key_def) (metis length_uuid_str append_eq_append_conv uuid_str_inj)
qed

lemma open_review_case_step:
  assumes ok: "messaging_ok (mw_db w)" and run: "open_review_case E x rid now w = (Inr k, w')"
  shows "case_step (mw_db w) (mw_db w')"
proof -
  obtain cid eid e d1 d2 where k: "mk_support_case (technical_review_case cid x now) = Inr k"
    and e: "mk_support_case_event
            ((blank_case_event eid (queue_failure_key (op_operation_id x) ''case'' rid)
                (cs_case_id k) Case_created (cs_customer_id k) (cs_tenant_id k) now)
              \<lparr>ce_source_message_id := Some (cs_source_message_id k), ce_order_id := cs_order_id k,
               ce_reason_codes := cs_reason_codes k,
               ce_triggering_message_excerpt := cs_triggering_message_excerpt k,
               ce_current_priority := Some P1, ce_current_status := Some Open\<rparr>) = Inr e"
    and ins: "insert_support_case k (core (mw_db w)) = Inr d1" "insert_case_event e d1 = Inr d2"
    and w': "mw_db w' = (mw_db w)\<lparr>core := d2\<rparr>"
    using run unfolding open_review_case_def by (auto simp: statement_simps)
  show ?thesis
    unfolding w' by (intro open_case_step[OF ok k e _ _ _ ins]) (simp_all add: blank_case_event_def)
qed

lemma extend_review_case_step:
  assumes ok: "messaging_ok (mw_db w)" and r: "r \<in> set (support_cases (core (mw_db w)))"
      "mk_support_case r = Inr existing"
    and run: "extend_review_case E x rid now existing w = (Inr k, w')"
  shows "case_step (mw_db w) (mw_db w')"
proof -
  let ?f = "\<lambda>q. q\<lparr>cs_priority := P1,
       cs_reason_codes := dedup (cs_reason_codes existing @ [Provider_delivery_failed]),
       cs_updated_at := now, cs_version := cs_version existing + 1\<rparr>"
  have ex: "existing = trim_support_case r" using r(2) by (auto simp: mk_support_case_Inr)
  obtain d1 e d2 eid where up: "update_support_cases
      (\<lambda>q. cs_case_id q = cs_case_id existing \<and> cs_version q = cs_version existing) ?f (core (mw_db w)) = Inr (1, d1)"
    and e: "mk_support_case_event ((blank_case_event eid (queue_failure_key (op_operation_id x) ''case'' rid)
                 (cs_case_id existing) Trigger_appended (cs_customer_id existing) (cs_tenant_id existing) now)
               \<lparr>ce_source_message_id := Some (op_source_message_id x),
                ce_order_id := Some (op_order_id x), ce_reason_codes := [Provider_delivery_failed],
                ce_triggering_message_excerpt := op_request_excerpt x,
                ce_previous_priority := Some (cs_priority existing), ce_current_priority := Some P1,
                ce_current_status := Some (cs_status existing), ce_actor := Some ''system''\<rparr>) = Inr e"
    and ins: "insert_case_event e d1 = Inr d2" and w': "mw_db w' = (mw_db w)\<lparr>core := d2\<rparr>"
    using run unfolding extend_review_case_def by (auto simp: statement_simps Let_def simp del: One_nat_def)
  have esc: "escalated r (?f r)" by (auto simp: escalated_def ex trim_support_case_sel)
  have ev: "ce_case_id e = cs_case_id r" "ce_event_type e = Trigger_appended" "ce_current_status e = Some (cs_status r)"
    "case_event_readable e"
    using mk_support_case_eventD[OF e] by (simp_all add: blank_case_event_def ex trim_support_case_sel)
  have d2: "d2 = d1\<lparr>support_case_events := support_case_events d1 @ [e]\<rparr>"
    using ins by (simp add: insert_case_event_Inr)
  show ?thesis
    unfolding w'
    by (rule escalate_case_step[OF ok r up _ esc d2]) (use insert_case_event_ok[OF _ ins] ev in auto)
qed

lemma obtain_review_case_step:
  assumes ok: "messaging_ok (mw_db w)" and run: "obtain_review_case E x rid now w = (Inr (k, act), w')"
  shows "case_step (mw_db w) (mw_db w')"
proof (cases "active_review_case x (mw_db w)")
  case None
  then show ?thesis
    using run open_review_case_step[OF ok] by (auto simp: obtain_review_case_def success_simps)
next
  case (Some r)
  then have "r \<in> set (support_cases (core (mw_db w)))"
    unfolding active_review_case_def by (blast dest: find_SomeD)
  moreover obtain existing where "mk_support_case r = Inr existing"
    "extend_review_case E x rid now existing w = (Inr k, w')"
    using run Some by (auto simp: obtain_review_case_def success_simps)
  ultimately show ?thesis using extend_review_case_step[OF ok] by blast
qed

text \<open>A stripped request id keeps the composed keys free of surrounding white space.\<close>

definition clean_request :: "string \<Rightarrow> bool" where
  "clean_request r \<longleftrightarrow> r \<noteq> [] \<and> \<not> is_white_space (last r)"

lemma white_space_is_space: "is_white_space c \<Longrightarrow> is_space c"
  by (auto simp: is_white_space_def is_space_def Let_def)

lemma clean_request_strip: "strip r \<noteq> [] \<Longrightarrow> clean_request (strip r)"
  using stripped_by_strip_by[of is_space r] white_space_is_space
  by (auto simp: clean_request_def strip_def stripped_by_def)

lemma trim_queue_failure_key: "clean_request r \<Longrightarrow> trim (queue_failure_key u p r) = queue_failure_key u p r"
  unfolding trim_def
  by (rule strip_by_id) (simp add: stripped_by_def queue_failure_key_def clean_request_def is_white_space_def)

lemma review_events_Inr:
  assumes "review_events E scope x rid cid now w = (Inr es, w')" and rid: "clean_request rid"
  shows "mw_db w' = mw_db w"
    and "\<And>e. e \<in> set es \<Longrightarrow> oe_operation_id e = op_operation_id x \<and> operation_event_readable e
      \<and> (\<exists>p. oe_idempotency_key e = queue_failure_key (op_operation_id x) p rid)"
    and "replay_operation (op_status x) es = Some Manual_review"
    and "list_ex (\<lambda>e. oe_idempotency_key e = queue_failure_key (op_operation_id x) ''confirmed'' rid) es"
proof -
  let ?key = "\<lambda>p. queue_failure_key (op_operation_id x) p rid"
  obtain id1 id2 id3 actor e1 e2 e3 where es: "es = [e1, e2, e3]" and w': "mw_db w' = mw_db w"
    and e1: "mk_order_operation_event (blank_operation_event id1 (?key ''confirmed'') x Confirmation_recorded actor now) = Inr e1"
    and e2: "mk_order_operation_event ((blank_operation_event id2 (?key ''status'') x Status_changed ''system'' now)
        \<lparr>oe_previous_status := Some (op_status x), oe_current_status := Some Manual_review\<rparr>) = Inr e2"
    and e3: "mk_order_operation_event ((blank_operation_event id3 (?key ''case-attached'') x Support_case_attached ''system'' now)
        \<lparr>oe_support_case_id := Some cid\<rparr>) = Inr e3"
    using assms(1) unfolding review_events_def by (auto simp: success_simps)
  have key: "oe_idempotency_key e1 = ?key ''confirmed''" "oe_idempotency_key e2 = ?key ''status''"
    "oe_idempotency_key e3 = ?key ''case-attached''"
    using e1 e2 e3 by (auto simp: mk_order_operation_event_Inr trim_queue_failure_key[OF rid] blank_operation_event_def)
  note d1 = mk_order_operation_eventD[OF e1] and d2 = mk_order_operation_eventD[OF e2]
    and d3 = mk_order_operation_eventD[OF e3]
  show "mw_db w' = mw_db w" by (rule w')
  show "oe_operation_id e = op_operation_id x \<and> operation_event_readable e
      \<and> (\<exists>p. oe_idempotency_key e = queue_failure_key (op_operation_id x) p rid)" if "e \<in> set es" for e
    using that d1 d2 d3 key unfolding es by (auto simp: blank_operation_event_def)
  show "replay_operation (op_status x) es = Some Manual_review"
    using d1 d2 d3 by (simp add: es blank_operation_event_def)
  show "list_ex (\<lambda>e. oe_idempotency_key e = ?key ''confirmed'') es" by (simp add: es key)
qed

lemma moved_reviewed: "moved r (reviewed x cid now r)"
  by (simp add: moved_def reviewed_def)

lemma move_pending_step:
  assumes ok: "messaging_ok (mw_db w)" and conf: "review_confirmed (mw_db w)" and rid: "clean_request rid"
    and r: "r \<in> set (order_operations (core (mw_db w)))" "mk_order_operation r = Inr x" "op_status x = Pending_confirmation"
    and run: "move_pending E scope x rid False now w = (Inr res, w')"
  shows "messaging_ok (mw_db w') \<and> messaging_evolves (mw_db w) (mw_db w')" "review_confirmed (mw_db w')"
proof -
  obtain k act w1 d1 w2 es w3 t where obt: "obtain_review_case E x rid now w = (Inr (k, act), w1)"
    and up: "update_order_operations (\<lambda>q. op_operation_id q = op_operation_id x \<and> op_version q = op_version x)
            (reviewed x (cs_case_id k) now) (core (mw_db w1)) = Inr (1, d1)"
    and w2: "mw_db w2 = (mw_db w1)\<lparr>core := d1\<rparr>"
    and ev: "review_events E scope x rid (cs_case_id k) now w2 = (Inr es, w3)"
    and ins: "insert_operation_events es (core (mw_db w3)) = Inr t"
    and w': "mw_db w' = (mw_db w3)\<lparr>core := t\<rparr>"
    using run unfolding move_pending_def record_review_def insert_events_stmt_def
    by (clarsimp simp: statement_simps simp del: One_nat_def) (rule that, assumption+, simp_all)
  note es = review_events_Inr[OF ev rid]
  have s1: "case_step (mw_db w) (mw_db w1)" by (rule obtain_review_case_step[OF ok obt])
  have com: "committed (core (mw_db w1))" using s1 messaging_okD(1) by (simp add: case_step_def)
  have r1: "r \<in> set (order_operations (core (mw_db w1)))" using s1 r(1) by (simp add: case_step_def)
  have rr: "op_operation_id x = op_operation_id r" "valid_order_operation x"
    using r(2) by (auto simp: mk_order_operation_Inr)
  have read: "operation_readable r"
    using committedD(2)[OF messaging_okD(1)[OF ok]] r(1) by (simp add: readable_def list_all_iff)
  have ins': "insert_operation_events es d1 = Inr t" using ins es(1) w2 by simp
  have "non_empty_option (map_option trim (op_provider_reference (reviewed x (cs_case_id k) now r)))"
    using read by (simp add: reviewed_def operation_readable_def valid_order_operation_def trim_order_operation_def)
  note mv = operation_move_contract[OF com r1 r(2) up moved_reviewed _ _ this ins' _ _]
  have c: "committed t \<and> evolves (core (mw_db w1)) t \<and> outbox_messages t = outbox (mw_db w1)"
    by (rule mv(1)) (use es r(3) in \<open>auto simp: reviewed_def lifecycle_edge_def\<close>)
  have ops: "order_operations t = replace_row r (reviewed x (cs_case_id k) now r) (order_operations (core (mw_db w1)))"
    by (rule mv(2)) (use es r(3) in \<open>auto simp: reviewed_def lifecycle_edge_def\<close>)
  have evs: "order_operation_events t = order_operation_events (core (mw_db w1)) @ es"
    by (rule mv(3)) (use es r(3) in \<open>auto simp: reviewed_def lifecycle_edge_def\<close>)
  have db: "mw_db w' = (mw_db w1)\<lparr>core := t\<rparr>" using w' es(1) w2 by simp
  have "messaging_ok (mw_db w') \<and> messaging_evolves (mw_db w1) (mw_db w')"
    unfolding db using s1 c by (intro core_step) (simp_all add: case_step_def)
  then show "messaging_ok (mw_db w') \<and> messaging_evolves (mw_db w) (mw_db w')"
    using s1 messaging_evolves_trans unfolding case_step_def by blast
  show "review_confirmed (mw_db w')"
    unfolding review_confirmed_def list_all_iff
  proof (intro ballI impI)
    fix q e
    assume q: "q \<in> set (order_operations (core (mw_db w')))" "op_status q = Pending_confirmation"
      and e: "e \<in> set (order_operation_events (core (mw_db w')))"
    have "q \<noteq> reviewed x (cs_case_id k) now r" using q(2) by (auto simp: reviewed_def)
    have q': "q \<in> set (order_operations (core (mw_db w)))" "q \<noteq> r"
      using q s1 \<open>q \<noteq> reviewed x (cs_case_id k) now r\<close>
      by (auto simp: db ops set_replace_row case_step_def split: if_splits)
    have ne: "op_operation_id q \<noteq> op_operation_id x"
      using distinct_map_eqD[OF committedD(5)[OF messaging_okD(1)[OF ok]] q'(1) r(1)] q'(2) rr(1) by auto
    from e consider (old) "e \<in> set (order_operation_events (core (mw_db w)))" | (new) "e \<in> set es"
      using s1 by (auto simp: db evs case_step_def)
    then show "\<not> prefix (queue_failure_key (op_operation_id q) ''confirmed'' []) (oe_idempotency_key e)"
    proof cases
      case old
      then show ?thesis using conf q'(1) q(2) by (simp add: review_confirmed_def list_all_iff)
    next
      case new
      then show ?thesis using es(2) queue_failure_key_prefix ne by metis
    qed
  qed
qed

lemma move_body_commits:
  assumes rid: "clean_request rid"
  shows "queue_failure.commits (move_body E scope oid rid now)"
proof (rule queue_failure.commitsI, elim conjE)
  fix w res w'
  assume ok: "messaging_ok (mw_db w)" "review_confirmed (mw_db w)" and run: "move_body E scope oid rid now w = (Inr res, w')"
  let ?replay = "list_ex (\<lambda>e. oe_idempotency_key e = queue_failure_key oid ''confirmed'' rid)
      (order_operation_events (core (mw_db w)))"
  obtain r x where r: "find (\<lambda>x. op_operation_id x = oid) (order_operations (core (mw_db w))) = Some r"
    and x: "mk_order_operation r = Inr x" and sel: "move_selected E scope x rid ?replay now w = (Inr res, w')"
    using run unfolding move_body_def by (auto simp: success_simps split: option.splits)
  have rin: "r \<in> set (order_operations (core (mw_db w)))" "op_operation_id r = oid" "op_status r = op_status x"
    using find_SomeD[OF r] x by (auto simp: mk_order_operation_Inr)
  have "messaging_ok (mw_db w') \<and> messaging_evolves (mw_db w) (mw_db w') \<and> review_confirmed (mw_db w')"
  proof (cases "op_status x = Pending_confirmation")
    case True
    then have "\<not> ?replay"
      using ok(2) rin unfolding queue_failure_key_append[of oid _ rid]
      by (fastforce simp: review_confirmed_def list_all_iff list_ex_iff)
    then have "move_pending E scope x rid False now w = (Inr res, w')"
      using sel True by (simp add: move_selected_def success_simps)
    then show ?thesis using move_pending_step[OF ok rid rin(1) x True] by simp
  next
    case False
    then obtain c where "existing_review x c w = (Inr res, w')"
      using sel by (auto simp: move_selected_def success_simps split: operation_record_status.splits option.splits)
    then have "w' = w" by (auto simp: existing_review_def success_simps split: option.splits)
    then show ?thesis using ok messaging_evolves_refl by simp
  qed
  then show "(messaging_ok (mw_db w') \<and> review_confirmed (mw_db w')) \<and> messaging_evolves (mw_db w) (mw_db w')" by simp
qed

lemma keeps_move_to_manual_review:
  assumes "queue_failure.lawful E"
  shows "queue_failure.keeps (move_to_manual_review E scope oid rid)"
proof -
  have one: "queue_failure.keeps (move_once E scope oid (strip rid))" if "strip rid \<noteq> []"
    unfolding move_once_def
    by (intro queue_failure.keeps_bnd queue_failure.keeps_transaction[OF assms] move_body_commits
        clean_request_strip that) simp
  have "queue_failure.keeps (move_attempts E scope oid (strip rid) n)" if "strip rid \<noteq> []" for n
  proof (induction n)
    case (Suc n)
    then show ?case by (auto intro!: queue_failure.keeps_try one[OF that] split: exn.split option.split)
  qed simp
  then show ?thesis
    unfolding move_to_manual_review_def Let_def
    by (cases "strip rid = []")
       (auto simp: require_def ret_def throw_def queue_failure.keeps_def bnd_def messaging_evolves_refl)
qed

text \<open>A fallback that returns has the operation under review, linked to the case it returns.\<close>

lemma move_body_result:
  assumes run: "move_body E scope oid rid now w = (Inr res, w')"
  shows "\<exists>x\<in>set (order_operations (core (mw_db w'))). op_operation_id x = oid \<and> op_status x = Manual_review
    \<and> op_support_case_id x = Some (cs_case_id (pq_support_case res))"
proof -
  let ?replay = "list_ex (\<lambda>e. oe_idempotency_key e = queue_failure_key oid ''confirmed'' rid)
      (order_operation_events (core (mw_db w)))"
  obtain r x where r: "find (\<lambda>x. op_operation_id x = oid) (order_operations (core (mw_db w))) = Some r"
    and x: "mk_order_operation r = Inr x" and sel: "move_selected E scope x rid ?replay now w = (Inr res, w')"
    using run unfolding move_body_def by (auto simp: success_simps split: option.splits)
  have rin: "r \<in> set (order_operations (core (mw_db w)))" "op_operation_id r = oid" "op_operation_id x = oid"
    "op_status r = op_status x" "op_support_case_id r = op_support_case_id x"
    using find_SomeD[OF r] x by (auto simp: mk_order_operation_Inr)
  show ?thesis
  proof (cases "op_status x = Pending_confirmation")
    case True
    then obtain k and w1 w2 :: mworld and d1 where
      up: "update_order_operations (\<lambda>q. op_operation_id q = op_operation_id x \<and> op_version q = op_version x)
            (reviewed x (cs_case_id k) now) (core (mw_db w1)) = Inr (1, d1)"
      and rec: "record_review E scope x rid ?replay (cs_case_id k) now w2 = (Inr (), w')"
      and w2: "mw_db w2 = (mw_db w1)\<lparr>core := d1\<rparr>"
      and res: "pq_support_case res = k"
      using sel unfolding move_selected_def move_pending_def
      by (fastforce simp: statement_simps simp del: One_nat_def)
    have len: "length (filter (\<lambda>q. op_operation_id q = op_operation_id x \<and> op_version q = op_version x)
        (order_operations (core (mw_db w1)))) = 1"
      and d1: "order_operations d1 = update_rows (\<lambda>q. op_operation_id q = op_operation_id x \<and> op_version q = op_version x)
          (reviewed x (cs_case_id k) now) (order_operations (core (mw_db w1)))"
      using up by (auto simp: update_order_operations_def Let_def split: if_splits)
    have same: "order_operations (core (mw_db w')) = order_operations d1"
      using rec w2 unfolding record_review_def insert_events_stmt_def review_events_def
      by (auto simp: statement_simps dest!: insert_operation_events_Inr split: if_splits)
    obtain q where q: "q \<in> set (order_operations (core (mw_db w1)))" "op_operation_id q = op_operation_id x \<and> op_version q = op_version x"
      by (rule update_one_row[OF len])
    have "reviewed x (cs_case_id k) now q \<in> set (order_operations (core (mw_db w')))"
      using q by (auto simp: same d1 update_rows_def)
    then show ?thesis
      using q(2) rin(3) res by (intro bexI[of _ "reviewed x (cs_case_id k) now q"]) (simp_all add: reviewed_def)
  next
    case False
    then obtain c where c: "existing_review x c w = (Inr res, w')" "op_status x = Manual_review" "op_support_case_id x = Some c"
      using sel by (auto simp: move_selected_def success_simps split: operation_record_status.splits option.splits)
    then have "w' = w" "cs_case_id (pq_support_case res) = c"
      by (auto simp: existing_review_def success_simps mk_support_case_Inr trim_support_case_sel
          dest!: find_SomeD split: option.splits)
    then show ?thesis using rin c by auto
  qed
qed

lemma move_to_manual_review_result:
  assumes "move_to_manual_review E scope oid rid w = (Inr res, w')"
  shows "\<exists>x\<in>set (order_operations (core (mw_db w'))). op_operation_id x = oid \<and> op_status x = Manual_review
    \<and> op_support_case_id x = Some (cs_case_id (pq_support_case res))"
proof -
  have once: "\<exists>x\<in>set (order_operations (core (mw_db w'))). op_operation_id x = oid \<and> op_status x = Manual_review
    \<and> op_support_case_id x = Some (cs_case_id (pq_support_case res))"
    if "move_once E scope oid q v = (Inr res, w')" for q v
    using that move_body_result by (auto simp: move_once_def bnd_Inr elim!: transaction_Inr)
  have "\<exists>v. move_once E scope oid q v = (Inr res, w')" if "move_attempts E scope oid q n v = (Inr res, w')" for q n v
    using that
  proof (induction n arbitrary: v)
    case (Suc n)
    then show ?case
      by (auto simp: try_except_def throw_def split: prod.splits sum.splits exn.splits option.splits if_splits)
  qed (simp add: throw_def)
  moreover have "move_attempts E scope oid (strip rid) 3 w = (Inr res, w')"
    using assms by (auto simp: move_to_manual_review_def Let_def bnd_Inr)
  ultimately show ?thesis using once by blast
qed

end
