(* ===== verification/Provider_Connection.thy ===== *)
theory Provider_Connection
  imports Retry Messaging_Tables "HOL-Library.AList"
begin

text \<open>
  Outbound provider connections: their models (\<^verbatim>\<open>src/agent/integrations/models.py\<close>), the resolver that
  indexes the configured ones at startup (\<^verbatim>\<open>connection_resolver.py\<close>) and the HTTP transport that
  submits a command through one (\<^verbatim>\<open>http_adapter.py\<close>). The HTTP client and the parsers of the JSON and
  of the header are parameters.
\<close>

section \<open>Connections\<close>

datatype auth_scheme = Bearer | Api_key | No_auth

record provider_authentication =
  pa_scheme :: auth_scheme
  pa_credential :: "string option"
  pa_api_key_header :: "string option"

definition validate_authentication_shape :: "provider_authentication \<Rightarrow> exn + unit" where
  "validate_authentication_shape a =
     (case pa_scheme a of
        No_auth \<Rightarrow>
          if pa_credential a \<noteq> None \<or> pa_api_key_header a \<noteq> None
          then Inl (ValueError ''none auth must not carry credential or header'') else Inr ()
      | Bearer \<Rightarrow>
          if pa_credential a = None then Inl (ValueError ''bearer auth requires a credential'')
          else if pa_credential a = Some [] then Inl (ValueError ''bearer credential must not be empty'')
          else if pa_api_key_header a \<noteq> None
          then Inl (ValueError ''bearer auth must not set api_key_header'') else Inr ()
      | Api_key \<Rightarrow>
          if pa_credential a = None \<or> pa_api_key_header a = None
          then Inl (ValueError ''api_key auth requires credential and api_key_header'')
          else if pa_credential a = Some [] then Inl (ValueError ''api_key credential must not be empty'')
          else Inr ())"

definition valid_authentication :: "provider_authentication \<Rightarrow> bool" where
  "valid_authentication a \<longleftrightarrow>
     non_empty_option (pa_api_key_header a) \<and> validate_authentication_shape a = Inr ()"

record provider_timeout =
  pt_connect_seconds :: py_float
  pt_read_seconds :: py_float
  pt_write_seconds :: py_float

definition timeout_seconds_ok :: "py_float \<Rightarrow> bool" where
  "timeout_seconds_ok x \<longleftrightarrow> isfinite x \<and> 1 / 10 \<le> fval x \<and> fval x \<le> 300"

definition valid_timeout :: "provider_timeout \<Rightarrow> bool" where
  "valid_timeout t \<longleftrightarrow>
     timeout_seconds_ok (pt_connect_seconds t) \<and> timeout_seconds_ok (pt_read_seconds t)
     \<and> timeout_seconds_ok (pt_write_seconds t)"

text \<open>Of \<^verbatim>\<open>AnyHttpUrl\<close> the code reads the scheme and the text.\<close>

record http_url =
  url_scheme :: string
  url_text :: string

record provider_connection =
  cn_connection_id :: string
  cn_tenant_id :: string
  cn_capability :: provider_capability
  cn_base_url :: http_url
  cn_endpoint :: string
  cn_authentication :: provider_authentication
  cn_timeout :: provider_timeout
  cn_max_concurrency :: int
  cn_requests_per_second :: "py_float option"

definition valid_connection :: "provider_connection \<Rightarrow> bool" where
  "valid_connection c \<longleftrightarrow>
     cn_connection_id c \<noteq> [] \<and> cn_tenant_id c \<noteq> [] \<and> take 1 (cn_endpoint c) = ''/''
     \<and> valid_authentication (cn_authentication c) \<and> valid_timeout (cn_timeout c)
     \<and> 1 \<le> cn_max_concurrency c \<and> cn_max_concurrency c \<le> 1000
     \<and> (case cn_requests_per_second c of None \<Rightarrow> True | Some r \<Rightarrow> isfinite r \<and> 0 < fval r)"

section \<open>The resolver\<close>

type_synonym connection_index = "((string \<times> provider_capability) \<times> provider_connection) list"

record connection_resolver =
  cr_by_selection :: connection_index
  cr_by_id_and_capability :: connection_index

definition connection_identity ::
  "provider_connection \<Rightarrow> string \<times> auth_scheme \<times> string option \<times> string option \<times> provider_timeout \<times> int \<times> py_float option" where
  "connection_identity c =
     (url_text (cn_base_url c), pa_scheme (cn_authentication c), pa_credential (cn_authentication c),
      pa_api_key_header (cn_authentication c), cn_timeout c, cn_max_concurrency c, cn_requests_per_second c)"

text \<open>One round of the loop. Dictionaries keep the place of a key that is written again.\<close>

definition index_connection ::
  "bool \<Rightarrow> provider_connection \<Rightarrow> connection_resolver \<Rightarrow> exn + connection_resolver" where
  "index_connection allow_insecure_http c r =
     (let selection = (cn_tenant_id c, cn_capability c);
          existing = find (\<lambda>p. fst (fst p) = cn_connection_id c) (cr_by_id_and_capability r) in
      if url_scheme (cn_base_url c) \<noteq> ''https'' \<and> \<not> allow_insecure_http
      then Inl (ValueError ''provider connections must use https outside explicit development mode'')
      else if map_of (cr_by_selection r) selection \<noteq> None
      then Inl (ValueError ''duplicate provider connection for tenant/capability'')
      else if (case existing of None \<Rightarrow> False | Some p \<Rightarrow> connection_identity (snd p) \<noteq> connection_identity c)
      then Inl (ValueError ''connections sharing connection_id must have identical transport settings'')
      else Inr \<lparr>cr_by_selection = AList.update selection c (cr_by_selection r),
                cr_by_id_and_capability =
                  AList.update (cn_connection_id c, cn_capability c) c (cr_by_id_and_capability r)\<rparr>)"

fun index_connections ::
  "bool \<Rightarrow> provider_connection list \<Rightarrow> connection_resolver \<Rightarrow> exn + connection_resolver" where
  "index_connections insecure [] r = Inr r"
| "index_connections insecure (c # cs) r =
     (case index_connection insecure c r of Inl e \<Rightarrow> Inl e | Inr r' \<Rightarrow> index_connections insecure cs r')"

definition mk_connection_resolver :: "bool \<Rightarrow> provider_connection list \<Rightarrow> exn + connection_resolver" where
  "mk_connection_resolver allow_insecure_http connections =
     index_connections allow_insecure_http connections \<lparr>cr_by_selection = [], cr_by_id_and_capability = []\<rparr>"

text \<open>\<open>decode\<close> is the JSON parser followed by the validation of the connections.\<close>

definition resolver_from_environment ::
  "(string \<Rightarrow> provider_connection list option) \<Rightarrow> bool \<Rightarrow> string option \<Rightarrow> exn + connection_resolver" where
  "resolver_from_environment decode allow_insecure_http raw =
     (case raw of
        None \<Rightarrow> Inl (ValueError ''PROVIDER_CONNECTIONS_JSON must be configured'')
      | Some text \<Rightarrow>
          if strip text = [] then Inl (ValueError ''PROVIDER_CONNECTIONS_JSON must be configured'')
          else case decode text of
            None \<Rightarrow> Inl (ValueError ''provider connection configuration is invalid'')
          | Some connections \<Rightarrow>
              if connections = [] then Inl (ValueError ''provider connection configuration must not be empty'')
              else mk_connection_resolver allow_insecure_http connections)"

definition resolve_connection ::
  "connection_resolver \<Rightarrow> string \<Rightarrow> provider_capability \<Rightarrow> exn + provider_connection" where
  "resolve_connection r tenant_id capability =
     (case map_of (cr_by_selection r) (tenant_id, capability) of
        None \<Rightarrow> Inl ProviderConnectionNotFoundError | Some c \<Rightarrow> Inr c)"

definition resolve_by_connection_id ::
  "connection_resolver \<Rightarrow> string \<Rightarrow> provider_capability \<Rightarrow> exn + provider_connection" where
  "resolve_by_connection_id r connection_id capability =
     (case map_of (cr_by_id_and_capability r) (connection_id, capability) of
        None \<Rightarrow> Inl ProviderConnectionNotFoundError | Some c \<Rightarrow> Inr c)"

section \<open>The HTTP transport\<close>

definition MAX_PROVIDER_RESPONSE_BYTES :: nat where
  "MAX_PROVIDER_RESPONSE_BYTES = 64 * 1024"

definition lower_char :: "char \<Rightarrow> char" where
  "lower_char c = (let n = (of_char c :: nat) in if 65 \<le> n \<and> n \<le> 90 then char_of (n + 32) else c)"

text \<open>\<^verbatim>\<open>str.lower()\<close> on ASCII letters.\<close>

definition lower :: "string \<Rightarrow> string" where
  "lower s = map lower_char s"

definition reserved_headers :: "string list" where
  "reserved_headers = [''authorization'', ''content-type'', ''idempotency-key'', ''x-provider-command-id'']"

definition headers_for ::
  "provider_connection \<Rightarrow> provider_command_envelope \<Rightarrow> exn + (string \<times> string) list" where
  "headers_for connection command =
     (let headers = [(''Content-Type'', ''application/json''),
                     (''Idempotency-Key'', pc_idempotency_key command),
                     (''X-Provider-Command-ID'', uuid_str (pc_command_id command))];
          a = cn_authentication connection in
      case pa_scheme a of
        Bearer \<Rightarrow>
          (case pa_credential a of
             None \<Rightarrow> Inl AssertionError
           | Some s \<Rightarrow> Inr (AList.update ''Authorization'' (''Bearer '' @ s) headers))
      | Api_key \<Rightarrow>
          (case (pa_credential a, pa_api_key_header a) of
             (Some s, Some h) \<Rightarrow>
               if lower h \<in> set reserved_headers
               then Inl (ValueError ''api_key_header may not override a reserved transport header'')
               else Inr (AList.update h s headers)
           | _ \<Rightarrow> Inl AssertionError)
      | No_auth \<Rightarrow> Inr headers)"

definition rstrip_slash :: "string \<Rightarrow> string" where
  "rstrip_slash s = rev (dropWhile (\<lambda>c. c = CHR ''/'') (rev s))"

definition request_url :: "provider_connection \<Rightarrow> string" where
  "request_url connection = rstrip_slash (url_text (cn_base_url connection)) @ cn_endpoint connection"

text \<open>What the HTTP client makes of a request: no response, or a status, the header \<^verbatim>\<open>Retry-After\<close>
  and a body of chunks that ends or breaks off.\<close>

datatype http_break = Http_timeout | Http_transport_error

datatype http_exchange =
    No_response http_break
  | Response (re_status: int) (re_retry_after: "string option") (re_chunks: "string list")
      (re_broken: "http_break option")

record http_library =
  hl_parse_float :: "string \<Rightarrow> py_float option"
  hl_parse_date :: "string \<Rightarrow> py_datetime option"
  hl_parse_result :: "string \<Rightarrow> provider_command_result option"

fun break_error :: "http_break \<Rightarrow> exn" where
  "break_error Http_timeout = ProviderTimeoutError"
| "break_error Http_transport_error = ProviderConnectionError"

text \<open>\<^verbatim>\<open>_read_limited_body\<close>; \<open>seen\<close> bytes have been read.\<close>

fun read_limited_body :: "nat \<Rightarrow> string list \<Rightarrow> http_break option \<Rightarrow> exn + string" where
  "read_limited_body seen [] broken =
     (case broken of None \<Rightarrow> Inr [] | Some b \<Rightarrow> Inl (break_error b))"
| "read_limited_body seen (chunk # chunks) broken =
     (if MAX_PROVIDER_RESPONSE_BYTES < seen + length chunk
      then Inl (ValueError ''provider response exceeded safe size limit'')
      else map_sum id (append chunk) (read_limited_body (seen + length chunk) chunks broken))"

definition retry_after_seconds :: "http_library \<Rightarrow> instant \<Rightarrow> string option \<Rightarrow> py_float option" where
  "retry_after_seconds lib now value =
     (case value of
        None \<Rightarrow> None
      | Some v \<Rightarrow>
         (case (case hl_parse_float lib v of
                  Some x \<Rightarrow> Some x
                | None \<Rightarrow>
                   (case hl_parse_date lib v of
                      Some (Aware t) \<Rightarrow> Some (Finite (of_int (t - now) / 1000000))
                    | _ \<Rightarrow> None)) of
            None \<Rightarrow> None
          | Some seconds \<Rightarrow> if isfinite seconds then Some (Finite (max 0 (fval seconds))) else None))"

definition send_command ::
  "http_library \<Rightarrow> instant \<Rightarrow> (string \<Rightarrow> (string \<times> string) list \<Rightarrow> provider_command_envelope \<Rightarrow> http_exchange)
     \<Rightarrow> provider_connection \<Rightarrow> provider_command_envelope \<Rightarrow> exn + provider_command_result" where
  "send_command lib now post connection command =
     (case headers_for connection command of
        Inl e \<Rightarrow> Inl e
      | Inr headers \<Rightarrow>
         (case post (request_url connection) headers command of
            No_response b \<Rightarrow> Inl (break_error b)
          | Response status retry_after chunks broken \<Rightarrow>
              if status < 200 \<or> 300 \<le> status
              then (case mk_HTTPStatusError status (retry_after_seconds lib now retry_after) of
                      Inl e \<Rightarrow> Inl e | Inr e \<Rightarrow> Inl e)
              else case read_limited_body 0 chunks broken of
                Inl e \<Rightarrow> Inl e
              | Inr body \<Rightarrow>
                 (case hl_parse_result lib body of
                    None \<Rightarrow> Inl (ValueError ''provider response failed validation'')
                  | Some result \<Rightarrow>
                     if pr_command_id result \<noteq> pc_command_id command
                     then Inl (ValueError ''provider response command_id did not match request'')
                     else Inr result)))"

section \<open>What the resolver holds\<close>

definition indexed :: "bool \<Rightarrow> provider_connection list \<Rightarrow> connection_resolver \<Rightarrow> bool" where
  "indexed insecure cs r \<longleftrightarrow>
     (\<forall>t k c. map_of (cr_by_selection r) (t, k) = Some c \<longleftrightarrow> c \<in> set cs \<and> cn_tenant_id c = t \<and> cn_capability c = k)
     \<and> (\<forall>u k. map_of (cr_by_id_and_capability r) (u, k)
          = find (\<lambda>c. cn_connection_id c = u \<and> cn_capability c = k) (rev cs))
     \<and> (\<forall>c d. c \<in> set cs \<longrightarrow> d \<in> set cs \<longrightarrow> cn_connection_id c = cn_connection_id d \<longrightarrow>
          connection_identity c = connection_identity d)
     \<and> (\<forall>c\<in>set cs. insecure \<or> url_scheme (cn_base_url c) = ''https'')"

lemma indexedD:
  assumes "indexed insecure cs r"
  shows "map_of (cr_by_selection r) (t, k) = Some c \<longleftrightarrow> c \<in> set cs \<and> cn_tenant_id c = t \<and> cn_capability c = k"
    and "map_of (cr_by_id_and_capability r) (u, k)
      = find (\<lambda>c. cn_connection_id c = u \<and> cn_capability c = k) (rev cs)"
    and "c \<in> set cs \<Longrightarrow> d \<in> set cs \<Longrightarrow> cn_connection_id c = cn_connection_id d \<Longrightarrow>
      connection_identity c = connection_identity d"
    and "c \<in> set cs \<Longrightarrow> insecure \<or> url_scheme (cn_base_url c) = ''https''"
  using assms unfolding indexed_def by blast+

lemma indexed_entry:
  assumes "indexed insecure cs r" and "p \<in> set (cr_by_id_and_capability r)"
    and "distinct (map fst (cr_by_id_and_capability r))"
  shows "snd p \<in> set cs" "cn_connection_id (snd p) = fst (fst p)"
proof -
  obtain u k c where p: "p = ((u, k), c)" by (metis prod.collapse)
  have "map_of (cr_by_id_and_capability r) (u, k) = Some c" using assms(2,3) by (simp add: p)
  then have "find (\<lambda>c. cn_connection_id c = u \<and> cn_capability c = k) (rev cs) = Some c"
    using indexedD(2)[OF assms(1)] by simp
  then show "snd p \<in> set cs" "cn_connection_id (snd p) = fst (fst p)"
    by (auto simp: p dest!: find_SomeD)
qed

lemma indexed_step:
  assumes ix: "indexed insecure cs r" and dist: "distinct (map fst (cr_by_id_and_capability r))"
    and run: "index_connection insecure c r = Inr r'"
  shows "indexed insecure (cs @ [c]) r'" "distinct (map fst (cr_by_id_and_capability r'))"
proof -
  let ?sel = "(cn_tenant_id c, cn_capability c)"
  have free: "map_of (cr_by_selection r) ?sel = None" and https: "insecure \<or> url_scheme (cn_base_url c) = ''https''"
    and same: "\<And>p. find (\<lambda>p. fst (fst p) = cn_connection_id c) (cr_by_id_and_capability r) = Some p
        \<Longrightarrow> connection_identity (snd p) = connection_identity c"
    and r': "r' = \<lparr>cr_by_selection = AList.update ?sel c (cr_by_selection r),
        cr_by_id_and_capability = AList.update (cn_connection_id c, cn_capability c) c (cr_by_id_and_capability r)\<rparr>"
    using run by (auto simp: index_connection_def Let_def split: if_splits option.splits)
  show "distinct (map fst (cr_by_id_and_capability r'))" using dist by (simp add: r' distinct_update)
  have ident: "connection_identity d = connection_identity c" if d: "d \<in> set cs" "cn_connection_id d = cn_connection_id c" for d
  proof -
    have "find (\<lambda>x. cn_connection_id x = cn_connection_id d \<and> cn_capability x = cn_capability d) (rev cs) \<noteq> None"
      using d by (auto simp: find_None_iff)
    then obtain x where "map_of (cr_by_id_and_capability r) (cn_connection_id d, cn_capability d) = Some x"
      unfolding indexedD(2)[OF ix] by auto
    then have "((cn_connection_id d, cn_capability d), x) \<in> set (cr_by_id_and_capability r)" by (rule map_of_SomeD)
    then obtain p where p: "find (\<lambda>p. fst (fst p) = cn_connection_id c) (cr_by_id_and_capability r) = Some p"
      using d(2) by (cases "find (\<lambda>p. fst (fst p) = cn_connection_id c) (cr_by_id_and_capability r)")
                    (auto simp: find_None_iff)
    have "snd p \<in> set cs" "cn_connection_id (snd p) = cn_connection_id c"
      using indexed_entry[OF ix _ dist, of p] find_SomeD[OF p] by auto
    then have "connection_identity d = connection_identity (snd p)" by (intro indexedD(3)[OF ix d(1)]) (simp_all add: d(2))
    then show ?thesis using same[OF p] by simp
  qed
  show "indexed insecure (cs @ [c]) r'"
    unfolding indexed_def
  proof (intro conjI allI)
    fix t k d
    show "map_of (cr_by_selection r') (t, k) = Some d \<longleftrightarrow> d \<in> set (cs @ [c]) \<and> cn_tenant_id d = t \<and> cn_capability d = k"
    proof (cases "(t, k) = ?sel")
      case True
      then have "\<not> (d \<in> set cs \<and> cn_tenant_id d = t \<and> cn_capability d = k)"
        using indexedD(1)[OF ix, of t k d] free by auto
      then show ?thesis using True by (auto simp: r' update_conv)
    next
      case False
      then have "map_of (cr_by_selection r') (t, k) = map_of (cr_by_selection r) (t, k)"
        by (auto simp: r' update_conv)
      then show ?thesis using indexedD(1)[OF ix, of t k d] False by auto
    qed
  next
    fix u k
    show "map_of (cr_by_id_and_capability r') (u, k)
        = find (\<lambda>c. cn_connection_id c = u \<and> cn_capability c = k) (rev (cs @ [c]))"
      using indexedD(2)[OF ix, of u k] by (simp add: r' update_conv)
  next
    fix x y
    show "x \<in> set (cs @ [c]) \<longrightarrow> y \<in> set (cs @ [c]) \<longrightarrow> cn_connection_id x = cn_connection_id y \<longrightarrow>
        connection_identity x = connection_identity y"
      using indexedD(3)[OF ix, of x y] ident by auto
  next
    show "\<forall>c\<in>set (cs @ [c]). insecure \<or> url_scheme (cn_base_url c) = ''https''"
      using indexedD(4)[OF ix] https by auto
  qed
qed

lemma indexed_connections:
  assumes "index_connections insecure cs r = Inr r'" and "indexed insecure ds r"
    and "distinct (map fst (cr_by_id_and_capability r))"
  shows "indexed insecure (ds @ cs) r'"
  using assms
proof (induction cs arbitrary: r ds)
  case (Cons c cs)
  obtain q where q: "index_connection insecure c r = Inr q" "index_connections insecure cs q = Inr r'"
    using Cons.prems(1) by (auto split: sum.splits)
  show ?case
    using Cons.IH[OF q(2) indexed_step[OF Cons.prems(2,3) q(1)]] by simp
qed simp

lemma mk_connection_resolver_indexed:
  assumes "mk_connection_resolver insecure cs = Inr r"
  shows "indexed insecure cs r"
proof -
  let ?r = "\<lparr>cr_by_selection = [], cr_by_id_and_capability = []\<rparr>"
  have "indexed insecure [] ?r" unfolding indexed_def by simp
  then have "indexed insecure ([] @ cs) r"
    by (rule indexed_connections[OF assms[unfolded mk_connection_resolver_def]]) simp
  then show ?thesis by simp
qed

text \<open>A tenant and a capability select one connection; a pinned id and capability select the connection
  configured last, with the transport settings every connection of that id has.\<close>

lemma resolve_connection_iff:
  assumes "mk_connection_resolver insecure cs = Inr r"
  shows "resolve_connection r t k = Inr c \<longleftrightarrow> c \<in> set cs \<and> cn_tenant_id c = t \<and> cn_capability c = k"
  using indexedD(1)[OF mk_connection_resolver_indexed[OF assms], of t k c]
  by (auto simp: resolve_connection_def split: option.split)

lemma resolve_by_connection_id_last:
  assumes "mk_connection_resolver insecure cs = Inr r"
  shows "resolve_by_connection_id r u k =
    (case find (\<lambda>c. cn_connection_id c = u \<and> cn_capability c = k) (rev cs) of
       None \<Rightarrow> Inl ProviderConnectionNotFoundError | Some c \<Rightarrow> Inr c)"
  using indexedD(2)[OF mk_connection_resolver_indexed[OF assms]] by (simp add: resolve_by_connection_id_def)

lemma resolve_by_connection_id_Inr:
  assumes "mk_connection_resolver insecure cs = Inr r" and "resolve_by_connection_id r u k = Inr c"
  shows "c \<in> set cs" "cn_connection_id c = u" "cn_capability c = k"
  using assms(2) unfolding resolve_by_connection_id_last[OF assms(1)]
  by (auto split: option.splits dest!: find_SomeD)

lemma pinned_settings:
  assumes r: "mk_connection_resolver insecure cs = Inr r" and c: "resolve_connection r t k = Inr c"
  shows "\<exists>d. resolve_by_connection_id r (cn_connection_id c) k = Inr d \<and> connection_identity d = connection_identity c"
proof -
  have c: "c \<in> set cs" "cn_capability c = k" using c by (simp_all add: resolve_connection_iff[OF r])
  then have "find (\<lambda>x. cn_connection_id x = cn_connection_id c \<and> cn_capability x = k) (rev cs) \<noteq> None"
    by (auto simp: find_None_iff)
  then obtain d where d: "resolve_by_connection_id r (cn_connection_id c) k = Inr d"
    by (auto simp: resolve_by_connection_id_last[OF r])
  have "connection_identity d = connection_identity c"
    by (rule indexedD(3)[OF mk_connection_resolver_indexed[OF r]]) (use resolve_by_connection_id_Inr[OF r d] c(1) in auto)
  then show ?thesis using d by blast
qed

lemma pinned_connection:
  assumes r: "mk_connection_resolver insecure cs = Inr r" and c: "resolve_connection r t k = Inr c"
    and one: "distinct (map (\<lambda>c. (cn_connection_id c, cn_capability c)) cs)"
  shows "resolve_by_connection_id r (cn_connection_id c) k = Inr c"
proof -
  have c: "c \<in> set cs" "cn_capability c = k" using c by (simp_all add: resolve_connection_iff[OF r])
  obtain d where d: "resolve_by_connection_id r (cn_connection_id c) k = Inr d"
    using pinned_settings[OF assms(1,2)] by blast
  have "d = c"
    using resolve_by_connection_id_Inr[OF r d] c distinct_map_eqD[OF one, of d c] by simp
  then show ?thesis using d by simp
qed

text \<open>Where two tenants share the id of a connection for one capability, the one configured last hides
  the other: a command pinned to the hidden connection resolves to the other tenant's.\<close>

lemma shared_connection_hidden:
  assumes r: "mk_connection_resolver insecure (cs @ [d]) = Inr r" and c: "c \<in> set cs" "c \<noteq> d"
    "cn_connection_id c = cn_connection_id d" "cn_capability c = cn_capability d"
  shows "resolve_connection r (cn_tenant_id c) (cn_capability c) = Inr c"
    and "resolve_by_connection_id r (cn_connection_id c) (cn_capability c) = Inr d"
    and "cn_tenant_id d \<noteq> cn_tenant_id c"
proof -
  show sel: "resolve_connection r (cn_tenant_id c) (cn_capability c) = Inr c"
    using c(1) by (simp add: resolve_connection_iff[OF r])
  show "resolve_by_connection_id r (cn_connection_id c) (cn_capability c) = Inr d"
    using c(3,4) by (simp add: resolve_by_connection_id_last[OF r])
  have "resolve_connection r (cn_tenant_id d) (cn_capability d) = Inr d"
    by (simp add: resolve_connection_iff[OF r])
  then show "cn_tenant_id d \<noteq> cn_tenant_id c" using sel c(2,4) by auto
qed

section \<open>What a request can end in\<close>

lemma read_limited_body_bound:
  "read_limited_body n chunks b = Inr body \<Longrightarrow> n \<le> MAX_PROVIDER_RESPONSE_BYTES
    \<Longrightarrow> n + length body \<le> MAX_PROVIDER_RESPONSE_BYTES \<and> body = concat chunks"
proof (induction chunks arbitrary: n body)
  case (Cons c cs)
  obtain rest where rest: "read_limited_body (n + length c) cs b = Inr rest" "body = c @ rest"
    using Cons.prems(1) by (cases "read_limited_body (n + length c) cs b") (auto split: if_splits)
  have "n + length c \<le> MAX_PROVIDER_RESPONSE_BYTES" using Cons.prems(1) by (auto split: if_splits)
  then show ?case using Cons.IH[OF rest(1)] rest(2) by auto
qed (auto split: option.splits)

lemma read_limited_body_Inl:
  "read_limited_body n chunks b = Inl e \<Longrightarrow> is_value_error e \<or> e = ProviderTimeoutError \<or> e = ProviderConnectionError"
proof (induction chunks arbitrary: n)
  case (Cons c cs)
  then show ?case by (cases "read_limited_body (n + length c) cs b") (auto split: if_splits)
next
  case Nil
  then obtain a where "e = break_error a" by (auto split: option.splits)
  then show ?case by (cases a) auto
qed

lemma retry_after_seconds_ok:
  "retry_after_seconds lib now v = Some x \<Longrightarrow> isfinite x \<and> 0 \<le> fval x"
  by (auto simp: retry_after_seconds_def split: option.splits py_datetime.splits if_splits)

text \<open>A failure of the transport is one the retry policy knows; with a valid connection no assertion
  fails.\<close>

definition transport_failure :: "exn \<Rightarrow> bool" where
  "transport_failure e \<longleftrightarrow>
     is_value_error e \<or> e = ProviderTimeoutError \<or> e = ProviderConnectionError
     \<or> (\<exists>n ra. e = HTTPStatusError n ra \<and> (n < 200 \<or> 300 \<le> n)
          \<and> (case ra of None \<Rightarrow> True | Some x \<Rightarrow> isfinite x \<and> 0 \<le> fval x))"

lemma headers_for_Inl:
  assumes "headers_for c m = Inl e" and "valid_connection c"
  shows "is_value_error e"
  using assms
  by (cases "pa_scheme (cn_authentication c)")
     (auto simp: headers_for_def valid_connection_def valid_authentication_def validate_authentication_shape_def Let_def
       split: option.splits if_splits)

lemma send_command_Inl:
  assumes v: "valid_connection c" and run: "send_command lib now post c m = Inl e"
  shows "transport_failure e"
proof (cases "headers_for c m")
  case (Inl h)
  then show ?thesis using run headers_for_Inl[OF Inl v] by (simp add: send_command_def transport_failure_def)
next
  case (Inr hs)
  show ?thesis
  proof (cases "post (request_url c) hs m")
    case (No_response b)
    then show ?thesis using run Inr by (cases b) (auto simp: send_command_def transport_failure_def)
  next
    case (Response st ra chunks br)
    show ?thesis
    proof (cases "st < 200 \<or> 300 \<le> st")
      case True
      then show ?thesis
        using run Inr Response retry_after_seconds_ok[of lib now ra]
        by (auto simp: send_command_def transport_failure_def mk_HTTPStatusError_def split: option.splits if_splits)
    next
      case False
      then show ?thesis
        using run Inr Response read_limited_body_Inl[of 0 chunks br]
        by (auto simp: send_command_def transport_failure_def split: sum.splits option.splits if_splits)
    qed
  qed
qed

lemma send_command_Inr:
  assumes "send_command lib now post c m = Inr res"
  shows "pr_command_id res = pc_command_id m"
    and "\<exists>hs st ra chunks. headers_for c m = Inr hs
      \<and> post (request_url c) hs m = Response st ra chunks None \<and> 200 \<le> st \<and> st < 300
      \<and> length (concat chunks) \<le> MAX_PROVIDER_RESPONSE_BYTES \<and> hl_parse_result lib (concat chunks) = Some res"
proof -
  obtain hs st ra chunks br body where hs: "headers_for c m = Inr hs"
    "post (request_url c) hs m = Response st ra chunks br" "200 \<le> st" "st < 300"
    and body: "read_limited_body 0 chunks br = Inr body" "hl_parse_result lib body = Some res"
    and id: "pr_command_id res = pc_command_id m"
    using assms by (auto simp: send_command_def not_less not_le
        split: sum.splits http_exchange.splits option.splits if_splits)
  have br: "read_limited_body n cs b = Inr y \<Longrightarrow> b = None" for n cs b y
  proof (induction n cs b arbitrary: y rule: read_limited_body.induct)
    case (2 n c cs b)
    then show ?case by (cases "read_limited_body (n + length c) cs b") (auto split: if_splits)
  qed (auto split: option.splits)
  show "pr_command_id res = pc_command_id m" by (rule id)
  show "\<exists>hs st ra chunks. headers_for c m = Inr hs
      \<and> post (request_url c) hs m = Response st ra chunks None \<and> 200 \<le> st \<and> st < 300
      \<and> length (concat chunks) \<le> MAX_PROVIDER_RESPONSE_BYTES \<and> hl_parse_result lib (concat chunks) = Some res"
    using hs body read_limited_body_bound[OF body(1)] br[OF body(1)] by auto
qed

text \<open>The idempotency key and the command id are sent whatever the authentication.\<close>

lemma headers_for_keys:
  assumes "headers_for c m = Inr hs"
  shows "map_of hs ''Idempotency-Key'' = Some (pc_idempotency_key m)"
    and "map_of hs ''X-Provider-Command-ID'' = Some (uuid_str (pc_command_id m))"
proof -
  let ?base = "[(''Content-Type'', ''application/json''), (''Idempotency-Key'', pc_idempotency_key m),
    (''X-Provider-Command-ID'', uuid_str (pc_command_id m))]"
  have r: "lower ''Idempotency-Key'' \<in> set reserved_headers" "lower ''X-Provider-Command-ID'' \<in> set reserved_headers"
    by code_simp+
  have "hs = ?base \<or> (\<exists>h v. hs = AList.update h v ?base \<and> h \<noteq> ''Idempotency-Key'' \<and> h \<noteq> ''X-Provider-Command-ID'')"
  proof (cases "pa_scheme (cn_authentication c)")
    case Bearer
    then obtain v where "hs = AList.update ''Authorization'' v ?base"
      using assms by (auto simp: headers_for_def Let_def simp del: AList.update.simps split: option.splits)
    then show ?thesis by (intro disjI2 exI[of _ "''Authorization''"] exI[of _ v]) (simp del: AList.update.simps)
  next
    case Api_key
    then obtain h v where "hs = AList.update h v ?base" "lower h \<notin> set reserved_headers"
      using assms by (auto simp: headers_for_def Let_def simp del: AList.update.simps split: option.splits if_splits)
    then show ?thesis using r by blast
  next
    case No_auth
    then show ?thesis using assms by (simp add: headers_for_def)
  qed
  then show "map_of hs ''Idempotency-Key'' = Some (pc_idempotency_key m)"
    and "map_of hs ''X-Provider-Command-ID'' = Some (uuid_str (pc_command_id m))"
    by (auto simp: update_conv simp del: AList.update.simps)
qed

end
