(* ===== verification/Rate_Limit.thy ===== *)
theory Rate_Limit
  imports Provider_Connection
begin

text \<open>
  The per-process gates in front of a provider connection (\<^verbatim>\<open>src/agent/integrations/rate_limit.py\<close>):
  a semaphore that bounds the requests in flight and a lock under which every request reserves a start
  time. Between its suspension points a coroutine runs alone, so the gate is a state machine whose
  steps are the entry through the semaphore, the reservation and the exit, in any interleaving.
\<close>

section \<open>The gate\<close>

record execution_gate =
  gt_max_concurrency :: int
  gt_requests_per_second :: "py_float option"
  gt_next_request_at :: rat
  gt_active :: nat

definition mk_execution_gate :: "int \<Rightarrow> py_float option \<Rightarrow> execution_gate" where
  "mk_execution_gate max_concurrency requests_per_second =
     \<lparr>gt_max_concurrency = max_concurrency, gt_requests_per_second = requests_per_second,
      gt_next_request_at = 0, gt_active = 0\<rparr>"

definition rate_interval :: "py_float \<Rightarrow> rat" where
  "rate_interval requests_per_second = 1 / fval requests_per_second"

text \<open>The part of \<^verbatim>\<open>_wait_for_rate_slot\<close> under the lock, and the sleep after it, if any.\<close>

definition reserve_rate_slot :: "execution_gate \<Rightarrow> rat \<Rightarrow> rat option \<times> execution_gate" where
  "reserve_rate_slot g now =
     (case gt_requests_per_second g of
        None \<Rightarrow> (None, g)
      | Some r \<Rightarrow>
         let scheduled = max now (gt_next_request_at g)
         in (Some scheduled, g\<lparr>gt_next_request_at := scheduled + rate_interval r\<rparr>))"

definition slot_sleep :: "rat option \<Rightarrow> rat \<Rightarrow> rat option" where
  "slot_sleep scheduled now =
     (case scheduled of
        None \<Rightarrow> None
      | Some s \<Rightarrow> let delay = s - now in if 0 < delay then Some delay else None)"

text \<open>One step of \<^verbatim>\<open>acquire\<close>: \<^verbatim>\<open>asyncio.Semaphore\<close> admits while a slot is free.\<close>

inductive gate_step :: "execution_gate \<Rightarrow> rat option \<Rightarrow> execution_gate \<Rightarrow> bool" where
  enter: "int (gt_active g) < gt_max_concurrency g \<Longrightarrow> gate_step g None (g\<lparr>gt_active := Suc (gt_active g)\<rparr>)"
| reserve: "0 < gt_active g \<Longrightarrow> reserve_rate_slot g now = (s, g') \<Longrightarrow> gate_step g s g'"
| leave: "gt_active g = Suc n \<Longrightarrow> gate_step g None (g\<lparr>gt_active := n\<rparr>)"

inductive_cases gate_stepE: "gate_step g s g'"

text \<open>A run with the start times it has reserved, in order.\<close>

inductive gate_run :: "execution_gate \<Rightarrow> rat list \<Rightarrow> execution_gate \<Rightarrow> bool" where
  idle: "gate_run g [] g"
| move: "gate_run g ts g' \<Longrightarrow> gate_step g' s g'' \<Longrightarrow>
    gate_run g (ts @ (case s of None \<Rightarrow> [] | Some t \<Rightarrow> [t])) g''"

section \<open>The registry\<close>

type_synonym gate_registry = "string \<rightharpoonup> execution_gate"

definition for_connection :: "gate_registry \<Rightarrow> provider_connection \<Rightarrow> execution_gate \<times> gate_registry" where
  "for_connection gates c =
     (case gates (cn_connection_id c) of
        Some g \<Rightarrow> (g, gates)
      | None \<Rightarrow>
         let g = mk_execution_gate (cn_max_concurrency c) (cn_requests_per_second c)
         in (g, gates(cn_connection_id c \<mapsto> g)))"

text \<open>The life of a registry: gates are looked up for connections and take steps.\<close>

inductive registry_reach :: "provider_connection set \<Rightarrow> gate_registry \<Rightarrow> bool" for cs where
  fresh: "registry_reach cs (\<lambda>_. None)"
| lookup: "registry_reach cs gates \<Longrightarrow> c \<in> cs \<Longrightarrow> registry_reach cs (snd (for_connection gates c))"
| gate: "registry_reach cs gates \<Longrightarrow> gates u = Some g \<Longrightarrow> gate_step g s g' \<Longrightarrow> registry_reach cs (gates(u \<mapsto> g'))"

section \<open>Concurrency and spacing\<close>

lemma gate_step_limits:
  assumes "gate_step g s g'"
  shows "gt_max_concurrency g' = gt_max_concurrency g" "gt_requests_per_second g' = gt_requests_per_second g"
    "int (gt_active g) \<le> gt_max_concurrency g \<Longrightarrow> int (gt_active g') \<le> gt_max_concurrency g'"
  using assms
  by (auto elim!: gate_stepE simp: reserve_rate_slot_def Let_def split: option.splits)

lemma gate_step_slot:
  assumes "gate_step g s g'"
  shows "s = None \<Longrightarrow> gt_next_request_at g' = gt_next_request_at g"
    and "s = Some t \<Longrightarrow> \<exists>r. gt_requests_per_second g = Some r \<and> gt_next_request_at g \<le> t
           \<and> gt_next_request_at g' = t + rate_interval r"
  using assms
  by (auto elim!: gate_stepE simp: reserve_rate_slot_def Let_def split: option.splits)

lemma gate_run_limits:
  assumes "gate_run g ts g'"
  shows "gt_max_concurrency g' = gt_max_concurrency g" "gt_requests_per_second g' = gt_requests_per_second g"
    "int (gt_active g) \<le> gt_max_concurrency g \<Longrightarrow> int (gt_active g') \<le> gt_max_concurrency g'"
  using assms
proof (induction)
  case (move g ts g' s g'')
  { case 1 show ?case using gate_step_limits(1)[OF move.hyps(2)] move.IH(1) by simp }
  { case 2 show ?case using gate_step_limits(2)[OF move.hyps(2)] move.IH(2) by simp }
  { case 3 then show ?case using gate_step_limits(3)[OF move.hyps(2)] move.IH(3) by simp }
qed simp_all

text \<open>Reserved times are spaced: \<open>n\<close> slots further is at least \<open>n\<close> intervals later.\<close>

lemma gate_run_spaced:
  assumes "gate_run g ts g'" and "gt_requests_per_second g = Some r"
  shows "i < length ts \<Longrightarrow> ts ! i + of_nat (length ts - i) * rate_interval r \<le> gt_next_request_at g'"
    and "i < j \<Longrightarrow> j < length ts \<Longrightarrow> ts ! i + of_nat (j - i) * rate_interval r \<le> ts ! j"
proof -
  have "(\<forall>i<length ts. ts ! i + of_nat (length ts - i) * rate_interval r \<le> gt_next_request_at g')
    \<and> (\<forall>j<length ts. \<forall>i<j. ts ! i + of_nat (j - i) * rate_interval r \<le> ts ! j)"
    using assms
  proof (induction rule: gate_run.induct)
    case (move g ts g' s g'')
    note ih = move.IH[OF move.prems]
    have r: "gt_requests_per_second g' = Some r" using gate_run_limits(2)[OF move.hyps(1)] move.prems by simp
    show ?case
    proof (cases s)
      case None
      then show ?thesis using ih gate_step_slot(1)[OF move.hyps(2)] by simp
    next
      case (Some t)
      then have t: "gt_next_request_at g' \<le> t" "gt_next_request_at g'' = t + rate_interval r"
        using gate_step_slot(2)[OF move.hyps(2) Some] r by auto
      have old: "ts ! i + of_nat (length ts - i) * rate_interval r \<le> t" if "i < length ts" for i
        using ih that t(1) by force
      have "(ts @ [t]) ! i + of_nat (length (ts @ [t]) - i) * rate_interval r \<le> gt_next_request_at g''"
        if i: "i < length (ts @ [t])" for i
      proof (cases "i < length ts")
        case True
        then show ?thesis using old[OF True] by (simp add: nth_append t(2) Suc_diff_le algebra_simps)
      next
        case False
        then have "i = length ts" using i by simp
        then show ?thesis by (simp add: t(2))
      qed
      moreover have "(ts @ [t]) ! i + of_nat (j - i) * rate_interval r \<le> (ts @ [t]) ! j"
        if j: "j < length (ts @ [t])" "i < j" for i j
      proof (cases "j < length ts")
        case True
        then show ?thesis using ih j(2) by (simp add: nth_append)
      next
        case False
        then have "j = length ts" using j(1) by simp
        then show ?thesis using old[of i] j(2) by (simp add: nth_append)
      qed
      ultimately show ?thesis using Some by simp
    qed
  qed simp
  then show "i < length ts \<Longrightarrow> ts ! i + of_nat (length ts - i) * rate_interval r \<le> gt_next_request_at g'"
    and "i < j \<Longrightarrow> j < length ts \<Longrightarrow> ts ! i + of_nat (j - i) * rate_interval r \<le> ts ! j"
    by blast+
qed

text \<open>A request that sleeps as told starts no earlier than its slot.\<close>

lemma slot_sleep_reaches:
  "slot_sleep (Some s) now = d \<Longrightarrow> s \<le> now + (case d of None \<Rightarrow> 0 | Some x \<Rightarrow> x)"
  by (auto simp: slot_sleep_def Let_def split: if_splits)

section \<open>One gate per connection\<close>

lemma registry_gates:
  assumes "registry_reach cs gates" and "gates u = Some g"
  shows "\<exists>c\<in>cs. cn_connection_id c = u \<and> gt_max_concurrency g = cn_max_concurrency c
    \<and> gt_requests_per_second g = cn_requests_per_second c
    \<and> (1 \<le> cn_max_concurrency c \<longrightarrow> int (gt_active g) \<le> gt_max_concurrency g)"
  using assms
proof (induction arbitrary: u g)
  case (lookup gates c)
  then show ?case
    by (auto simp: for_connection_def Let_def mk_execution_gate_def split: option.splits if_splits)
next
  case (gate gates v h s h')
  show ?case
  proof (cases "u = v")
    case True
    then have "g = h'" using gate.prems by simp
    then show ?thesis using gate.IH[OF gate.hyps(2)] gate_step_limits[OF gate.hyps(3)] True by auto
  next
    case False
    then show ?thesis using gate.IH gate.prems by simp
  qed
qed simp

text \<open>With the connections of one configuration every connection meets the limits it was given, also
  where capabilities share an id.\<close>

lemma registry_limits:
  assumes conf: "mk_connection_resolver insecure cs = Inr r" and reach: "registry_reach (set cs) gates"
    and c: "c \<in> set cs"
  shows "gt_max_concurrency (fst (for_connection gates c)) = cn_max_concurrency c"
    and "gt_requests_per_second (fst (for_connection gates c)) = cn_requests_per_second c"
proof -
  have "gt_max_concurrency g = cn_max_concurrency c \<and> gt_requests_per_second g = cn_requests_per_second c"
    if g: "gates (cn_connection_id c) = Some g" for g
  proof -
    obtain d where d: "d \<in> set cs" "cn_connection_id d = cn_connection_id c"
      "gt_max_concurrency g = cn_max_concurrency d" "gt_requests_per_second g = cn_requests_per_second d"
      using registry_gates[OF reach g] by blast
    have "connection_identity d = connection_identity c"
      by (rule indexedD(3)[OF mk_connection_resolver_indexed[OF conf] d(1) c d(2)])
    then show ?thesis using d(3,4) by (simp add: connection_identity_def)
  qed
  then show "gt_max_concurrency (fst (for_connection gates c)) = cn_max_concurrency c"
    and "gt_requests_per_second (fst (for_connection gates c)) = cn_requests_per_second c"
    by (auto simp: for_connection_def Let_def mk_execution_gate_def split: option.splits)
qed

end
