(* ===== verification/Outbox_Worker.thy ===== *)
theory Outbox_Worker
  imports Outbox_Recovery Provider_Connection
begin

text \<open>
  The dispatch worker (\<^verbatim>\<open>src/agent/integrations/outbox_worker.py\<close>): claim a batch, submit every command
  through its pinned connection while the lease is renewed, and finalize, reschedule or bury it. The
  connection lookup and the transport are parameters, as they are of the class; the tasks of a batch
  touch different messages and run here one after the other, with other sessions committing between
  any two transactions.
\<close>

section \<open>Parameters and results\<close>

text \<open>\<open>wk_renewals\<close> is how often the renewal timer fires before the request ends; the request and its
  duration are indexed by the transactions before it.\<close>

record outbox_worker =
  wk_worker_id :: string
  wk_batch_size :: int
  wk_lease_seconds :: py_float
  wk_lookup :: "string \<Rightarrow> provider_capability \<Rightarrow> exn + provider_connection"
  wk_send :: "nat \<Rightarrow> provider_connection \<Rightarrow> provider_command_envelope \<Rightarrow> exn + provider_command_result"
  wk_renewals :: "nat \<Rightarrow> nat"
  wk_random_source :: rat

definition mk_outbox_worker :: "outbox_worker \<Rightarrow> exn + outbox_worker" where
  "mk_outbox_worker W =
     (if strip (wk_worker_id W) = [] then Inl (ValueError ''worker_id must not be blank'') else Inr W)"

record worker_run_result =
  wr_claimed :: nat
  wr_published :: nat
  wr_retried :: nat
  wr_dead :: nat
  wr_lease_conflicts :: nat
  wr_failed :: nat

definition no_result :: worker_run_result where
  "no_result = \<lparr>wr_claimed = 0, wr_published = 0, wr_retried = 0, wr_dead = 0, wr_lease_conflicts = 0, wr_failed = 0\<rparr>"

definition merge_results :: "worker_run_result \<Rightarrow> worker_run_result \<Rightarrow> worker_run_result" where
  "merge_results left right =
     \<lparr>wr_claimed = wr_claimed left, wr_published = wr_published left + wr_published right,
      wr_retried = wr_retried left + wr_retried right, wr_dead = wr_dead left + wr_dead right,
      wr_lease_conflicts = wr_lease_conflicts left + wr_lease_conflicts right,
      wr_failed = wr_failed left + wr_failed right\<rparr>"

definition int_str :: "int \<Rightarrow> string" where
  "int_str i = (if i < 0 then CHR ''-'' # nat_str (nat (- i)) else nat_str (nat i))"

definition safe_error :: "exn \<Rightarrow> string \<times> string" where
  "safe_error e =
     (case e of
        ProviderConnectionNotFoundError \<Rightarrow>
          (''provider_connection_not_found'', ''Provider connection is unavailable.'')
      | ProviderConnectionError \<Rightarrow> (''provider_connection_error'', ''Provider connection failed.'')
      | ProviderTimeoutError \<Rightarrow> (''provider_timeout'', ''Provider request timed out.'')
      | HTTPStatusError status_code _ \<Rightarrow>
          (''provider_http_'' @ int_str status_code, ''Provider returned an HTTP error.'')
      | _ \<Rightarrow>
         if is_value_error e
         then (''provider_validation_error'', ''Provider command or response validation failed.'')
         else (''unexpected_provider_error'', ''Provider command delivery failed unexpectedly.''))"

section \<open>Sending under a lease\<close>

text \<open>\<^verbatim>\<open>_send_with_lease_renewal\<close>: every time the timer fires before the request ends the lease is
  renewed; a renewal that fails abandons the request.\<close>

fun renew_rounds :: "menvironment \<Rightarrow> outbox_worker \<Rightarrow> uuid \<Rightarrow> uuid \<Rightarrow> string \<Rightarrow> nat \<Rightarrow> (mworld, unit) prog" where
  "renew_rounds E W command_id lease_id lease_owner 0 = ret ()"
| "renew_rounds E W command_id lease_id lease_owner (Suc n) =
     bnd (renew_outbox_lease E command_id lease_id lease_owner (wk_lease_seconds W)) (\<lambda>renewed.
     bnd (require renewed LeaseConflictError) (\<lambda>_.
       renew_rounds E W command_id lease_id lease_owner n))"

definition send_with_lease_renewal ::
  "menvironment \<Rightarrow> outbox_worker \<Rightarrow> claimed_outbox_message \<Rightarrow> provider_connection \<Rightarrow> provider_command_envelope
     \<Rightarrow> (mworld, provider_command_result) prog" where
  "send_with_lease_renewal E W c connection command =
     (case (ob_lease_id (cl_message c), ob_lease_owner (cl_message c)) of
        (Some lease_id, Some lease_owner) \<Rightarrow>
          (\<lambda>w. bnd (renew_rounds E W (ob_command_id (cl_message c)) lease_id lease_owner
                      (wk_renewals W (mw_calls w)))
                   (\<lambda>_. lift (wk_send W (mw_calls w) connection command)) w)
      | _ \<Rightarrow> throw AssertionError)"

section \<open>Failures\<close>

text \<open>\<^verbatim>\<open>self._clock() + timedelta(seconds=...)\<close>: a duration is rounded to microseconds, and neither it
  nor the sum may leave the range of its type.\<close>

definition round_half_even :: "rat \<Rightarrow> int" where
  "round_half_even x =
     (let f = \<lfloor>x\<rfloor>; d = x - of_int f in
      if d < 1 / 2 then f else if 1 / 2 < d then f + 1 else if even f then f else f + 1)"

definition timedelta_max :: int where "timedelta_max = 86399999999999999999"
definition datetime_max :: instant where "datetime_max = 253402300799999999"

definition add_seconds :: "instant \<Rightarrow> rat \<Rightarrow> exn + instant" where
  "add_seconds t seconds =
     (let d = round_half_even (seconds * 1000000) in
      if timedelta_max < d then Inl OverflowError
      else if datetime_max < t + d then Inl OverflowError
      else Inr (t + d))"

definition failure_kind_of :: "exn \<Rightarrow> provider_failure_kind" where
  "failure_kind_of e = (case classify_failure e of Inr k \<Rightarrow> k | Inl _ \<Rightarrow> Validation_failure)"

fun error_retry_after :: "exn \<Rightarrow> py_float option" where
  "error_retry_after (HTTPStatusError _ ra) = ra"
| "error_retry_after _ = None"

fun error_http_status :: "exn \<Rightarrow> int option" where
  "error_http_status (HTTPStatusError n _) = Some n"
| "error_http_status _ = None"

definition schedule_failed ::
  "menvironment \<Rightarrow> claimed_outbox_message \<Rightarrow> uuid \<Rightarrow> string \<Rightarrow> exn \<Rightarrow> rat \<Rightarrow> py_float option
     \<Rightarrow> (mworld, worker_run_result) prog" where
  "schedule_failed E c lease_id lease_owner e delay retry_after =
     bnd (local_clock E) (\<lambda>now.
     bnd (lift (add_seconds now delay)) (\<lambda>next_available_at.
     bnd (schedule_outbox_retry E (ob_command_id (cl_message c)) lease_id lease_owner
            (at_attempt_id (cl_attempt c)) (failure_kind_of e) (Some (fst (safe_error e)))
            (Some (snd (safe_error e))) retry_after next_available_at (error_http_status e)) (\<lambda>_.
       ret (no_result\<lparr>wr_retried := 1\<rparr>))))"

definition bury_failed :: "menvironment \<Rightarrow> claimed_outbox_message \<Rightarrow> exn \<Rightarrow> (mworld, worker_run_result) prog" where
  "bury_failed E c e =
     try_except
       (bnd (finalizer_terminal_failure E c (failure_kind_of e) (Some (fst (safe_error e)))
               (Some (snd (safe_error e)))) (\<lambda>_.
          ret (no_result\<lparr>wr_dead := 1\<rparr>)))
       (\<lambda>x. if x = LeaseConflictError then ret (no_result\<lparr>wr_lease_conflicts := 1\<rparr>)
            else ret (no_result\<lparr>wr_failed := 1\<rparr>))"

text \<open>The jitter of the policy stays at its default, zero.\<close>

definition handle_failure ::
  "menvironment \<Rightarrow> outbox_worker \<Rightarrow> claimed_outbox_message \<Rightarrow> exn \<Rightarrow> (mworld, worker_run_result) prog" where
  "handle_failure E W c e =
     (case (ob_lease_id (cl_message c), ob_lease_owner (cl_message c)) of
        (Some lease_id, Some lease_owner) \<Rightarrow>
          bnd (lift (decide_retry (failure_kind_of e) (at_attempt_number (cl_attempt c)) MAX_ATTEMPTS
                 default_retry_config (error_retry_after e) (Some (wk_random_source W)))) (\<lambda>decision.
          case (if rd_retryable decision then rd_delay_seconds decision else None) of
            None \<Rightarrow> bury_failed E c e
          | Some delay \<Rightarrow>
              try_except
                (schedule_failed E c lease_id lease_owner e delay (rd_retry_after_seconds decision))
                (\<lambda>x. if x = OutboxAttemptsExhaustedError then bury_failed E c e
                     else if x = LeaseConflictError then ret (no_result\<lparr>wr_lease_conflicts := 1\<rparr>)
                     else throw x))
      | _ \<Rightarrow> throw AssertionError)"

section \<open>One command and one batch\<close>

definition dispatch ::
  "menvironment \<Rightarrow> outbox_worker \<Rightarrow> claimed_outbox_message \<Rightarrow> (mworld, provider_command_result) prog" where
  "dispatch E W c =
     bnd (lift (to_envelope (cl_message c))) (\<lambda>command.
     bnd (require (ob_lease_id (cl_message c) \<noteq> None \<and> ob_lease_owner (cl_message c) \<noteq> None) AssertionError) (\<lambda>_.
     bnd (lift (wk_lookup W (pc_connection_id command) (ob_provider_capability (cl_message c)))) (\<lambda>connection.
     bnd (require (cn_connection_id connection = pc_connection_id command
             \<and> cn_tenant_id connection = pc_tenant_id command
             \<and> cn_capability connection = ob_provider_capability (cl_message c))
            (ValueError ''provider connection did not match persisted command'')) (\<lambda>_.
       send_with_lease_renewal E W c connection command))))"

definition settle ::
  "menvironment \<Rightarrow> claimed_outbox_message \<Rightarrow> provider_command_result \<Rightarrow> (mworld, worker_run_result) prog" where
  "settle E c response =
     (if pr_status response = Acc_accepted
      then bnd (finalizer_accepted E c response) (\<lambda>_. ret (no_result\<lparr>wr_published := 1\<rparr>))
      else bnd (finalizer_rejected E c response) (\<lambda>_. ret (no_result\<lparr>wr_dead := 1\<rparr>)))"

definition process_outbox ::
  "menvironment \<Rightarrow> outbox_worker \<Rightarrow> claimed_outbox_message \<Rightarrow> (mworld, worker_run_result) prog" where
  "process_outbox E W c =
     try_except (bnd (dispatch E W c) (settle E c)) (\<lambda>e.
       if e = LeaseConflictError then ret (no_result\<lparr>wr_lease_conflicts := 1\<rparr>)
       else handle_failure E W c e)"

text \<open>\<^verbatim>\<open>asyncio.gather(..., return_exceptions=True)\<close>: every task runs to its end, then the first
  exception in claim order is raised.\<close>

fun gather_batch ::
  "menvironment \<Rightarrow> outbox_worker \<Rightarrow> claimed_outbox_message list \<Rightarrow> (mworld, (exn + worker_run_result) list) prog" where
  "gather_batch E W [] = ret []"
| "gather_batch E W (c # cs) = (\<lambda>w.
     case process_outbox E W c w of
       (r, w1) \<Rightarrow> bnd (gather_batch E W cs) (\<lambda>rs. ret (r # rs)) w1)"

fun merge_batch :: "worker_run_result \<Rightarrow> (exn + worker_run_result) list \<Rightarrow> exn + worker_run_result" where
  "merge_batch total_result [] = Inr total_result"
| "merge_batch total_result (Inl e # rs) = Inl e"
| "merge_batch total_result (Inr r # rs) = merge_batch (merge_results total_result r) rs"

definition run_once :: "menvironment \<Rightarrow> outbox_worker \<Rightarrow> (mworld, worker_run_result) prog" where
  "run_once E W =
     bnd (claim_due_outbox E (wk_worker_id W) (wk_batch_size W) (wk_lease_seconds W)) (\<lambda>claimed.
     bnd (gather_batch E W claimed) (\<lambda>results.
       lift (merge_batch (no_result\<lparr>wr_claimed := length claimed\<rparr>) results)))"

text \<open>\<^verbatim>\<open>run_forever\<close>, \<open>n\<close> rounds of it; \<open>tick\<close> is the monotonic clock, read once or twice a
  round.\<close>

fun run_rounds ::
  "menvironment \<Rightarrow> outbox_worker \<Rightarrow> (nat \<Rightarrow> rat) \<Rightarrow> rat \<Rightarrow> nat \<Rightarrow> rat \<Rightarrow> nat \<Rightarrow> (mworld, unit) prog" where
  "run_rounds E W tick recovery_seconds k next_recovery 0 = ret ()"
| "run_rounds E W tick recovery_seconds k next_recovery (Suc n) =
     (if next_recovery \<le> tick k
      then bnd (recover_expired_outbox_leases E (wk_batch_size W)) (\<lambda>_.
           bnd (run_once E W) (\<lambda>_.
             run_rounds E W tick recovery_seconds (k + 2) (tick (k + 1) + recovery_seconds) n))
      else bnd (run_once E W) (\<lambda>_. run_rounds E W tick recovery_seconds (k + 1) next_recovery n))"

section \<open>The contract\<close>

lemma keeps_renew_rounds: "messaging.lawful E \<Longrightarrow> messaging.keeps (renew_rounds E W u l owner n)"
  by (induction n) (auto intro!: messaging.keeps_bnd keeps_renew_outbox_lease)

lemma keeps_finalizer:
  assumes "messaging.lawful E"
  shows "messaging.keeps (finalizer_accepted E c res)" "messaging.keeps (finalizer_rejected E c res)"
    "messaging.keeps (finalizer_terminal_failure E c k code msg)"
  unfolding finalizer_accepted_def finalizer_rejected_def finalizer_terminal_failure_def
  by (simp_all add: keeps_finalize[OF assms])

lemma keeps_send_with_lease_renewal:
  assumes "messaging.lawful E"
  shows "messaging.keeps (send_with_lease_renewal E W c connection command)"
proof -
  have k: "messaging.keeps (bnd (renew_rounds E W u l owner n) (\<lambda>_. lift r))" for u l owner n and r :: "exn + provider_command_result"
    by (intro messaging.keeps_bnd keeps_renew_rounds assms) simp
  have "messaging.keeps (\<lambda>w. bnd (renew_rounds E W u l owner (f w)) (\<lambda>_. lift (g w)) w)" for u l owner f and g :: "mworld \<Rightarrow> exn + provider_command_result"
    using k unfolding messaging.keeps_def by simp
  then show ?thesis by (simp add: send_with_lease_renewal_def split: option.split)
qed

lemma keeps_bury_failed: "messaging.lawful E \<Longrightarrow> messaging.keeps (bury_failed E c e)"
  unfolding bury_failed_def by (auto intro!: messaging.keeps_try messaging.keeps_bnd keeps_finalizer)

lemma keeps_handle_failure: "messaging.lawful E \<Longrightarrow> messaging.keeps (handle_failure E W c e)"
  unfolding handle_failure_def schedule_failed_def
  by (auto intro!: messaging.keeps_try messaging.keeps_bnd keeps_bury_failed keeps_schedule_outbox_retry
      split: option.split)

lemma keeps_process_outbox: "messaging.lawful E \<Longrightarrow> messaging.keeps (process_outbox E W c)"
  unfolding process_outbox_def dispatch_def settle_def
  by (auto intro!: messaging.keeps_try messaging.keeps_bnd keeps_handle_failure keeps_send_with_lease_renewal keeps_finalizer)

lemma keeps_gather_batch:
  assumes "messaging.lawful E"
  shows "messaging.keeps (gather_batch E W cs)"
proof (induction cs)
  case (Cons c cs)
  show ?case
    unfolding messaging.keeps_def
  proof (intro allI impI)
    fix w :: mworld
    assume ok: "messaging_ok (mw_db w)"
    obtain r w1 where p: "process_outbox E W c w = (r, w1)" by fastforce
    note a = messaging.keepsD[OF keeps_process_outbox[OF assms] ok p]
    obtain q w2 where g: "bnd (gather_batch E W cs) (\<lambda>rs. ret (r # rs)) w1 = (q, w2)" by fastforce
    have "messaging.keeps (bnd (gather_batch E W cs) (\<lambda>rs. ret (r # rs)))"
      by (intro messaging.keeps_bnd Cons.IH) simp
    from messaging.keepsD[OF this _ g] a show "messaging_ok (mw_db (snd (gather_batch E W (c # cs) w)))
      \<and> messaging_evolves (mw_db w) (mw_db (snd (gather_batch E W (c # cs) w)))"
      by (auto simp: p g intro: messaging_evolves_trans)
  qed
qed simp

lemma keeps_run_once: "messaging.lawful E \<Longrightarrow> messaging.keeps (run_once E W)"
  unfolding run_once_def by (auto intro!: messaging.keeps_bnd keeps_claim_due_outbox keeps_gather_batch)

lemma keeps_run_rounds: "messaging.lawful E \<Longrightarrow> messaging.keeps (run_rounds E W tick rs k next n)"
  by (induction n arbitrary: k "next")
     (auto intro!: messaging.keeps_bnd keeps_run_once keeps_recover_expired_outbox_leases)

section \<open>Outcomes\<close>

text \<open>What a result of one command says of the tables.\<close>

definition message_at :: "idb \<Rightarrow> claimed_outbox_message \<Rightarrow> outbox_delivery_status \<Rightarrow> bool" where
  "message_at s c st \<longleftrightarrow> list_ex (\<lambda>m. ob_command_id m = ob_command_id (cl_message c) \<and> ob_status m = st) (outbox s)"

definition outcome_agrees :: "claimed_outbox_message \<Rightarrow> worker_run_result \<Rightarrow> idb \<Rightarrow> bool" where
  "outcome_agrees c r s \<longleftrightarrow>
     r = no_result\<lparr>wr_published := 1\<rparr> \<and> message_at s c Out_published
     \<or> r = no_result\<lparr>wr_retried := 1\<rparr> \<and> message_at s c Out_retry_scheduled
     \<or> r = no_result\<lparr>wr_dead := 1\<rparr> \<and> message_at s c Out_dead
     \<or> r = no_result\<lparr>wr_lease_conflicts := 1\<rparr> \<or> r = no_result\<lparr>wr_failed := 1\<rparr>"

lemma finalize_message_at:
  assumes "finalize E c target res k code msg w = (Inr u, w')"
  shows "message_at (mw_db w') c target"
proof -
  obtain l owner where lo: "ob_lease_id (cl_message c) = Some l" "ob_lease_owner (cl_message c) = Some owner"
    using assms by (auto simp: finalize_def split: option.splits)
  obtain w2 :: mworld and now ar tr where
    "finish_and_transition (at_attempt_id (cl_attempt c)) (ob_command_id (cl_message c)) l owner target now ar tr w2 = (Inr (), w')"
    using assms unfolding finalize_def lo by (auto simp: bnd_Inr elim!: integration_call_Inr)
  from finish_and_transition_result(1)[OF this] show ?thesis by (auto simp: message_at_def list_ex_iff)
qed

lemma schedule_message_at:
  assumes "schedule_outbox_retry E (ob_command_id (cl_message c)) l owner aid k code msg ra next http w = (Inr u, w')"
  shows "message_at (mw_db w') c Out_retry_scheduled"
proof -
  obtain w2 :: mworld and now ar tr where
    "finish_and_transition aid (ob_command_id (cl_message c)) l owner Out_retry_scheduled now ar tr w2 = (Inr (), w')"
    using assms unfolding schedule_outbox_retry_def
    by (auto simp: bnd_Inr elim!: integration_call_Inr split: option.splits)
  from finish_and_transition_result(1)[OF this] show ?thesis by (auto simp: message_at_def list_ex_iff)
qed

lemma try_except_Inr:
  "try_except m h s = (Inr y, s') \<longleftrightarrow> m s = (Inr y, s') \<or> (\<exists>e s1. m s = (Inl e, s1) \<and> h e s1 = (Inr y, s'))"
  by (auto simp: try_except_def split: prod.splits sum.splits)

lemma bury_failed_outcome:
  assumes "bury_failed E c e w = (Inr r, w')"
  shows "outcome_agrees c r (mw_db w')"
  using assms unfolding bury_failed_def finalizer_terminal_failure_def
  by (auto simp: try_except_Inr bnd_Inr outcome_agrees_def split: if_splits dest: finalize_message_at)

lemma handle_failure_outcome:
  assumes "handle_failure E W c e w = (Inr r, w')"
  shows "outcome_agrees c r (mw_db w')"
proof -
  consider w1 where "bury_failed E c e w1 = (Inr r, w')"
    | l owner d ra w1 where "schedule_failed E c l owner e d ra w1 = (Inr r, w')"
    | "r = no_result\<lparr>wr_lease_conflicts := 1\<rparr>"
    using assms unfolding handle_failure_def
    by (auto simp: try_except_Inr bnd_Inr split: option.splits if_splits)
  then show ?thesis
  proof cases
    case 1
    then show ?thesis by (rule bury_failed_outcome)
  next
    case 2
    then show ?thesis
      unfolding schedule_failed_def by (auto simp: bnd_Inr outcome_agrees_def dest: schedule_message_at)
  qed (simp add: outcome_agrees_def)
qed

lemma process_outbox_outcome:
  assumes "process_outbox E W c w = (Inr r, w')"
  shows "outcome_agrees c r (mw_db w')"
proof -
  consider res w1 where "settle E c res w1 = (Inr r, w')"
    | e w1 where "handle_failure E W c e w1 = (Inr r, w')"
    | "r = no_result\<lparr>wr_lease_conflicts := 1\<rparr>"
    using assms unfolding process_outbox_def
    by (auto simp: try_except_Inr bnd_Inr split: if_splits)
  then show ?thesis
  proof cases
    case 1
    then show ?thesis
      unfolding settle_def finalizer_accepted_def finalizer_rejected_def
      by (auto simp: bnd_Inr outcome_agrees_def split: if_splits dest: finalize_message_at)
  next
    case 2
    then show ?thesis by (rule handle_failure_outcome)
  qed (simp add: outcome_agrees_def)
qed

text \<open>The counters of a batch add up to the commands claimed.\<close>

definition counted :: "worker_run_result \<Rightarrow> nat" where
  "counted r = wr_published r + wr_retried r + wr_dead r + wr_lease_conflicts r + wr_failed r"

lemma outcome_counted: "outcome_agrees c r s \<Longrightarrow> counted r = 1"
  by (auto simp: outcome_agrees_def counted_def no_result_def)

lemma counted_merge: "counted (merge_results a b) = counted a + counted b"
  by (simp add: counted_def merge_results_def)

lemma gather_batch_counted:
  assumes "gather_batch E W cs w = (Inr rs, w')"
  shows "length rs = length cs \<and> (\<forall>x\<in>set rs. \<forall>r. x = Inr r \<longrightarrow> counted r = 1)"
  using assms
proof (induction cs arbitrary: w rs)
  case (Cons c cs)
  obtain x w1 rs' where p: "process_outbox E W c w = (x, w1)" "gather_batch E W cs w1 = (Inr rs', w')" "rs = x # rs'"
    using Cons.prems by (auto simp: bnd_Inr split: prod.splits)
  have "counted r = 1" if "x = Inr r" for r
    using process_outbox_outcome[OF p(1)[unfolded that]] by (rule outcome_counted)
  then show ?case using Cons.IH[OF p(2)] by (auto simp: p(3))
qed simp

lemma merge_batch_counted:
  assumes "merge_batch a rs = Inr b" and "\<forall>x\<in>set rs. \<forall>r. x = Inr r \<longrightarrow> counted r = 1"
  shows "counted b = counted a + length rs \<and> wr_claimed b = wr_claimed a"
  using assms
  by (induction a rs rule: merge_batch.induct) (auto simp: counted_merge, simp_all add: merge_results_def)

lemma run_once_counted:
  assumes "run_once E W w = (Inr r, w')"
  shows "counted r = wr_claimed r"
proof -
  obtain cs rs w1 w2 where g: "gather_batch E W cs w1 = (Inr rs, w2)"
    and m: "merge_batch (no_result\<lparr>wr_claimed := length cs\<rparr>) rs = Inr r"
    using assms by (auto simp: run_once_def bnd_Inr)
  then show ?thesis
    using merge_batch_counted[OF m] gather_batch_counted[OF g] by (simp add: counted_def no_result_def)
qed

section \<open>Retries\<close>

text \<open>A rescheduled command failed in a way the policy retries, had attempts left, and is not due
  before the delay has passed.\<close>

lemma handle_failure_retried:
  assumes run: "handle_failure E W c e w = (Inr r, w')" and r: "wr_retried r = 1"
  shows "failure_kind_of e \<in> retryable_failure_kinds" and "at_attempt_number (cl_attempt c) < MAX_ATTEMPTS"
proof -
  have not_buried: "wr_retried x = 0" if "bury_failed E c e v = (Inr x, v')" for x v v'
    using that by (auto simp: bury_failed_def try_except_Inr bnd_Inr no_result_def split: if_splits)
  obtain d where "decide_retry (failure_kind_of e) (at_attempt_number (cl_attempt c)) MAX_ATTEMPTS
        default_retry_config (error_retry_after e) (Some (wk_random_source W)) = Inr d" "rd_retryable d"
    using run r not_buried unfolding handle_failure_def
    by (auto simp: try_except_Inr bnd_Inr no_result_def split: option.splits if_splits)
  then show "failure_kind_of e \<in> retryable_failure_kinds" "at_attempt_number (cl_attempt c) < MAX_ATTEMPTS"
    by (auto simp: decide_retry_def mk_retry_decision_def Let_def split: if_splits sum.splits)
qed

text \<open>A provider that answers with a very large \<^verbatim>\<open>Retry-After\<close> makes the time arithmetic overflow; the
  exception is none of those the handler catches, and the command is not written.\<close>

lemma round_half_even_ge: "of_int k \<le> x \<Longrightarrow> k \<le> round_half_even x"
proof -
  assume "of_int k \<le> x"
  then have "k \<le> \<lfloor>x\<rfloor>" by (simp add: le_floor_iff)
  then show ?thesis by (auto simp: round_half_even_def Let_def)
qed

lemma decide_retry_after:
  assumes "0 \<le> n" "n < 8" and k: "k \<in> retryable_failure_kinds" and x: "10 ^ 14 \<le> x"
  shows "\<exists>d. decide_retry k n MAX_ATTEMPTS default_retry_config (Some (Finite x)) (Some s) = Inr d
    \<and> rd_retryable d \<and> rd_delay_seconds d = Some x"
proof -
  have "nat (max (n - 1) 0) \<le> 7" using assms(2) by simp
  then have "(2::rat) ^ nat (max (n - 1) 0) \<le> 2 ^ 7" by (intro power_increasing) simp_all
  then have le: "(2::rat) ^ nat (max (n - 1) 0) \<le> x" using x by simp
  have x0: "0 \<le> x" using x by simp
  have v: "validate_retry_parameters n default_retry_config (Some (Finite x)) = Inr ()"
    using assms(1) x0
    by (simp add: validate_retry_parameters_def default_retry_config_def BASE_BACKOFF_SECONDS_def BACKOFF_MULTIPLIER_def)
  have "retry_delay_seconds n default_retry_config (Some (Finite x)) (Some s) = Inr x"
    using le unfolding retry_delay_seconds_def v
    by (simp add: default_retry_config_def BASE_BACKOFF_SECONDS_def BACKOFF_MULTIPLIER_def)
  then show ?thesis
    using assms(1,2) k x0 by (simp add: decide_retry_def v MAX_ATTEMPTS_def mk_retry_decision_def)
qed

lemma retry_after_overflow:
  assumes lease: "ob_lease_id (cl_message c) = Some l" "ob_lease_owner (cl_message c) = Some owner"
    and n: "0 \<le> at_attempt_number (cl_attempt c)" "at_attempt_number (cl_attempt c) < 8"
    and k: "classify_http_status code = Inr Http_retryable" and x: "10 ^ 14 \<le> x"
  shows "\<exists>w'. handle_failure E W c (HTTPStatusError code (Some (Finite x))) w = (Inl OverflowError, w') \<and> mw_db w' = mw_db w"
proof -
  let ?e = "HTTPStatusError code (Some (Finite x))"
  have kind: "failure_kind_of ?e = Http_retryable" using k by (simp add: failure_kind_of_def)
  obtain d where d: "decide_retry Http_retryable (at_attempt_number (cl_attempt c)) MAX_ATTEMPTS default_retry_config
        (Some (Finite x)) (Some (wk_random_source W)) = Inr d" "rd_retryable d" "rd_delay_seconds d = Some x"
    using decide_retry_after[OF n _ x] by (auto simp: retryable_failure_kinds_def)
  have "(10::int) ^ 20 \<le> round_half_even (x * 1000000)" by (rule round_half_even_ge) (use x in simp)
  then have "add_seconds t x = Inl OverflowError" for t
    by (simp add: add_seconds_def Let_def timedelta_max_def)
  then show ?thesis
    unfolding handle_failure_def schedule_failed_def lease kind
    by (simp add: d bnd_def lift_def local_clock_def try_except_def throw_def ret_def)
qed

end
