(* ===== verification/Delivery.thy ===== *)
theory Delivery
  imports Outbox_Worker
begin

text \<open>
  What the contract of the messaging tables gives over whole runs: how messages move through the
  delivery machine, how often a command is attempted, that a cycle settles, and that a worker whose
  attempt has ended writes nothing.
\<close>

section \<open>The machine over runs\<close>

lemma evolved_message:
  assumes ev: "messaging_evolves s t" and t: "messaging_ok t"
    and m: "m \<in> set (outbox s)" and m': "m' \<in> set (outbox t)" "ob_command_id m' = ob_command_id m"
  shows "message_advances m m'"
proof -
  obtain q where q: "q \<in> set (outbox t)" "message_advances m q"
    using ev m unfolding messaging_evolves_def rows_evolve_def by blast
  have "ob_command_id q = ob_command_id m" using q(2) by (auto simp: message_advances_def same_command_def)
  then have "q = m'" using message_unique[OF t q(1) m'(1)] m'(2) by simp
  then show ?thesis using q(2) by simp
qed

lemma message_advances_steps: "message_advances m m' \<Longrightarrow> delivery_step\<^sup>*\<^sup>* (delivery_of m) (delivery_of m')"
  by (auto simp: message_advances_def)

lemma delivery_cycle_mono: "delivery_step\<^sup>*\<^sup>* a b \<Longrightarrow> fst a \<le> fst b"
  by (induction rule: rtranclp_induct) (auto elim!: delivery_stepE)

lemma delivery_steps_budget:
  assumes "delivery_step\<^sup>*\<^sup>* a b" and "fst b = fst a" and "snd (snd a) \<le> 8"
  shows "(b = a \<or> delivery_budget b < delivery_budget a) \<and> snd (snd b) \<le> 8"
  using assms
proof (induction rule: rtranclp_induct)
  case (step y z)
  have "fst y \<le> fst z" "fst a \<le> fst y"
    using delivery_cycle_mono[of y z] delivery_cycle_mono[of a y] step.hyps by blast+
  then have "fst y = fst a" "fst z = fst y" using step.prems(1) by simp_all
  then show ?case using step.IH[OF _ step.prems(2)] delivery_step_budget[OF step.hyps(2)] by auto
qed simp

lemma attempts_spent: "messaging_ok s \<Longrightarrow> m \<in> set (outbox s) \<Longrightarrow> 0 \<le> ob_attempts_in_cycle m \<and> ob_attempts_in_cycle m \<le> 8"
  using messaging_okD(6)[of s] by (simp add: list_all_iff outbox_row_ok_def)

text \<open>Along any sequence of committed states a message that stays in its cycle settles: from some point
  on its delivery state does not change again.\<close>

lemma delivery_settles:
  fixes s :: "nat \<Rightarrow> idb" and m :: "nat \<Rightarrow> outbox_message"
  assumes ok: "\<And>i. messaging_ok (s i)" and ev: "\<And>i. messaging_evolves (s i) (s (Suc i))"
    and m: "\<And>i. m i \<in> set (outbox (s i))" "\<And>i. ob_command_id (m i) = u" "\<And>i. ob_delivery_cycle (m i) = c"
  shows "\<exists>N. \<forall>i\<ge>N. delivery_of (m i) = delivery_of (m N)"
proof -
  let ?b = "\<lambda>i. delivery_budget (delivery_of (m i))"
  have step: "delivery_of (m (Suc i)) = delivery_of (m i) \<or> ?b (Suc i) < ?b i" for i
  proof -
    have "delivery_step\<^sup>*\<^sup>* (delivery_of (m i)) (delivery_of (m (Suc i)))"
      by (intro message_advances_steps evolved_message[OF ev ok m(1) m(1)]) (simp add: m(2))
    moreover have "fst (delivery_of (m (Suc i))) = fst (delivery_of (m i))" "snd (snd (delivery_of (m i))) \<le> 8"
      using attempts_spent[OF ok m(1)] m(3) by (simp_all add: delivery_of_def)
    ultimately show ?thesis using delivery_steps_budget by blast
  qed
  obtain N where N: "\<And>i. ?b N \<le> ?b i"
    using ex_has_least_nat[of "\<lambda>_. True" 0 ?b] by auto
  have "delivery_of (m (N + k)) = delivery_of (m N)" for k
  proof (induction k)
    case (Suc k)
    then have "\<not> ?b (Suc (N + k)) < ?b (N + k)" using N[of "Suc (N + k)"] by simp
    then show ?case using step[of "N + k"] Suc.IH by simp
  qed simp
  then have "\<forall>i\<ge>N. delivery_of (m i) = delivery_of (m N)" by (metis le_add_diff_inverse)
  then show ?thesis ..
qed

section \<open>Attempts\<close>

lemma attempts_bounded:
  assumes ok: "messaging_ok s"
  shows "length (filter (\<lambda>a. at_command_id a = u \<and> at_delivery_cycle a = c) (outbox_delivery_attempts s)) \<le> 8"
proof -
  let ?as = "filter (\<lambda>a. at_command_id a = u \<and> at_delivery_cycle a = c) (outbox_delivery_attempts s)"
  have d: "distinct (map attempt_key ?as)" by (rule distinct_map_filter[OF messaging_okD(8)[OF ok]])
  have "inj_on at_attempt_number (set ?as)"
    by (rule inj_onI) (auto intro: distinct_map_eqD[OF messaging_okD(8)[OF ok]])
  then have "card (at_attempt_number ` set ?as) = card (set ?as)" by (rule card_image)
  also have "\<dots> = length ?as" using d by (intro distinct_card) (simp only: distinct_map)
  finally have "length ?as = card (at_attempt_number ` set ?as)" ..
  also have "at_attempt_number ` set ?as \<subseteq> {1..8}" using attempts_numbered[OF ok] by auto
  then have "card (at_attempt_number ` set ?as) \<le> card {1..8::int}" by (intro card_mono) simp_all
  finally show ?thesis by simp
qed

section \<open>Stale workers\<close>

lemma stale_worker_fenced:
  assumes env: "mquiet E" and lease: "ob_lease_id (cl_message c) = Some l" "ob_lease_owner (cl_message c) = Some owner"
    and ok: "messaging_ok (mw_db w)" and ev: "messaging_evolves s (mw_db w)"
    and a: "a \<in> set (outbox_delivery_attempts s)" "at_attempt_id a = at_attempt_id (cl_attempt c)" "\<not> attempt_open a"
  shows "fst (finalize E c target res k code msg w) = Inl LeaseConflictError"
    and "mw_db (snd (finalize E c target res k code msg w)) = mw_db w"
proof -
  have a': "a \<in> set (outbox_delivery_attempts (mw_db w))" by (rule finished_attempt_stays[OF ev a(1,3)])
  have "\<not> attempt_open b" if "b \<in> set (outbox_delivery_attempts (mw_db w))" "at_attempt_id b = at_attempt_id (cl_attempt c)" for b
    using attempt_unique[OF ok that(1) a'] that(2) a(2,3) by simp
  then show "fst (finalize E c target res k code msg w) = Inl LeaseConflictError"
    and "mw_db (snd (finalize E c target res k code msg w)) = mw_db w"
    using finalize_fenced[OF env lease] by blast+
qed

section \<open>Runs of the worker\<close>

lemma worker_contract:
  assumes "messaging.lawful E" and "messaging_ok (mw_db w)" and "t = mw_db (snd (run_rounds E W tick rs k next n w))"
  shows "messaging_ok t" "messaging_evolves (mw_db w) t"
  using keeps_run_rounds[OF assms(1)] assms(2,3) unfolding messaging.keeps_def by blast+

end
