(* ===== verification/Scenario.thy ===== *)
theory Scenario
  imports Progress Replay Delivery Rate_Limit Provider_Failure
begin

text \<open>
  A small deployment on which the theorems are applied: one tenant with a customer, a support agent
  and a supervisor, a clock that ticks once a second, identifiers counted from one, nobody else at
  work.
\<close>

section \<open>Callers\<close>

definition alice :: access_scope where
  "alice = \<lparr>sc_tenant_id = ''acme'', sc_user_id = ''alice'', sc_role = Customer,
     sc_permissions = role_permissions Customer\<rparr>"

definition sam :: access_scope where
  "sam = \<lparr>sc_tenant_id = ''acme'', sc_user_id = ''sam'', sc_role = Supervisor,
     sc_permissions = role_permissions Supervisor\<rparr>"

text \<open>A customer of another tenant.\<close>

definition bob :: access_scope where
  "bob = \<lparr>sc_tenant_id = ''globex'', sc_user_id = ''bob'', sc_role = Customer,
     sc_permissions = role_permissions Customer\<rparr>"

definition demo_identity :: authenticated_identity where
  "demo_identity = \<lparr>ai_user_id = ''alice'', ai_tenant_id = ''acme'', ai_role = Customer,
     ai_permissions = role_permissions Customer\<rparr>"

definition demo_claims :: py_mapping where
  "demo_claims = [(''sub'', PyStr '' alice ''), (''tid'', PyStr ''acme''),
     (''groups'', PySeq [PyStr ''shoppers''])]"

definition demo_mapping :: claim_mapping where
  "demo_mapping = \<lparr>cm_user_id_claim = ''sub'', cm_tenant_id_claim = ''tid'',
     cm_groups_claim = ''groups'',
     cm_role_groups = [(Customer, [''shoppers'']), (Supervisor, [''leads''])]\<rparr>"

section \<open>Deployment\<close>

definition demo_env :: environment where
  "demo_env = \<lparr>en_clock = (\<lambda>n. 1000000 * int (Suc n)), en_uuid = (\<lambda>n. of_nat (Suc n)),
     en_interfere = (\<lambda>_ s. s), en_fault = (\<lambda>_. No_fault)\<rparr>"

definition demo_submit :: submit_operation where
  "demo_submit request version key =
     ret \<lparr>eo_operation_id = ''PRV-1'', eo_operation_type = Ex_cancellation,
          eo_status = Ext_submitted, eo_provider_reference = Some ''REF-1''\<rparr>"

definition demo :: deployment where
  "demo = \<lparr>dp_env = demo_env, dp_attempts = 3, dp_submit = demo_submit, dp_directory = None\<rparr>"

lemma quiet_demo: "quiet demo_env"
  by (simp add: quiet_def demo_env_def)

lemma lawful_demo: "lawful demo"
  by (simp add: lawful_def demo_def demo_env_def provider_ok_def directory_ok_def demo_submit_def
      ret_def evolves_refl)

lemma surroundings_demo: "surroundings_confined scope demo"
  by (simp add: surroundings_confined_def demo_def demo_env_def demo_submit_def ret_def)

lemma off_tables_demo: "off_tables demo"
  by (simp add: off_tables_def demo_def demo_submit_def ret_def)

lemma off_database_demo: "off_database demo"
  by (simp add: off_database_def demo_def demo_submit_def ret_def)

section \<open>Orders and requests\<close>

definition demo_order :: order_snapshot where
  "demo_order = \<lparr>os_order_id = ''ORD-00001'', os_version = 1, os_amount = 25,
     os_currency = ''EUR'', os_order_status = Confirmed, os_payment_status = Paid,
     os_fulfillment_status = Unfulfilled, os_created_at = 0, os_shipped_at = None,
     os_delivered_at = None, os_promised_delivery_at = None, os_last_tracking_event_at = None,
     os_return_eligible = None, os_exchange_eligible = None, os_existing_operations = [],
     os_customer_id = Some ''alice'', os_tenant_id = Some ''acme''\<rparr>"

definition demo_request :: order_operation_request where
  "demo_request = \<lparr>rq_thread_id = ''t1'', rq_source_message_id = ''m1'',
     rq_order_id = ''ORD-00001'', rq_operation_type = Cancellation, rq_reason = Ordered_by_mistake,
     rq_replacement_variant_id = None, rq_customer_id = ''alice'', rq_tenant_id = ''acme''\<rparr>"

definition demo_decision :: operation_decision where
  "demo_decision = \<lparr>od_outcome = Eligible, od_operation_type = Cancellation,
     od_requires_confirmation = True, od_reason_codes = [''cancellation_eligible''],
     od_display_reason = ''ok'', od_existing_operation = None, od_case_recommendation = None\<rparr>"

definition review_decision :: operation_decision where
  "review_decision = \<lparr>od_outcome = Outcome_manual_review, od_operation_type = Cancellation,
     od_requires_confirmation = True, od_reason_codes = [''cancellation_state_invalid''],
     od_display_reason = ''review'', od_existing_operation = None,
     od_case_recommendation = Some \<lparr>cr_case_type = Rec_order_operation_review, cr_priority = P1,
       cr_reason_codes = [''cancellation_state_invalid'']\<rparr>\<rparr>"

definition demo_report :: delivery_issue_request where
  "demo_report = \<lparr>dr_thread_id = ''t1'', dr_source_message_id = ''m1'', dr_order_id = ''ORD-00001'', dr_issue_type = Marked_delivered_not_received,
     dr_investigation_requested = False\<rparr>"

definition demo_trigger :: case_trigger where
  "demo_trigger = \<lparr>tr_thread_id = ''t1'', tr_source_message_id = ''m1'',
     tr_order_id = Some ''ORD-00001'', tr_risk_level = None, tr_risk_categories = [],
     tr_triggering_message_excerpt = ''help''\<rparr>"

definition demo_handoff :: handoff_decision where
  "demo_handoff = \<lparr>hd_should_create_case = True, hd_case_type = Some General_support,
     hd_priority = Some P2, hd_reason_codes = [Confirmed_human_request],
     hd_display_reason = ''The user confirmed a request for human support.''\<rparr>"

abbreviation demo_create :: service_call where
  "demo_create \<equiv> Create_operation alice demo_request demo_order demo_decision ''please cancel''"

abbreviation demo_create_review :: service_call where
  "demo_create_review \<equiv> Create_operation alice demo_request demo_order review_decision ''please cancel''"

abbreviation after :: "service_call list \<Rightarrow> world" where
  "after cs \<equiv> exec_session demo cs (start_world empty_db)"

abbreviation demo_create_again :: service_call where
  "demo_create_again \<equiv> Create_operation alice (demo_request\<lparr>rq_source_message_id := ''m2''\<rparr>) demo_order
     demo_decision ''cancel it now''"

abbreviation demo_confirm :: service_call where
  "demo_confirm \<equiv> Confirm_operation alice 1 ''r1''"

abbreviation demo_queue :: service_call where
  "demo_queue \<equiv> Queue_operation alice 1 ''r1'' ''conn-1''"

abbreviation demo_submit_call :: service_call where
  "demo_submit_call \<equiv> Submit_operation alice 1 ''r1''"

abbreviation demo_resolve :: service_call where
  "demo_resolve \<equiv> Change_case_status sam 1 Resolved ''r2'' None"

abbreviation demo_take :: service_call where
  "demo_take \<equiv> Change_case_status sam 1 In_progress ''r1'' None"

abbreviation demo_record :: service_call where
  "demo_record \<equiv> Record_handoff alice demo_trigger demo_handoff"

abbreviation demo_record_again :: service_call where
  "demo_record_again \<equiv> Record_handoff alice (demo_trigger\<lparr>tr_source_message_id := ''m2''\<rparr>)
     (demo_handoff\<lparr>hd_reason_codes := [Explicit_other_complaint]\<rparr>)"

declare exec_session.simps [simp del]

lemma committed_start: "committed (w_db (start_world empty_db))"
  by (simp add: start_world_def committed_empty)

lemma committed_after: "committed (w_db (after cs))"
  using session_contract[OF lawful_demo committed_start] by blast

section \<open>Messaging\<close>

text \<open>A queued cancellation with its command in the outbox, as the service leaves them, a connection for
  it and a worker. The database clock stands at one minute.\<close>

definition demo_core :: db where
  "demo_core =
     \<lparr>order_operations =
       [\<lparr>op_operation_id = 1,
           op_idempotency_key = ''operation:t1:m1:created'',
           op_thread_id = ''t1'', op_source_message_id = ''m1'',
           op_order_id = ''ORD-00001'',
           op_operation_type = Cancellation,
           op_request_reason_code = Ordered_by_mistake,
           op_policy_reason_codes = [''cancellation_eligible''],
           op_display_reason = ''ok'', op_replacement_variant_id = None,
           op_request_excerpt = ''please cancel'', op_order_version = 1,
           op_amount = 25, op_currency = ''EUR'',
           op_requires_manual_review = False,
           op_review_case_type = None, op_review_priority = None,
           op_support_case_id = None, op_provider_reference = None,
           op_status = Queued, op_created_at = 1000000,
           op_updated_at = 3000000, op_version = 2,
           op_customer_id = ''alice'', op_tenant_id = ''acme'',
           op_created_by = ''acme:alice''\<rparr>],
       order_operation_events =
         [\<lparr>oe_event_id = 2,
             oe_idempotency_key = ''operation:t1:m1:created'',
             oe_operation_id = 1,
             oe_event_type = Operation_created,
             oe_previous_status = None, oe_current_status = None,
             oe_provider_reference = None, oe_support_case_id = None,
             oe_actor = ''system'', oe_customer_id = ''alice'',
             oe_tenant_id = ''acme'', oe_created_at = 1000000\<rparr>,
          \<lparr>oe_event_id = 4,
             oe_idempotency_key =
               ''operation:00000000-0000-0000-0000-000000000001:confirmed:r1'',
             oe_operation_id = 1,
             oe_event_type = Confirmation_recorded,
             oe_previous_status = None, oe_current_status = None,
             oe_provider_reference = None, oe_support_case_id = None,
             oe_actor = ''acme:alice'', oe_customer_id = ''alice'',
             oe_tenant_id = ''acme'', oe_created_at = 2000000\<rparr>,
          \<lparr>oe_event_id = 3,
             oe_idempotency_key =
               ''operation:00000000-0000-0000-0000-000000000001:queued:r1'',
             oe_operation_id = 1,
             oe_event_type = Status_changed,
             oe_previous_status = Some Pending_confirmation,
             oe_current_status = Some Queued,
             oe_provider_reference = None, oe_support_case_id = None,
             oe_actor = ''acme:alice'', oe_customer_id = ''alice'',
             oe_tenant_id = ''acme'', oe_created_at = 3000000\<rparr>],
       support_cases = [], support_case_events = [],
       outbox_messages =
         [\<lparr>ob_command_id = 5,
             ob_idempotency_key =
               ''order-operation:00000000-0000-0000-0000-000000000001'',
             ob_tenant_id = ''acme'', ob_customer_id = ''alice'',
             ob_source_message_id = ''m1'',
             ob_provider_connection_id = ''conn-1'',
             ob_provider_capability = Order_operation_capability,
             ob_command_type = Cancel_order,
             ob_aggregate_type = Agg_order_operation,
             ob_aggregate_id = 1,
             ob_expected_order_version = Some 1,
             ob_payload =
               Order_operation_payload ''ORD-00001'' Cancellation
                Ordered_by_mistake None,
             ob_status = Out_pending, ob_delivery_cycle = 1,
             ob_attempts_in_cycle = 0, ob_available_at = 3000000,
             ob_lease_id = None, ob_lease_owner = None,
             ob_lease_expires_at = None, ob_last_failure_kind = None,
             ob_last_error_code = None, ob_last_error_message = None,
             ob_created_at = 3000000, ob_updated_at = 3000000,
             ob_published_at = None, ob_dead_at = None\<rparr>]\<rparr>"

definition demo_idb :: idb where
  "demo_idb = \<lparr>core = demo_core, outbox_delivery_attempts = []\<rparr>"

definition demo_menv :: menvironment where
  "demo_menv = \<lparr>me_db_clock = (\<lambda>n. 60000000 + int n), me_clock = (\<lambda>n. 60000000 + int n),
     me_uuid4 = (\<lambda>n. of_nat (100 + n)), me_interfere = (\<lambda>_ s. s), me_fault = (\<lambda>_. No_fault),
     me_locked = (\<lambda>_ _. False), me_scan = (\<lambda>_ _. 0)\<rparr>"

definition demo_connection :: provider_connection where
  "demo_connection = \<lparr>cn_connection_id = ''conn-1'', cn_tenant_id = ''acme'',
     cn_capability = Order_operation_capability,
     cn_base_url = \<lparr>url_scheme = ''https'', url_text = ''https://provider.example/''\<rparr>,
     cn_endpoint = ''/v1/commands'',
     cn_authentication = \<lparr>pa_scheme = Bearer, pa_credential = Some ''secret'', pa_api_key_header = None\<rparr>,
     cn_timeout = \<lparr>pt_connect_seconds = Finite 5, pt_read_seconds = Finite 30, pt_write_seconds = Finite 30\<rparr>,
     cn_max_concurrency = 4, cn_requests_per_second = Some (Finite 2)\<rparr>"

definition demo_result :: "provider_command_envelope \<Rightarrow> provider_command_result" where
  "demo_result command = \<lparr>pr_command_id = pc_command_id command, pr_provider_operation_id = Some ''PRV-1'',
     pr_provider_reference = Some ''REF-1'', pr_status = Acc_accepted, pr_received_at = 61000000\<rparr>"

definition demo_lookup :: "string \<Rightarrow> provider_capability \<Rightarrow> exn + provider_connection" where
  "demo_lookup connection_id capability =
     (case mk_connection_resolver False [demo_connection] of
        Inl e \<Rightarrow> Inl e | Inr r \<Rightarrow> resolve_by_connection_id r connection_id capability)"

definition demo_worker ::
  "(provider_command_envelope \<Rightarrow> exn + provider_command_result) \<Rightarrow> outbox_worker" where
  "demo_worker send = \<lparr>wk_worker_id = ''worker-1'', wk_batch_size = 20, wk_lease_seconds = Finite 90,
     wk_lookup = demo_lookup, wk_send = (\<lambda>_ _. send), wk_renewals = (\<lambda>_. 1), wk_random_source = 0\<rparr>"

abbreviation accepting :: outbox_worker where
  "accepting \<equiv> demo_worker (\<lambda>c. Inr (demo_result c))"

abbreviation unreachable :: outbox_worker where
  "unreachable \<equiv> demo_worker (\<lambda>_. Inl ProviderTimeoutError)"

lemma mquiet_demo: "mquiet demo_menv"
  by (simp add: mquiet_def demo_menv_def)

lemma messaging_lawful_demo: "messaging.lawful demo_menv"
  by (simp add: messaging.lawful_def demo_menv_def messaging_evolves_refl)

lemma demo_outbox_waits: "list_all (\<lambda>m. ob_status m = Out_pending \<and> message_readable m) (outbox demo_idb)"
  by code_simp

lemma messaging_ok_demo: "messaging_ok demo_idb"
  unfolding messaging_ok_def
proof (intro conjI)
  show "committed (core demo_idb)" by code_simp
  show "attempts_ok demo_idb" by (simp add: attempts_ok_def demo_idb_def)
  show "leases_ok demo_idb" using demo_outbox_waits by (auto simp: leases_ok_def list_all_iff demo_idb_def)
  show "list_all message_readable (outbox demo_idb)" using demo_outbox_waits by (simp add: list_all_iff)
qed

abbreviation start :: mworld where
  "start \<equiv> start_mworld demo_idb"

lemma messaging_ok_start: "messaging_ok (mw_db start)"
  by (simp add: start_mworld_def messaging_ok_demo)

text \<open>The command after it has been claimed.\<close>

definition demo_claims_made :: "(exn + claimed_outbox_message list) \<times> mworld" where
  "demo_claims_made = claim_due_outbox demo_menv ''worker-1'' 20 (Finite 90) start"

definition demo_claimed :: claimed_outbox_message where
  "demo_claimed = (case fst demo_claims_made of Inr cs \<Rightarrow> hd cs | Inl _ \<Rightarrow> undefined)"

abbreviation claimed_world :: mworld where
  "claimed_world \<equiv> snd demo_claims_made"

lemma messaging_ok_claimed: "messaging_ok (mw_db claimed_world)"
  using messaging.keepsD[OF keeps_claim_due_outbox[OF messaging_lawful_demo] messaging_ok_start]
  unfolding demo_claims_made_def by (metis prod.collapse)

text \<open>A database clock that stands still before anything is due.\<close>

definition early_menv :: menvironment where
  "early_menv = demo_menv\<lparr>me_db_clock := \<lambda>_. 0\<rparr>"

lemma messaging_lawful_early: "messaging.lawful early_menv"
  by (simp add: messaging.lawful_def early_menv_def demo_menv_def messaging_evolves_refl)

lemma nothing_due: "due_outbox (\<lambda>_. 0) (outbox demo_idb) = []"
  by code_simp

lemma claim_parameters_demo: "validate_claim_parameters ''worker-1'' 20 (Finite 90) = Inr ()"
  by code_simp

lemma idle_run:
  assumes "mw_db w = demo_idb"
  shows "mw_db (snd (run_once early_menv accepting w)) = demo_idb"
  using assms nothing_due
  by (simp add: run_once_def claim_due_outbox_def demo_worker_def claim_parameters_demo integration_call_def
      transaction_def try_except_def early_menv_def demo_menv_def bnd_def lift_def ret_def select_due_outbox_def Let_def)

end
