(* ===== verification/Spec2Isabelle.thy ===== *)
theory Spec2Isabelle
  imports Isolation Progress Atomicity Replay Retry Callback_Policy Provider_Failure Rate_Limit Outbox_Worker Scenario
begin

text \<open>
  \<^bold>\<open>Verification of the deterministic core of the refund agent.\<close>

  The program is a customer-service agent. A conversation graph (\<^verbatim>\<open>src/agent/graph.py\<close>,
  \<^verbatim>\<open>nodes/\<close>) turns messages into requests; everything that decides, stores or sends is ordinary
  deterministic Python below it, and that is what this development models:

  \<^item> \<^verbatim>\<open>auth/\<close>: who the caller is and which rows they may see (theory \<open>Auth\<close>);
  \<^item> \<^verbatim>\<open>operations/\<close>: order operations (cancellation, return, exchange): their data
    (\<open>Operation_Models\<close>), eligibility and delivery policy (\<open>Operation_Policy\<close>), repository
    (\<open>Operation_Store\<close>) and service (\<open>Operation_Service\<close>);
  \<^item> \<^verbatim>\<open>cases/\<close>: support cases: data (\<open>Case_Models\<close>), handoff policy (\<open>Case_Policy\<close>), repository
    (\<open>Case_Store\<close>) and service (\<open>Case_Service\<close>);
  \<^item> \<^verbatim>\<open>integrations/\<close>: the commands for the order provider (\<open>Provider_Command\<close>,
    \<open>Provider_Status\<close>), their retry policy (\<open>Retry\<close>), the policy for callbacks
    (\<open>Callback_Policy\<close>), connections and the HTTP transport (\<open>Provider_Connection\<close>), rate limits
    (\<open>Rate_Limit\<close>), and the delivery of commands through an outbox, described below.

  \<^bold>\<open>How the code is represented.\<close> Strings are lists of characters; an aware
  \<^verbatim>\<open>datetime\<close> is the instant it denotes, in microseconds; a \<^verbatim>\<open>UUID\<close> is a 128-bit word with
  its canonical text; a \<^verbatim>\<open>Decimal\<close> is a rational. A pydantic model is a record with a
  \<open>trim_\<close> function (whitespace stripping), a \<open>valid_\<close> predicate (field constraints and
  validators) and an \<open>mk_\<close> constructor that combines them and may fail. Exceptions are the values
  of \<open>exn\<close>; a method is a program (\<open>prog\<close>, theory \<open>Prelude\<close>) that maps a world to a result or an
  exception and a new world. A \<^verbatim>\<open>for attempt in range(n)\<close> loop is \<open>attempts n\<close>, structural in
  \<open>n\<close>, so every method is total.

  \<^bold>\<open>Tables and transactions.\<close> \<open>Database\<close> holds the five tables as lists of rows with the
  constraints of \<^verbatim>\<open>sql/migrations\<close>: column checks, primary keys, unique and partial unique
  indexes, foreign keys. A transaction is a function from tables to an error or new tables, so it
  is atomic by construction, as the code's \<^verbatim>\<open>async with connection.transaction()\<close> is.
  \<open>World\<close> adds everything around a transaction: before each round trip other sessions may have
  committed anything (\<open>en_interfere\<close>), and a round trip may be lost before it runs or after it
  committed (\<open>en_fault\<close>). These, the clock and the identifier factory are parameters.

  \<^bold>\<open>The contract of the tables.\<close> \<open>History\<close> states what holds of every committed state
  (\<open>committed\<close>) and how committed states move (\<open>evolves\<close>). The locale \<open>rely_guarantee\<close> of
  \<open>World\<close> is the interface every session relies on and provides; it is interpreted on
  \<open>committed\<close>/\<open>evolves\<close> (\<open>rg\<close>) and, in \<open>Isolation\<close>, on the preservation of foreign rows
  (\<open>iso\<close>). One lemma \<open>runs_m\<close> per service method shows that it keeps the contract whatever
  happens between its round trips; \<open>Sessions\<close> composes them over arbitrary sequences of calls.
  The locale \<open>versioned_store\<close> is optimistic locking; the update and queue transactions of both
  repositories are its interpretations.

  \<^bold>\<open>Delivery of commands.\<close> A queued operation leaves a command in the outbox; workers lease it,
  submit it and record the outcome. \<open>Messaging_Models\<close> has the rows (\<^verbatim>\<open>persistence_models.py\<close>),
  \<open>Messaging_Tables\<close> the attempts table, the contract of the messaging tables (\<open>messaging_ok\<close>,
  \<open>messaging_evolves\<close>) and the abstract delivery machine (\<open>delivery_step\<close>), \<open>Lease_Protocol\<close> the steps
  acquire, renew and release on the tables. \<open>Messaging_World\<close> is what a transaction runs in: clocks,
  identifiers, locks, faults and other sessions; its locale \<open>table_contract\<close> turns a body that keeps
  a contract into a program that keeps it however it ends, and is interpreted on the messaging contract
  (\<open>messaging\<close>) and, for the manual-review fallback, on its extension (\<open>queue_failure\<close>).
  \<open>Outbox_Store\<close> and \<open>Outbox_Recovery\<close> are the outbox half of \<^verbatim>\<open>postgres_repository.py\<close> and
  \<^verbatim>\<open>postgres_writes.py\<close>, \<open>Aggregate_Changes\<close> the changes of an operation or a case such a
  transaction makes, \<open>Finalization\<close> is \<^verbatim>\<open>finalization.py\<close>, \<open>Provider_Failure\<close> is
  \<^verbatim>\<open>provider_failure.py\<close>, \<open>Outbox_Worker\<close> is \<^verbatim>\<open>outbox_worker.py\<close>, and \<open>Delivery\<close> draws the
  conclusions over whole runs. The tasks of a batch are modelled one after the other: they write
  different messages, and between any two transactions other sessions may commit anything lawful.

  \<^bold>\<open>Bounds.\<close> No fuel is used. Retry loops take the number of attempts the services are
  configured with as a parameter \<open>n\<close>; nothing depends on its value. The polling loop of the worker
  does not end by design; \<open>run_rounds\<close> is its first \<open>n\<close> rounds, for every \<open>n\<close>.

  \<^bold>\<open>Not modelled.\<close> The conversation graph's calls of a language model, prompts and message
  texts; the processing of provider callbacks beyond their policy, and the operator's redrive; HTTP
  clients (a parameter of the transport), routers and web applications; OIDC, JWKS and SCIM clients;
  connection pooling and the migration runner; logging; process assembly. Characters beyond Latin-1 and the
  representation of time zones are abstracted away. Isolation anomalies weaker than serialisable
  transactions are not modelled: the code's transactions write through one conditional update on a
  version column or through unique indexes, which the database checks atomically.

  \<open>Scenario\<close> is a small deployment at which the theorems below are applied.
\<close>

section \<open>Sessions keep the tables consistent\<close>

text \<open>C1: however the calls of a session interleave with other lawful sessions and
  whichever round trips fail, replaying the audit events of every stored operation from
  \<^verbatim>\<open>pending_confirmation\<close> yields exactly the status in its row, and replaying the events of every
  support case yields its stored status and assignee.\<close>

theorem session_audit:
  assumes "lawful D" and "committed (w_db w)" and "s = w_db (exec_session D cs w)"
  shows "(\<forall>r\<in>set (order_operations s).
            replay_operation Pending_confirmation (operation_trail s (op_operation_id r)) = Some (op_status r))
       \<and> (\<forall>c\<in>set (support_cases s).
            replay_case (Open, None) (case_trail s (cs_case_id c)) = Some (case_progress_of c))"
  using committedD(3,4)[OF session_committed[OF assms]]
  by (simp add: operations_audited_def cases_audited_def list_all_iff)

theorem session_audit_witness:
  "map op_status (order_operations (w_db (after [demo_create_review, demo_confirm]))) = [Manual_review]
   \<and> list_all (\<lambda>r. replay_operation Pending_confirmation
          (operation_trail (w_db (after [demo_create_review, demo_confirm])) (op_operation_id r))
        = Some (op_status r)) (order_operations (w_db (after [demo_create_review, demo_confirm])))"
proof
  show "map op_status (order_operations (w_db (after [demo_create_review, demo_confirm]))) = [Manual_review]"
    by code_simp
qed (use session_audit[OF lawful_demo committed_start refl, of "[demo_create_review, demo_confirm]"]
     in \<open>simp add: list_all_iff\<close>)

text \<open>C2: after any session, two stored operations of a tenant that are
  both still active on the same order are the same operation.\<close>

theorem session_one_active_operation:
  assumes "lawful D" and "committed (w_db w)" and "s = w_db (exec_session D cs w)"
    and "a \<in> set (order_operations s)" and "b \<in> set (order_operations s)"
    and "op_tenant_id a = op_tenant_id b" and "op_order_id a = op_order_id b"
    and "op_status a \<in> set active_statuses" and "op_status b \<in> set active_statuses"
  shows "a = b"
proof -
  have "unique_on operation_active (\<lambda>r. (op_tenant_id r, op_order_id r)) (order_operations s)"
    using committedD(1)[OF session_committed[OF assms(1-3)]] by (simp add: db_ok_def operations_ok_def)
  then show ?thesis
    using assms(4-9) by (auto simp: operation_active_def dest: unique_on_eqD[where a = a and b = b])
qed

theorem session_one_active_operation_witness:
  "let s = w_db (after [demo_create, demo_create_again])
   in length (order_operations s) = 1 \<and> hd (order_operations s) = last (order_operations s)"
proof -
  let ?s = "w_db (after [demo_create, demo_create_again])"
  have l: "length (order_operations ?s) = 1" by code_simp
  have "op_status (hd (order_operations ?s)) = Pending_confirmation" by code_simp
  then have "hd (order_operations ?s) = last (order_operations ?s)"
    using l by (intro session_one_active_operation[OF lawful_demo committed_start refl,
        where cs = "[demo_create, demo_create_again]"])
      (auto simp: active_statuses_def length_Suc_conv)
  with l show ?thesis by (simp add: Let_def)
qed

text \<open>C3: nothing a session does removes an operation or rewrites what was
  asked. Every operation stored before is stored afterwards with the same request columns, a
  version at least as great, a status reached along the lifecycle, and unchanged if its status
  was final (completed, rejected or cancelled).\<close>

theorem session_preserves_requests:
  assumes "lawful D" and "committed (w_db w)" and "r \<in> set (order_operations (w_db w))"
  shows "\<exists>r'\<in>set (order_operations (w_db (exec_session D cs w))).
           same_request r r' \<and> op_version r \<le> op_version r' \<and> lifecycle (op_status r) (op_status r')
           \<and> (terminal_status (op_status r) \<longrightarrow> op_status r' = op_status r)"
proof -
  obtain r' where "r' \<in> set (order_operations (w_db (exec_session D cs w)))" "operation_advances r r'"
    using session_evolves[OF assms(1,2) refl, of cs] assms(3) by (blast elim: evolves_operation)
  then show ?thesis
    by (auto simp: operation_advances_def same_request_def intro!: bexI[of _ r'] dest: lifecycle_terminal)
qed

theorem session_preserves_requests_witness:
  "\<exists>r'\<in>set (order_operations (w_db (exec_session demo [demo_confirm] (after [demo_create_review])))).
     same_request (hd (order_operations (w_db (after [demo_create_review])))) r'"
proof -
  have "order_operations (w_db (after [demo_create_review])) \<noteq> []" by code_simp
  then show ?thesis
    using session_preserves_requests[OF lawful_demo committed_after[of "[demo_create_review]"],
        of "hd (order_operations (w_db (after [demo_create_review])))" "[demo_confirm]"]
    by auto
qed

text \<open>C4: the audit tables only grow at their end; no event is ever
  rewritten, removed or inserted in the past.\<close>

theorem session_appends_audit_events:
  assumes "lawful D" and "committed (w_db w)"
  shows "(\<exists>es. order_operation_events (w_db (exec_session D cs w)) = order_operation_events (w_db w) @ es)
       \<and> (\<exists>es. support_case_events (w_db (exec_session D cs w)) = support_case_events (w_db w) @ es)"
  using session_evolves[OF assms refl, of cs] by (simp add: evolves_def grows_iff)

theorem session_appends_audit_events_witness:
  "\<exists>es. order_operation_events (w_db (exec_session demo [demo_confirm] (after [demo_create_review])))
        = order_operation_events (w_db (after [demo_create_review])) @ es"
  using session_appends_audit_events[OF lawful_demo committed_after[of "[demo_create_review]"],
      of "[demo_confirm]"] by (rule conjunct1)

text \<open>C5: a session never leaves two outbox commands for one
  aggregate: commands of the same tenant for the same operation, or for the same case, coincide,
  so the provider is asked at most once per aggregate and tenant.\<close>

theorem session_one_command_per_aggregate:
  assumes "lawful D" and "committed (w_db w)" and "s = w_db (exec_session D cs w)"
    and "a \<in> set (outbox_messages s)" and "b \<in> set (outbox_messages s)"
    and "ob_tenant_id a = ob_tenant_id b" and "ob_aggregate_type a = ob_aggregate_type b"
    and "ob_aggregate_id a = ob_aggregate_id b"
  shows "a = b"
  by (rule one_command_per_aggregate[OF session_committed[OF assms(1-3)] assms(4-8)])

theorem session_one_command_per_aggregate_witness:
  "let s = w_db (after [demo_create, demo_queue, demo_queue])
   in length (outbox_messages s) = 1 \<and> hd (outbox_messages s) = last (outbox_messages s)"
proof -
  let ?s = "w_db (after [demo_create, demo_queue, demo_queue])"
  have l: "length (outbox_messages ?s) = 1" by code_simp
  then have "hd (outbox_messages ?s) = last (outbox_messages ?s)"
    by (intro session_one_command_per_aggregate[OF lawful_demo committed_start refl,
        where cs = "[demo_create, demo_queue, demo_queue]"])
      (auto simp: length_Suc_conv)
  with l show ?thesis by (simp add: Let_def)
qed

text \<open>C6: after any session a tenant has at most one unresolved case per
  thread and type, and at most one unresolved delivery investigation per thread and order.\<close>

theorem session_one_unresolved_case:
  assumes "lawful D" and "committed (w_db w)" and "s = w_db (exec_session D cs w)"
    and "a \<in> set (support_cases s)" and "b \<in> set (support_cases s)"
    and "cs_tenant_id a = cs_tenant_id b" and "cs_thread_id a = cs_thread_id b"
    and "cs_case_type a = cs_case_type b"
    and "cs_case_type a = Delivery_investigation \<longrightarrow> cs_order_id a = cs_order_id b \<and> cs_order_id a \<noteq> None"
    and "cs_status a \<in> set unresolved_statuses" and "cs_status b \<in> set unresolved_statuses"
  shows "a = b"
proof -
  have u: "unique_on thread_type_indexed case_thread_key (support_cases s)"
    "unique_on delivery_order_indexed (\<lambda>r. (case_thread_key r, cs_order_id r)) (support_cases s)"
    using committedD(1)[OF session_committed[OF assms(1-3)]] by (simp_all add: db_ok_def cases_ok_def)
  have active: "case_active a" "case_active b"
    using assms(10,11) by (auto simp: case_active_def unresolved_statuses_def)
  show ?thesis
  proof (cases "cs_case_type a = Delivery_investigation")
    case True
    moreover from this have "cs_order_id a \<noteq> None" "cs_order_id b \<noteq> None" using assms(9) by metis+
    ultimately show ?thesis
      using assms(4-9) active by (intro unique_on_eqD[OF u(2)]) (simp_all add: delivery_order_indexed_def)
  next
    case False
    then show ?thesis
      using assms(4-9) active by (intro unique_on_eqD[OF u(1)]) (simp_all add: thread_type_indexed_def)
  qed
qed

theorem session_one_unresolved_case_witness:
  "let s = w_db (after [demo_record, demo_record_again])
   in length (support_cases s) = 1 \<and> hd (support_cases s) = last (support_cases s)"
proof -
  let ?s = "w_db (after [demo_record, demo_record_again])"
  have l: "length (support_cases ?s) = 1" by code_simp
  have "cs_status (hd (support_cases ?s)) = Open \<and> cs_case_type (hd (support_cases ?s)) = General_support"
    by code_simp
  then have "hd (support_cases ?s) = last (support_cases ?s)"
    using l by (intro session_one_unresolved_case[OF lawful_demo committed_start refl,
        where cs = "[demo_record, demo_record_again]"]) (auto simp: unresolved_statuses_def length_Suc_conv)
  with l show ?thesis by (simp add: Let_def)
qed

text \<open>C7: no session removes a support case, changes where it came from, or
  drops a reason code or a risk category that was recorded for it.\<close>

theorem session_cases_keep_evidence:
  assumes "lawful D" and "committed (w_db w)" and "c \<in> set (support_cases (w_db w))"
  shows "\<exists>c'\<in>set (support_cases (w_db (exec_session D cs w))).
           same_origin c c' \<and> cs_version c \<le> cs_version c'
           \<and> set (cs_reason_codes c) \<subseteq> set (cs_reason_codes c')
           \<and> set (cs_risk_categories c) \<subseteq> set (cs_risk_categories c')"
proof -
  obtain c' where "c' \<in> set (support_cases (w_db (exec_session D cs w)))" "case_advances c c'"
    using session_evolves[OF assms(1,2) refl, of cs] assms(3) by (blast elim: evolves_case)
  then show ?thesis by (auto simp: case_advances_def same_origin_def intro!: bexI[of _ c'])
qed

theorem session_cases_keep_evidence_witness:
  "\<exists>c'\<in>set (support_cases (w_db (exec_session demo [demo_record_again] (after [demo_record])))).
     set (cs_reason_codes (hd (support_cases (w_db (after [demo_record]))))) \<subseteq> set (cs_reason_codes c')"
proof -
  have "support_cases (w_db (after [demo_record])) \<noteq> []" by code_simp
  then show ?thesis
    using session_cases_keep_evidence[OF lawful_demo committed_after[of "[demo_record]"],
        of "hd (support_cases (w_db (after [demo_record])))" "[demo_record_again]"] by auto
qed

text \<open>C8: every row a session leaves in the four aggregate tables is accepted by
  the model class the repositories read it back through, so no stored record can make a later read
  raise a validation error.\<close>

theorem session_rows_readable:
  assumes "lawful D" and "committed (w_db w)" and "s = w_db (exec_session D cs w)"
  shows "(\<forall>r\<in>set (order_operations s). \<exists>x. mk_order_operation r = Inr x)
       \<and> (\<forall>e\<in>set (order_operation_events s). \<exists>x. mk_order_operation_event e = Inr x)
       \<and> (\<forall>c\<in>set (support_cases s). \<exists>x. mk_support_case c = Inr x)
       \<and> (\<forall>e\<in>set (support_case_events s). \<exists>x. mk_support_case_event e = Inr x)"
  using committedD(2)[OF session_committed[OF assms]]
  by (auto simp: readable_def list_all_iff operation_readable_def operation_event_readable_def
      case_readable_def case_event_readable_def mk_order_operation_Inr mk_order_operation_event_Inr
      mk_support_case_Inr mk_support_case_event_Inr)

theorem session_rows_readable_witness:
  "\<exists>x. mk_order_operation (hd (order_operations (w_db (after [demo_create])))) = Inr x"
proof -
  have "order_operations (w_db (after [demo_create])) \<noteq> []" by code_simp
  then show ?thesis
    using session_rows_readable[OF lawful_demo committed_start refl, of "[demo_create]"] by simp
qed

section \<open>Optimistic locking\<close>

text \<open>C9: once a writer that read an operation at version \<open>n\<close> has committed,
  every other writer that read it at version \<open>n\<close> is refused with
  \<^verbatim>\<open>ConcurrentOperationUpdateError\<close>, by an update and by a queueing alike, whatever lawful
  sessions committed in between.\<close>

theorem operation_no_lost_update:
  assumes "committed s" and "update_operation_tx v x es n s = Inr t" and "n < op_version x"
    and "evolves t u" and "committed u" and "op_operation_id y = op_operation_id x"
  shows "update_operation_tx v' y es' n u = Inl ConcurrentOperationUpdateError
       \<and> queue_operation_tx v' y es' c n u = Inl ConcurrentOperationUpdateError"
proof -
  have "update_operation_tx v' y es' n u = Inl ConcurrentOperationUpdateError"
    using operation_store.no_lost_update[of s "(v, es)" x n t u y "(v', es')"]
      evolves_operation_versions[OF assms(4)] assms by simp
  then show ?thesis by (simp add: queue_operation_tx_def)
qed

theorem operation_no_lost_update_witness:
  "let s = w_db (after [demo_create_review]); t = w_db (after [demo_create_review, demo_confirm]);
       x = hd (order_operations t); es = tl (order_operation_events t); v = Tenant_customer ''acme'' ''alice''
   in update_operation_tx v x es 1 s = Inr t
      \<and> update_operation_tx v x es 1 t = Inl ConcurrentOperationUpdateError"
proof -
  let ?s = "w_db (after [demo_create_review])" and ?t = "w_db (after [demo_create_review, demo_confirm])"
  let ?x = "hd (order_operations ?t)" and ?es = "tl (order_operation_events ?t)"
  let ?v = "Tenant_customer ''acme'' ''alice''"
  have "let s = ?s; t = ?t; x = hd (order_operations t); es = tl (order_operation_events t)
        in update_operation_tx ?v x es 1 s = Inr t \<and> 1 < op_version x" by code_simp
  then have w: "update_operation_tx ?v ?x ?es 1 ?s = Inr ?t" and n: "1 < op_version ?x"
    by (simp_all add: Let_def)
  from operation_no_lost_update[OF committed_after w n evolves_refl committed_after refl, of ?v ?es]
  show ?thesis by (simp add: Let_def w)
qed

text \<open>C10: the same promise of the case repository: of the writers that read a case
  at one version, at most one commits; the others get \<^verbatim>\<open>ConcurrentCaseUpdateError\<close>.\<close>

theorem case_no_lost_update:
  assumes "committed s" and "update_case_tx v x e n s = Inr t" and "n < cs_version x"
    and "evolves t u" and "committed u" and "cs_case_id y = cs_case_id x"
  shows "update_case_tx v' y e' n u = Inl ConcurrentCaseUpdateError
       \<and> append_ensure_tx v' y e' c n u = Inl ConcurrentCaseUpdateError"
proof -
  have "update_case_tx v' y e' n u = Inl ConcurrentCaseUpdateError"
    using case_store.no_lost_update[of s "(v, e)" x n t u y "(v', e')"]
      evolves_case_versions[OF assms(4)] assms by simp
  then show ?thesis by (simp add: append_ensure_tx_def)
qed

theorem case_no_lost_update_witness:
  "let s = w_db (after [demo_record]); t = w_db (after [demo_record, demo_record_again]);
       x = hd (support_cases t); e = last (support_case_events t); v = Tenant_customer ''acme'' ''alice''
   in update_case_tx v x e 1 s = Inr t \<and> update_case_tx v x e 1 t = Inl ConcurrentCaseUpdateError"
proof -
  let ?s = "w_db (after [demo_record])" and ?t = "w_db (after [demo_record, demo_record_again])"
  let ?x = "hd (support_cases ?t)" and ?e = "last (support_case_events ?t)"
  let ?v = "Tenant_customer ''acme'' ''alice''"
  have "let s = ?s; t = ?t; x = hd (support_cases t); e = last (support_case_events t)
        in update_case_tx ?v x e 1 s = Inr t \<and> 1 < cs_version x" by code_simp
  then have w: "update_case_tx ?v ?x ?e 1 ?s = Inr ?t" and n: "1 < cs_version ?x" by (simp_all add: Let_def)
  from case_no_lost_update[OF committed_after w n evolves_refl committed_after refl, of ?v ?e]
  show ?thesis by (simp add: Let_def w)
qed

section \<open>Isolation of tenants and customers\<close>

text \<open>C11: whatever a caller asks of the services, the operations, operation
  events, cases, case events and outbox commands of other tenants, and the operations and operation
  events of other customers of the same tenant, are exactly what they were before the call. The
  surroundings are assumed to leave those rows alone themselves, so that only the call could have
  changed them.\<close>

theorem calls_spare_foreign_rows:
  assumes "surroundings_confined (caller c) D"
  shows "spares (caller c) (w_db w) (w_db (snd (exec_call D c w)))"
  by (rule exec_call_spares[OF assms])

theorem calls_spare_foreign_rows_witness:
  "spares bob (w_db (after [demo_create])) (w_db (snd (exec_call demo (Cancel_operation bob 1 ''r9'') (after [demo_create]))))"
  using calls_spare_foreign_rows[of "Cancel_operation bob 1 ''r9''" demo] surroundings_demo by simp

text \<open>C12: a customer reads only operations of their own tenant and under their own
  customer id; callers who are not customers get no operation at all.\<close>

theorem reads_are_scoped:
  assumes "get_operation E scope u w = (Inr x, w')"
  shows "sc_role scope = Customer \<and> op_tenant_id x = trim (sc_tenant_id scope)
         \<and> op_customer_id x = trim (sc_user_id scope) \<and> op_operation_id x = u"
proof -
  note unfold = get_operation_def repo_get_operation_def fetch_operation_def bnd_def lift_def ret_def
    throw_def db_call_def Let_def
  obtain v where v: "customer_owned_visibility scope = Inr v"
    using assms by (auto simp: unfold split: sum.splits)
  have "\<exists>r. find (\<lambda>r. op_operation_id r = u \<and> operation_visible v r)
        (order_operations (en_interfere E (w_calls w) (w_db w))) = Some r \<and> mk_order_operation r = Inr x"
    using assms v by (auto simp: unfold split: sum.splits option.splits fault.splits)
  with v show ?thesis
    by (auto simp: customer_owned_visibility_Inr operation_visible_def mk_order_operation_Inr dest!: find_SomeD)
qed

theorem reads_are_scoped_witness:
  "op_customer_id (the (projr (fst (repo_get_operation demo_env alice 1 (after [demo_create]))))) = ''alice''"
proof -
  have "let w = after [demo_create]
        in fst (get_operation demo_env alice 1 w) = fst (Inr (the (projr (fst (repo_get_operation demo_env alice 1 w)))), w)"
    by code_simp
  then have "get_operation demo_env alice 1 (after [demo_create])
      = (Inr (the (projr (fst (repo_get_operation demo_env alice 1 (after [demo_create]))))),
         snd (get_operation demo_env alice 1 (after [demo_create])))"
    by (simp add: Let_def prod_eq_iff)
  moreover have "trim (sc_user_id alice) = ''alice''" by code_simp
  ultimately show ?thesis using reads_are_scoped by metis
qed

section \<open>Identity and authorization\<close>

text \<open>C13: encoding and decoding the composite identity key are inverse to each
  other: a key decodes to a tenant and a user exactly when that pair encodes to the key.\<close>

theorem identity_key_roundtrip:
  "encode_identity_key tenant user = Inr key \<longleftrightarrow> decode_identity_key key = Inr (tenant, user)"
  by (simp add: encode_identity_key_eq decode_identity_key_eq)

text \<open>C14: the payload the authentication handler hands to the graph
  server is read back to the same identity, for every identity the system issues (permissions
  exactly those of the role).\<close>

theorem authenticated_payload_roundtrip:
  assumes "canonical_identity i"
  shows "\<exists>p. auth_user_payload i = Inr p \<and> identity_from_user_payload (Some p) = Inr i"
  by (rule payload_roundtrip[OF assms])

theorem authenticated_payload_roundtrip_witness:
  "\<exists>p. auth_user_payload demo_identity = Inr p \<and> identity_from_user_payload (Some p) = Inr demo_identity"
proof (rule authenticated_payload_roundtrip)
  show "canonical_identity demo_identity" by code_simp
qed

text \<open>C15: no payload and no verified token yields an identity whose
  permissions differ from those of its role, whose parts are blank or contain the separator, or
  whose tenant is the reserved one: privileges come from the role alone.\<close>

theorem identities_are_canonical:
  "(identity_from_user_payload p = Inr i \<longrightarrow> canonical_identity i)
   \<and> (identity_from_verified_claims claims mapping = Inr i \<longrightarrow> canonical_identity i)"
  using identity_from_user_payload_canonical identity_from_verified_claims_canonical by blast

theorem identities_are_canonical_witness:
  "canonical_identity demo_identity
   \<and> identity_from_verified_claims demo_claims demo_mapping = Inr demo_identity"
proof -
  have c: "identity_from_verified_claims demo_claims demo_mapping = Inr demo_identity" by code_simp
  with identities_are_canonical show ?thesis by blast
qed

text \<open>C16: which support cases a caller can see: never another tenant's; a
  supervisor every case of the tenant, a support agent exactly those assigned to them, a customer
  exactly their own.\<close>

theorem case_visibility_matrix:
  assumes "sc_permissions scope = role_permissions (sc_role scope)"
  shows "\<exists>v. case_visibility scope = Inr v \<and>
     (\<forall>c. case_visible v c \<longleftrightarrow> cs_tenant_id c = sc_tenant_id scope \<and>
        (case sc_role scope of
           Supervisor \<Rightarrow> True
         | Support_agent \<Rightarrow> cs_assigned_agent_id c = Some (sc_user_id scope)
         | Customer \<Rightarrow> cs_customer_id c = sc_user_id scope))"
  using assms
  by (cases "sc_role scope") (simp_all add: case_visibility_def sc_customer_id_def case_visible_def)

theorem case_visibility_matrix_witness:
  "\<exists>v. case_visibility alice = Inr v \<and>
     (\<forall>c. case_visible v c \<longleftrightarrow> cs_tenant_id c = ''acme'' \<and> cs_customer_id c = ''alice'')"
  using case_visibility_matrix[of alice] by (simp add: alice_def)

section \<open>Policies\<close>

text \<open>C17: for every request on the order it names, the operation policy
  returns a well-formed decision, and the decision is \<^verbatim>\<open>eligible\<close> exactly when the order meets
  the written conditions (no contradictory lifecycle, no other operation in progress, and the
  cancellation, seven-day return window or exchange conditions), however the code orders its checks.\<close>

theorem evaluate_operation_decides:
  assumes "rq_order_id rq = os_order_id s"
  shows "\<exists>d. evaluate_operation rq s (Aware t) th ra = Inr d \<and> valid_operation_decision d
     \<and> (od_outcome d = Eligible \<longleftrightarrow> eligibility_spec (rq_operation_type rq) s t th ra)"
  using evaluate_operation_total[OF assms, of t th ra] evaluate_operation_valid evaluate_operation_outcome
  by metis

theorem evaluate_operation_decides_witness:
  "eligibility_spec Cancellation demo_order 5 [] None
   \<and> (\<exists>d. evaluate_operation demo_request demo_order (Aware 5) [] None = Inr d \<and> od_outcome d = Eligible)"
proof -
  have e: "eligibility_spec Cancellation demo_order 5 [] None"
    by (simp add: eligibility_spec_def demo_order_def has_contradictory_lifecycle_def cancellation_spec_def)
  have "rq_order_id demo_request = os_order_id demo_order" by code_simp
  from evaluate_operation_decides[OF this, of 5 "[]" None] e
  show ?thesis by (auto simp: demo_request_def)
qed

text \<open>C18: for every delivery report on the order it names, the delivery
  policy returns a well-formed decision and opens an investigation exactly under the written
  conditions.\<close>

theorem evaluate_delivery_decides:
  assumes "dr_order_id rq = os_order_id s"
  shows "\<exists>d. evaluate_delivery_issue rq s (Aware t) = Inr d \<and> valid_delivery_decision d
     \<and> (dd_outcome d = Delivery_manual_review \<longleftrightarrow> investigation_spec rq s t)"
  by (rule evaluate_delivery_issue_cases[OF assms])

theorem evaluate_delivery_decides_witness:
  "\<exists>d. evaluate_delivery_issue demo_report demo_order (Aware 5) = Inr d \<and> dd_outcome d = Delivery_manual_review"
proof -
  have "investigation_spec demo_report demo_order 5"
    by (simp add: investigation_spec_def demo_report_def demo_order_def)
  moreover have "dr_order_id demo_report = os_order_id demo_order" by code_simp
  ultimately show ?thesis using evaluate_delivery_decides[of demo_report demo_order 5] by auto
qed


text \<open>C20: merging another trigger into an unresolved case keeps its status,
  assignee and origin, never lowers its priority or its risk level, keeps every reason and risk
  category of both, and raises the version by one.\<close>

theorem merging_never_downgrades:
  "let m = merged_case c trigger decision p now in
     priority_rank (cs_priority m) = min (priority_rank (cs_priority c)) (priority_rank p)
     \<and> (\<forall>l. cs_risk_level c = Some l \<or> tr_risk_level trigger = Some l \<longrightarrow>
          (\<exists>l'. cs_risk_level m = Some l' \<and> risk_level_rank l \<le> risk_level_rank l'))
     \<and> set (cs_reason_codes m) = set (cs_reason_codes c) \<union> set (hd_reason_codes decision)
     \<and> set (cs_risk_categories m) = set (cs_risk_categories c) \<union> set (tr_risk_categories trigger)
     \<and> distinct (cs_reason_codes m) \<and> distinct (cs_risk_categories m)
     \<and> cs_status m = cs_status c \<and> cs_assigned_agent_id m = cs_assigned_agent_id c
     \<and> same_origin c m \<and> cs_version m = cs_version c + 1"
  by (cases "cs_risk_level c"; cases "tr_risk_level trigger")
     (auto simp: Let_def merged_case_def merge_unique_def select_higher_priority_rank same_origin_def)

theorem merging_never_downgrades_witness:
  "let c = hd (support_cases (w_db (after [demo_record])));
       m = merged_case c demo_trigger (demo_handoff\<lparr>hd_reason_codes := [Refund_manual_review]\<rparr>) P1 9
   in Refund_manual_review \<in> set (cs_reason_codes m) \<and> priority_rank (cs_priority m) \<le> 1"
  using merging_never_downgrades[of "hd (support_cases (w_db (after [demo_record])))" demo_trigger
      "demo_handoff\<lparr>hd_reason_codes := [Refund_manual_review]\<rparr>" P1 9]
  by (simp add: Let_def)

text \<open>C21: the idempotency keys of provider commands identify their aggregate:
  different operations, different cases, and an operation and a case never share a key.\<close>

theorem command_keys_identify:
  "(operation_command_key a = operation_command_key b \<longleftrightarrow> a = b)
   \<and> (delivery_command_key a = delivery_command_key b \<longleftrightarrow> a = b)
   \<and> operation_command_key a \<noteq> delivery_command_key b"
  by (simp add: command_key_inj)

section \<open>What a caller may conclude from an answer\<close>

text \<open>C22: when nobody else writes and no round trip is lost, a call that
  raises has left every table exactly as it was: there is no partial operation, event, case or
  command after an error.\<close>

theorem failed_calls_change_nothing:
  assumes "quiet (dp_env D)" and "off_tables D" and "exec_call D c w = (Inl e, w')"
  shows "w_db w' = w_db w"
  using reports_exec_call[OF assms(1,2)] assms(3) by (rule reportsD(1))

theorem failed_calls_change_nothing_witness:
  "let w = after [demo_create] in
   fst (exec_call demo (Cancel_operation bob 1 ''r9'') w) = Inl OperationNotFoundError
   \<and> w_db (snd (exec_call demo (Cancel_operation bob 1 ''r9'') w)) = w_db w"
proof -
  have f: "fst (exec_call demo (Cancel_operation bob 1 ''r9'') (after [demo_create])) = Inl OperationNotFoundError"
    by code_simp
  from failed_calls_change_nothing[OF _ off_tables_demo prod_eqI[OF f[THEN trans], of "(Inl OperationNotFoundError,
      snd (exec_call demo (Cancel_operation bob 1 ''r9'') (after [demo_create])))"]]
  show ?thesis using f quiet_demo by (simp add: Let_def demo_def)
qed

text \<open>C23: in the same circumstances an answer that says nothing changed
  (\<^verbatim>\<open>status_unchanged\<close>, \<^verbatim>\<open>duplicate_ignored\<close>) is true: the tables are untouched.\<close>

theorem unchanged_answers_are_true:
  assumes "quiet E" and "sr_action x \<in> {Act_status_unchanged, Act_duplicate_ignored}"
    and "create_pending_operation E n sc rq os od ex w = (Inr x, w')
       \<or> confirm_operation E n sc u req w = (Inr x, w')
       \<or> cancel_pending_operation E n sc u req w = (Inr x, w')
       \<or> queue_confirmed_operation E sc u req conn w = (Inr x, w')
       \<or> update_operation_status E n sc u st req actor ref w = (Inr x, w')
       \<or> attach_support_case E n sc u c req w = (Inr x, w')"
  shows "w_db w' = w_db w"
proof -
  have "\<not> operation_changed x" using assms(2) by (simp add: operation_changed_def)
  with assms(3) show ?thesis
    by (elim disjE; elim reports_same[OF _ reports_operation_service(1)[OF assms(1)]]
        reports_same[OF _ reports_operation_service(2)[OF assms(1)]]
        reports_same[OF _ reports_operation_service(3)[OF assms(1)]]
        reports_same[OF _ reports_operation_service(4)[OF assms(1)]]
        reports_same[OF _ reports_operation_service(5)[OF assms(1)]]
        reports_same[OF _ reports_operation_service(6)[OF assms(1)]])
qed

theorem unchanged_answers_are_true_witness:
  "let w = after [demo_create, demo_queue]; r = queue_confirmed_operation demo_env alice 1 ''r2'' ''conn-1'' w
   in sr_action (projr (fst r)) = Act_status_unchanged \<and> w_db (snd r) = w_db w"
proof -
  let ?w = "after [demo_create, demo_queue]"
  let ?r = "queue_confirmed_operation demo_env alice 1 ''r2'' ''conn-1'' ?w"
  have "let f = fst (queue_confirmed_operation demo_env alice 1 ''r2'' ''conn-1'' ?w)
        in isl f = False \<and> sr_action (projr f) = Act_status_unchanged" by code_simp
  then have r: "?r = (Inr (projr (fst ?r)), snd ?r)" and a: "sr_action (projr (fst ?r)) = Act_status_unchanged"
    by (auto simp: Let_def prod_eq_iff)
  have "w_db (snd ?r) = w_db ?w"
    by (rule unchanged_answers_are_true[OF quiet_demo]) (use r a in auto)
  with a show ?thesis by (simp add: Let_def)
qed



text \<open>C25: in a quiet environment a customer's cancellation of their
  own pending operation succeeds at the first attempt: the answer is \<^verbatim>\<open>cancelled\<close>, exactly that row
  moves to \<^verbatim>\<open>cancelled_by_customer\<close> with its version raised by one, and one event is appended.\<close>

theorem pending_operation_can_be_cancelled:
  assumes "quiet E" and "committed (w_db w)" and "customer_scope sc" and "strip req \<noteq> []"
    and "r \<in> set (order_operations (w_db w))" and "op_operation_id r = u" and "own_row sc r"
    and "op_status r = Pending_confirmation"
    and "operation_request_key u ''cancelled'' (strip req)
          \<notin> oe_idempotency_key ` set (order_operation_events (w_db w))"
    and "en_uuid E (w_ids w) \<notin> oe_event_id ` set (order_operation_events (w_db w))"
    and "op_created_at r \<le> en_clock E (w_ticks w)" and "op_version r < 2 ^ 31 - 1"
  shows "\<exists>x w'. cancel_pending_operation E (Suc n) sc u req w = (Inr x, w') \<and> sr_action x = Act_cancelled
     \<and> order_operations (w_db w') = update_rows (\<lambda>q. q = r)
          (set_operation_columns (moved_operation (trim_order_operation r) Cancelled_by_customer
             (en_clock E (w_ticks w)))) (order_operations (w_db w))
     \<and> length (order_operation_events (w_db w')) = Suc (length (order_operation_events (w_db w)))"
  by (rule cancel_succeeds[OF assms])

theorem pending_operation_can_be_cancelled_witness:
  "\<exists>x w'. cancel_pending_operation demo_env 3 alice 1 ''r1'' (after [demo_create]) = (Inr x, w')
     \<and> sr_action x = Act_cancelled"
proof -
  let ?w = "after [demo_create]" and ?r = "hd (order_operations (w_db (after [demo_create])))"
  have "let s = w_db ?w; r = hd (order_operations s)
      in order_operations s \<noteq> [] \<and> op_operation_id r = 1 \<and> own_row alice r \<and> op_status r = Pending_confirmation
       \<and> list_all (\<lambda>e. oe_idempotency_key e \<noteq> operation_request_key 1 ''cancelled'' (strip ''r1'')) (order_operation_events s)
       \<and> list_all (\<lambda>e. oe_event_id e \<noteq> en_uuid demo_env (w_ids ?w)) (order_operation_events s)
       \<and> op_created_at r \<le> en_clock demo_env (w_ticks ?w) \<and> op_version r < 2 ^ 31 - 1"
    by code_simp
  then have f: "?r \<in> set (order_operations (w_db ?w))" "op_operation_id ?r = 1" "own_row alice ?r"
      "op_status ?r = Pending_confirmation"
      "operation_request_key 1 ''cancelled'' (strip ''r1'') \<notin> oe_idempotency_key ` set (order_operation_events (w_db ?w))"
      "en_uuid demo_env (w_ids ?w) \<notin> oe_event_id ` set (order_operation_events (w_db ?w))"
      "op_created_at ?r \<le> en_clock demo_env (w_ticks ?w)" "op_version ?r < 2 ^ 31 - 1"
    by (auto simp: Let_def list_all_iff)
  have "customer_scope alice" "strip ''r1'' \<noteq> []" by code_simp+
  from pending_operation_can_be_cancelled[OF quiet_demo committed_after this f, of 2]
  show ?thesis by (auto simp: numeral_3_eq_3 numeral_2_eq_2)
qed

section \<open>Bounds and errors of the retry loops\<close>

text \<open>C26: with \<open>n\<close> attempts configured, every call returns or raises after a
  bounded number of database round trips (at most \<open>4 n + 3\<close>), in every environment, however often its
  writes are refused; so no call can loop.\<close>

theorem call_round_trips_bounded:
  assumes "off_database D"
  shows "w_calls (snd (exec_call D c w)) \<le> w_calls w + round_trip_bound (dp_attempts D) c"
  using exec_call_round_trips[OF assms] by (simp add: trips_le_def)

theorem call_round_trips_bounded_witness:
  "w_calls (snd (exec_call demo demo_create (start_world empty_db))) \<le> 11"
  using call_round_trips_bounded[OF off_database_demo, of demo_create "start_world empty_db"]
  by (simp add: start_world_def demo_def)

text \<open>C27: losing a race never surfaces as a uniqueness error: creating an
  operation never raises the active-order, duplicate-key or duplicate-message error, and recording a
  handoff or an investigation never raises the active-case or duplicate errors, in any environment.\<close>

theorem creation_conflicts_stay_inside:
  "avoids {ActiveOrderOperationConflictError, DuplicateOperationIdempotencyError,
       DuplicateOperationSourceMessageError} (create_pending_operation E n sc rq os od ex)
   \<and> avoids {ActiveCaseConflictError, DuplicateIdempotencyKeyError, DuplicateSourceMessageError}
       (record_handoff E n sc tr d)
   \<and> avoids {ActiveCaseConflictError, DuplicateIdempotencyKeyError, DuplicateSourceMessageError}
       (record_delivery_investigation E n sc tr d ty conn)"
  using create_conflicts_absorbed handoff_conflicts_absorbed
  by (simp add: creation_conflicts_def handoff_conflicts_def)


section \<open>Retries and callbacks\<close>



text \<open>C30: a provider callback changes an operation exactly when the references
  agree, the operation is with the provider and the reported status is one of the next ones of the
  lifecycle, and it then moves it there; in particular a final operation is never changed.\<close>

theorem callbacks_follow_lifecycle:
  defines "d st p cur inc \<equiv> decide_order_operation_callback st p cur inc"
  shows "(ix_action (d st p cur inc) = Apply
          \<longleftrightarrow> provider_reference_is_compatible cur inc \<and> st \<in> {Submitted, Processing}
            \<and> inbox_target p \<in> allowed_status_transitions st)
     \<and> (ix_action (d st p cur inc) = Apply \<longrightarrow> ix_target_status (d st p cur inc) = Some (inbox_target p))
     \<and> (terminal_status st \<longrightarrow> ix_action (d st p cur inc) \<noteq> Apply)"
  unfolding d_def
  using callback_applies_iff callback_apply_target callback_terminal_never_applies
  by (simp add: inbox_target_is_mapping)

theorem callbacks_follow_lifecycle_witness:
  "ix_target_status (decide_order_operation_callback Submitted Exec_completed None (Some ''ref'')) = Some Completed"
proof -
  have "ix_action (decide_order_operation_callback Submitted Exec_completed None (Some ''ref'')) = Apply"
    by code_simp
  then show ?thesis using callbacks_follow_lifecycle[of Submitted Exec_completed None "Some ''ref''"] by simp
qed

text \<open>C31: callbacks may be repeated, delayed and reordered: as long as the
  provider never rejects, the status a submitted operation ends in depends only on which statuses were
  reported, and it is reached along the lifecycle.\<close>

theorem delivery_order_irrelevant:
  assumes "set ps = set qs" and "Exec_rejected \<notin> set ps"
  shows "after_callbacks Submitted ps = after_callbacks Submitted qs
     \<and> lifecycle Submitted (after_callbacks Submitted ps)"
  using assms callbacks_order_irrelevant after_callbacks_lifecycle by blast

theorem delivery_order_irrelevant_witness:
  "after_callbacks Submitted [Exec_completed, Exec_processing, Exec_processing]
   = after_callbacks Submitted [Exec_processing, Exec_completed]"
  using delivery_order_irrelevant[of "[Exec_completed, Exec_processing, Exec_processing]"
      "[Exec_processing, Exec_completed]"] by auto

section \<open>Delivery of commands\<close>

text \<open>C32: however long a dispatch worker runs, with whatever provider and whatever
  other lawful sessions commit in between, the tables stay consistent: the aggregates keep their audit
  trails and constraints, a command is being processed exactly while it has an open attempt that
  carries its lease, and no command has two open attempts.\<close>

theorem worker_keeps_leases:
  assumes "messaging.lawful E" and "messaging_ok (mw_db w)"
    and "t = mw_db (snd (run_rounds E W tick recovery k next_recovery n w))"
  shows "committed (core t)
    \<and> (\<forall>m\<in>set (outbox t). ob_status m = Out_processing
        \<longleftrightarrow> (\<exists>a\<in>set (outbox_delivery_attempts t). attempt_open a \<and> lease_matches m a))
    \<and> (\<forall>a\<in>set (outbox_delivery_attempts t). \<forall>b\<in>set (outbox_delivery_attempts t).
        attempt_open a \<and> attempt_open b \<and> at_command_id a = at_command_id b \<longrightarrow> a = b)"
proof -
  have ok: "messaging_ok t" by (rule worker_contract(1)[OF assms])
  have "ob_status m = Out_processing"
    if m: "m \<in> set (outbox t)" and a: "a \<in> set (outbox_delivery_attempts t)" "attempt_open a" "lease_matches m a" for m a
  proof -
    obtain q where "q \<in> set (outbox t)" "ob_status q = Out_processing" "lease_matches q a"
      by (rule open_attempt_message[OF ok a(1,2)])
    then show ?thesis using message_unique[OF ok m] a(3) by (auto simp: lease_matches_def)
  qed
  then show ?thesis
    using messaging_okD(1)[OF ok] processing_message_attempt[OF ok] one_open_attempt[OF ok] by blast
qed

theorem worker_keeps_leases_witness:
  "let t = mw_db (snd (run_rounds demo_menv unreachable (\<lambda>_. 0) 30 0 0 1 start))
   in map ob_status (outbox t) = [Out_retry_scheduled] \<and> committed (core t)"
  using worker_keeps_leases[OF messaging_lawful_demo messaging_ok_start refl,
      where W = unreachable and tick = "\<lambda>_. 0" and recovery = 30 and k = 0 and next_recovery = 0 and n = 1]
  unfolding Let_def by (intro conjI) (code_simp, blast)

text \<open>C33: seen through its cycle, its status and the attempts spent, a command in
  the outbox only ever takes steps of the abstract delivery machine, whatever workers and recoveries
  run: taken for an attempt while fewer than eight are spent, then published, rescheduled or dead, and
  opened again only by a redrive.\<close>

theorem delivery_refines_machine:
  assumes "messaging.lawful E" and "messaging_ok (mw_db w)"
    and "t = mw_db (snd (run_rounds E W tick recovery k next_recovery n w))" and "m \<in> set (outbox (mw_db w))"
  shows "\<exists>m'\<in>set (outbox t). same_command m m' \<and> delivery_step\<^sup>*\<^sup>* (delivery_of m) (delivery_of m')
    \<and> (ob_status m = Out_published \<longrightarrow> m' = m)"
proof -
  obtain m' where "m' \<in> set (outbox t)" "message_advances m m'"
    using worker_contract(2)[OF assms(1-3)] assms(4) unfolding messaging_evolves_def rows_evolve_def by blast
  then show ?thesis
    by (intro bexI[of _ m']) (auto simp: message_advances_def same_command_def)
qed

theorem delivery_refines_machine_witness:
  "delivery_step\<^sup>*\<^sup>* (1, Out_pending, 0) (1, Out_retry_scheduled, 1)"
proof -
  let ?t = "mw_db (snd (run_rounds demo_menv unreachable (\<lambda>_. 0) 30 0 0 1 start))"
  have a: "map delivery_of (outbox (mw_db start)) = [(1, Out_pending, 0)]" by code_simp
  have b: "map delivery_of (outbox ?t) = [(1, Out_retry_scheduled, 1)]" by code_simp
  obtain m where m: "outbox (mw_db start) = [m]" "delivery_of m = (1, Out_pending, 0)" using a by auto
  obtain q where q: "outbox ?t = [q]" "delivery_of q = (1, Out_retry_scheduled, 1)" using b by auto
  have "\<exists>m'\<in>set (outbox ?t). same_command m m' \<and> delivery_step\<^sup>*\<^sup>* (delivery_of m) (delivery_of m')
    \<and> (ob_status m = Out_published \<longrightarrow> m' = m)"
    by (rule delivery_refines_machine[OF messaging_lawful_demo messaging_ok_start refl]) (simp add: m(1))
  then show ?thesis using m(2) q by simp
qed

text \<open>C34: a command that stays in its delivery cycle settles. However often workers run,
  in whatever environments, from some run on its status and its number of attempts do not change.\<close>

theorem deliveries_settle:
  fixes w :: "nat \<Rightarrow> mworld" and m :: "nat \<Rightarrow> outbox_message"
  assumes "messaging_ok (mw_db (w 0))" and env: "\<And>i. messaging.lawful (E i)"
    and run: "\<And>i. w (Suc i) = snd (run_once (E i) (W i) (w i))"
    and m: "\<And>i. m i \<in> set (outbox (mw_db (w i)))" "\<And>i. ob_command_id (m i) = u" "\<And>i. ob_delivery_cycle (m i) = c"
  shows "\<exists>N. \<forall>i\<ge>N. ob_status (m i) = ob_status (m N) \<and> ob_attempts_in_cycle (m i) = ob_attempts_in_cycle (m N)"
proof -
  have step: "messaging_ok (mw_db (w i)) \<Longrightarrow> messaging_ok (mw_db (w (Suc i))) \<and> messaging_evolves (mw_db (w i)) (mw_db (w (Suc i)))" for i
    using keeps_run_once[OF env, of i "W i"] unfolding messaging.keeps_def run by blast
  have ok: "messaging_ok (mw_db (w i))" for i
    using assms(1) step by (induction i) auto
  obtain N where "\<forall>i\<ge>N. delivery_of (m i) = delivery_of (m N)"
    using delivery_settles[of "\<lambda>i. mw_db (w i)", OF ok _ m] step[OF ok] by blast
  then show ?thesis by (auto simp: delivery_of_def)
qed

theorem deliveries_settle_witness:
  "let w = (\<lambda>i. ((\<lambda>w. snd (run_once early_menv accepting w)) ^^ i) start)
   in \<exists>N. \<forall>i. ob_status (hd (outbox (mw_db (w (N + i))))) = ob_status (hd (outbox (mw_db (w N))))"
proof -
  define w where "w = (\<lambda>i. ((\<lambda>w. snd (run_once early_menv accepting w)) ^^ i) start)"
  have run: "w (Suc i) = snd (run_once early_menv accepting (w i))" for i by (simp add: w_def)
  have db: "mw_db (w i) = demo_idb" for i
  proof (induction i)
    case (Suc i)
    then show ?case unfolding run by (rule idle_run)
  qed (simp add: w_def start_mworld_def)
  have "outbox demo_idb \<noteq> []" by code_simp
  then have "\<exists>N. \<forall>i\<ge>N. ob_status (hd (outbox (mw_db (w i)))) = ob_status (hd (outbox (mw_db (w N))))
      \<and> ob_attempts_in_cycle (hd (outbox (mw_db (w i)))) = ob_attempts_in_cycle (hd (outbox (mw_db (w N))))"
    by (intro deliveries_settle[of w "\<lambda>_. early_menv" "\<lambda>_. accepting" "\<lambda>i. hd (outbox (mw_db (w i)))"])
       (simp_all add: db messaging_ok_demo messaging_lawful_early run)
  then show ?thesis unfolding w_def[symmetric] Let_def by (metis le_add1)
qed

text \<open>C35: whatever workers do, a command is attempted at most eight times in one
  delivery cycle.\<close>

theorem attempts_are_bounded:
  assumes "messaging.lawful E" and "messaging_ok (mw_db w)"
    and "t = mw_db (snd (run_rounds E W tick recovery k next_recovery n w))"
  shows "length (filter (\<lambda>a. at_command_id a = u \<and> at_delivery_cycle a = c) (outbox_delivery_attempts t)) \<le> 8"
  by (rule attempts_bounded[OF worker_contract(1)[OF assms]])

theorem attempts_are_bounded_witness:
  "let t = mw_db (snd (run_rounds demo_menv unreachable (\<lambda>_. 0) 30 0 0 1 start))
   in length (outbox_delivery_attempts t) = 1
     \<and> length (filter (\<lambda>a. at_command_id a = 4 \<and> at_delivery_cycle a = 1) (outbox_delivery_attempts t)) \<le> 8"
  using attempts_are_bounded[OF messaging_lawful_demo messaging_ok_start refl,
      where W = unreachable and tick = "\<lambda>_. 0" and recovery = 30 and k = 0 and next_recovery = 0 and n = 1]
  unfolding Let_def by (intro conjI) (code_simp, blast)



text \<open>C37: once an attempt has ended, whoever still holds it is fenced off. In
  every later state its worker's finalization, accepted, rejected or failed, raises the lease conflict
  and leaves all tables as they were.\<close>

theorem stale_worker_writes_nothing:
  assumes "mquiet E" and "ob_lease_id (cl_message c) = Some l" and "ob_lease_owner (cl_message c) = Some owner"
    and "messaging_ok (mw_db w)" and "messaging_evolves s (mw_db w)"
    and "a \<in> set (outbox_delivery_attempts s)" and "at_attempt_id a = at_attempt_id (cl_attempt c)"
    and "\<not> attempt_open a"
  shows "fst (finalize E c target res failure_kind code message w) = Inl LeaseConflictError
    \<and> mw_db (snd (finalize E c target res failure_kind code message w)) = mw_db w"
  using stale_worker_fenced[OF assms] by blast

theorem stale_worker_writes_nothing_witness:
  "let w = snd (finalizer_terminal_failure demo_menv demo_claimed Timeout None None claimed_world)
   in fst (finalize demo_menv demo_claimed Out_published (Some (demo_result undefined)) None None None w)
      = Inl LeaseConflictError"
proof -
  let ?w = "snd (finalizer_terminal_failure demo_menv demo_claimed Timeout None None claimed_world)"
  have ok: "messaging_ok (mw_db ?w)"
    using keeps_finalizer(3)[OF messaging_lawful_demo] messaging_ok_claimed unfolding messaging.keeps_def by blast
  have "list_ex (\<lambda>a. at_attempt_id a = at_attempt_id (cl_attempt demo_claimed) \<and> \<not> attempt_open a)
      (outbox_delivery_attempts (mw_db ?w))" by code_simp
  then obtain a where a: "a \<in> set (outbox_delivery_attempts (mw_db ?w))"
      "at_attempt_id a = at_attempt_id (cl_attempt demo_claimed)" "\<not> attempt_open a"
    by (auto simp: list_ex_iff)
  have "ob_lease_id (cl_message demo_claimed) = Some 100" "ob_lease_owner (cl_message demo_claimed) = Some ''worker-1''"
    by code_simp+
  from stale_worker_writes_nothing[OF mquiet_demo this ok messaging_evolves_refl a] show ?thesis
    unfolding Let_def by blast
qed

text \<open>C38: a claim hands out at most the batch size of pairwise different commands,
  and each of them is held in the tables: being processed under the open attempt the claim carries.\<close>

theorem claims_are_exclusive:
  assumes "messaging.lawful E" and "messaging_ok (mw_db w)"
    and "claim_due_outbox E worker batch_size lease_seconds w = (Inr cs, w')"
  shows "distinct (map (\<lambda>c. ob_command_id (cl_message c)) cs) \<and> int (length cs) \<le> batch_size
    \<and> list_all (claim_held (mw_db w')) cs"
proof -
  have v: "validate_claim_parameters worker batch_size lease_seconds = Inr ()"
    and call: "integration_call E (bnd (select_due_outbox E batch_size) (claim_rows E worker lease_seconds)) w = (Inr cs, w')"
    using assms(3) by (auto simp: claim_due_outbox_def bnd_Inr)
  obtain w0 where run: "bnd (select_due_outbox E batch_size) (claim_rows E worker lease_seconds) w0 = (Inr cs, w')"
    and w0: "mw_db w0 = me_interfere E (mw_calls w) (mw_db w)"
    by (rule integration_call_Inr[OF call])
  have "messaging_ok (mw_db w0)" using assms(1,2) by (simp add: w0 messaging.lawful_def)
  note c = claim_body_Inr[OF this run]
  have "1 \<le> batch_size" using v by (auto simp: validate_claim_parameters_def split: if_splits)
  then show ?thesis using c(3-5) by (auto simp: list_all_iff)
qed

theorem claims_are_exclusive_witness:
  "length [demo_claimed] = 1 \<and> claim_held (mw_db claimed_world) demo_claimed"
proof -
  have f: "map_sum id (\<lambda>cs. cs = [demo_claimed]) (fst demo_claims_made) = Inr True" by code_simp
  then have "demo_claims_made = (Inr [demo_claimed], claimed_world)" by (cases "fst demo_claims_made") (auto intro: prod_eqI)
  then have "claim_due_outbox demo_menv ''worker-1'' 20 (Finite 90) start = (Inr [demo_claimed], claimed_world)"
    unfolding demo_claims_made_def .
  from claims_are_exclusive[OF messaging_lawful_demo messaging_ok_start this] show ?thesis by simp
qed

text \<open>C39: what the worker counts is what it has committed. A command reported as
  published, retried or dead has that status when its task ends, and the counters of a batch add up to
  the number of commands claimed.\<close>

theorem worker_counts_truthfully:
  "(process_outbox E W c w = (Inr r, w') \<longrightarrow> outcome_agrees c r (mw_db w'))
   \<and> (run_once E W w = (Inr r, w') \<longrightarrow>
        wr_published r + wr_retried r + wr_dead r + wr_lease_conflicts r + wr_failed r = wr_claimed r)"
  using process_outbox_outcome run_once_counted[unfolded counted_def] by blast

theorem worker_counts_truthfully_witness:
  "outcome_agrees demo_claimed (no_result\<lparr>wr_published := 1\<rparr>)
     (mw_db (snd (process_outbox demo_menv accepting demo_claimed claimed_world)))"
proof -
  let ?r = "process_outbox demo_menv accepting demo_claimed claimed_world"
  have "fst ?r = Inr (no_result\<lparr>wr_published := 1\<rparr>)" by code_simp
  then have "?r = (Inr (no_result\<lparr>wr_published := 1\<rparr>), snd ?r)" by (metis prod.collapse)
  then show ?thesis using worker_counts_truthfully by blast
qed



end
